(* ===== verification/Prelude.thy ===== *)
theory Prelude
  imports Main "HOL-Library.AList" "HOL-Library.Word" "HOL-Library.Sublist"
begin

unbundle bit_operations_syntax

section \<open>Shared vocabulary of the development\<close>

text \<open>
  What every component uses of the language and of its standard library: thrown errors as
  values, buffers, hexadecimal and decimal text, and the insertion-ordered \<open>Map\<close>.

  Conventions. A JavaScript string is modelled by its UTF-8 bytes, one \<^typ>\<open>char\<close> per byte, so
  \<open>Buffer.from(s, 'utf8')\<close> is \<open>utf8\<close> below and string length is the length in bytes (the
  same number for the ASCII identifiers, denominations and hexadecimal texts of this program).
  A \<open>Buffer\<close> is a list of \<open>8 word\<close>. A \<open>bigint\<close> is a \<^typ>\<open>nat\<close> or an \<^typ>\<open>int\<close>.
  A \<open>Map\<close> is its list of entries in insertion order, with \<^const>\<open>AList.update\<close> for
  \<open>Map.set\<close>, \<^const>\<open>AList.delete\<close> for \<open>Map.delete\<close> and \<^const>\<open>map_of\<close> for \<open>Map.get\<close>.
\<close>

type_synonym byte = "8 word"
type_synonym buffer = "byte list"
type_synonym hash_fun = "buffer \<Rightarrow> buffer"
type_synonym ('k, 'v) jsmap = "('k \<times> 'v) list"

named_theorems result_simps \<open>evaluation rules of the error monad\<close>
named_theorems hex_simps \<open>facts on hexadecimal text\<close>


subsection \<open>Errors as values\<close>

datatype error =
    Error string
  | GrpcInvalidArgument string
  | GrpcFailedPrecondition string
  | GrpcNotFound string
  | GrpcInternal string

type_synonym 'a result = "error + 'a"

definition bindE :: "'a result \<Rightarrow> ('a \<Rightarrow> 'b result) \<Rightarrow> 'b result" where
  "bindE m f = (case m of Inl e \<Rightarrow> Inl e | Inr x \<Rightarrow> f x)"

definition throwIf :: "bool \<Rightarrow> error \<Rightarrow> unit result" where
  "throwIf b e = (if b then Inl e else Inr ())"

primrec mapE :: "('a \<Rightarrow> 'b result) \<Rightarrow> 'a list \<Rightarrow> 'b list result" where
  "mapE f [] = Inr []"
| "mapE f (x # xs) = bindE (f x) (\<lambda>y. bindE (mapE f xs) (\<lambda>ys. Inr (y # ys)))"

primrec foldE :: "('a \<Rightarrow> 's \<Rightarrow> 's result) \<Rightarrow> 'a list \<Rightarrow> 's \<Rightarrow> 's result" where
  "foldE f [] s = Inr s"
| "foldE f (x # xs) s = bindE (f x s) (foldE f xs)"

lemma bindE_simps [simp, result_simps]:
  "bindE (Inl e) f = Inl e" "bindE (Inr x) f = f x"
  by (simp_all add: bindE_def)

lemma bindE_Inr_iff [result_simps]: "bindE m f = Inr y \<longleftrightarrow> (\<exists>x. m = Inr x \<and> f x = Inr y)"
  by (cases m) simp_all

lemma bindE_Inl_iff: "bindE m f = Inl e \<longleftrightarrow> m = Inl e \<or> (\<exists>x. m = Inr x \<and> f x = Inl e)"
  by (cases m) auto

lemma throwIf_iff [simp, result_simps]:
  "throwIf b e = Inr u \<longleftrightarrow> \<not> b" "throwIf b e = Inl e' \<longleftrightarrow> b \<and> e' = e"
  by (auto simp: throwIf_def)

lemma throwIf_eval [simp]: "throwIf True e = Inl e" "throwIf False e = Inr ()"
  by (simp_all add: throwIf_def)

lemma mapE_Inr_length: "mapE f xs = Inr ys \<Longrightarrow> length ys = length xs"
  by (induction xs arbitrary: ys) (auto simp: bindE_Inr_iff)

lemma mapE_Inr_iff: "mapE f xs = Inr ys \<longleftrightarrow> list_all2 (\<lambda>x y. f x = Inr y) xs ys"
  by (induction xs arbitrary: ys) (auto simp: bindE_Inr_iff list_all2_Cons1)

lemma mapE_total: "(\<And>x. x \<in> set xs \<Longrightarrow> f x = Inr (g x)) \<Longrightarrow> mapE f xs = Inr (map g xs)"
  by (induction xs) auto


subsection \<open>Text and bytes\<close>

definition byte_of_char :: "char \<Rightarrow> byte" where
  "byte_of_char c = word_of_nat (of_char c)"

definition char_of_byte :: "byte \<Rightarrow> char" where
  "char_of_byte b = char_of (unat b)"

definition utf8 :: "string \<Rightarrow> buffer" where
  "utf8 s = map byte_of_char s"

lemma unat_byte_of_char: "unat (byte_of_char c) = of_char c"
proof -
  have "(of_char c :: nat) < 256" by simp
  then show ?thesis by (simp add: byte_of_char_def unat_of_nat)
qed

lemma byte_less_256: "unat (b :: byte) < 256"
  using unsigned_less [of b, where 'a = nat] by simp

lemma char_of_byte_of_char [simp]: "char_of_byte (byte_of_char c) = c"
  by (simp add: char_of_byte_def unat_byte_of_char)

lemma byte_of_char_of_byte [simp]: "byte_of_char (char_of_byte b) = b"
  using byte_less_256 [of b] by (simp add: byte_of_char_def char_of_byte_def)

lemma utf8_length [simp]: "length (utf8 s) = length s"
  by (simp add: utf8_def)

lemma utf8_inj: "utf8 s = utf8 t \<longleftrightarrow> s = t"
proof
  assume "utf8 s = utf8 t"
  then have "map char_of_byte (utf8 s) = map char_of_byte (utf8 t)" by simp
  then show "s = t" by (simp add: utf8_def comp_def)
qed simp

lemma utf8_append [simp]: "utf8 (s @ t) = utf8 s @ utf8 t"
  by (simp add: utf8_def)


subsection \<open>Hexadecimal text\<close>

text \<open>
  \<open>to_hex\<close> is \<open>Buffer.toString('hex')\<close>. \<open>from_hex\<close> is \<open>Buffer.from(s, 'hex')\<close>, which
  decodes pairs of digits of either case and stops at the first pair that is not one.
\<close>

definition hex_digit :: "nat \<Rightarrow> char" where
  "hex_digit n = (if n < 10 then char_of (48 + n) else char_of (87 + n))"

definition hex_val :: "char \<Rightarrow> nat option" where
  "hex_val c = (let n = of_char c in
     if 48 \<le> n \<and> n \<le> 57 then Some (n - 48)
     else if 97 \<le> n \<and> n \<le> 102 then Some (n - 87)
     else if 65 \<le> n \<and> n \<le> 70 then Some (n - 55)
     else None)"

definition is_lower_hex :: "char \<Rightarrow> bool" where
  "is_lower_hex c = (let n = of_char c :: nat in 48 \<le> n \<and> n \<le> 57 \<or> 97 \<le> n \<and> n \<le> 102)"

definition is_hex :: "char \<Rightarrow> bool" where
  "is_hex c = (hex_val c \<noteq> None)"

definition to_hex :: "buffer \<Rightarrow> string" where
  "to_hex bs = concat (map (\<lambda>b. [hex_digit (unat b div 16), hex_digit (unat b mod 16)]) bs)"

fun from_hex :: "string \<Rightarrow> buffer" where
  "from_hex (a # b # cs) =
     (case (hex_val a, hex_val b) of
        (Some x, Some y) \<Rightarrow> word_of_nat (16 * x + y) # from_hex cs
      | _ \<Rightarrow> [])"
| "from_hex _ = []"

lemma hex_val_digit [simp]: "n < 16 \<Longrightarrow> hex_val (hex_digit n) = Some n"
  by (auto simp: hex_val_def hex_digit_def Let_def)

lemma is_lower_hex_digit [simp]: "n < 16 \<Longrightarrow> is_lower_hex (hex_digit n)"
  by (auto simp: is_lower_hex_def hex_digit_def Let_def)

lemma is_lower_hex_imp_is_hex: "is_lower_hex c \<Longrightarrow> is_hex c"
  by (auto simp: is_lower_hex_def is_hex_def hex_val_def Let_def)

lemma to_hex_simps [simp, hex_simps]:
  "to_hex [] = []"
  "to_hex (b # bs) = hex_digit (unat b div 16) # hex_digit (unat b mod 16) # to_hex bs"
  "to_hex (xs @ ys) = to_hex xs @ to_hex ys"
  by (simp_all add: to_hex_def)

lemma length_to_hex [simp, hex_simps]: "length (to_hex bs) = 2 * length bs"
  by (induction bs) simp_all

lemma byte_nibbles: "unat (b :: byte) div 16 < 16" "unat b mod 16 < 16"
  using byte_less_256 [of b] by auto

lemma from_hex_to_hex [simp, hex_simps]: "from_hex (to_hex bs) = bs"
  by (induction bs) (simp_all add: byte_nibbles)

lemma to_hex_inj [simp]: "to_hex xs = to_hex ys \<longleftrightarrow> xs = ys"
  by (metis from_hex_to_hex)

lemma to_hex_lower: "list_all is_lower_hex (to_hex bs)"
  by (induction bs) (simp_all add: byte_nibbles)

lemma to_hex_replicate_zero: "to_hex (replicate n 0) = replicate (2 * n) (CHR ''0'')"
  by (induction n) (simp_all add: hex_digit_def char_of_eq_iff)


subsection \<open>Decimal text\<close>

text \<open>\<open>dec_string\<close> is \<open>toString()\<close> of a non-negative \<open>bigint\<close>, and \<open>String(n)\<close>.\<close>

fun dec_string :: "nat \<Rightarrow> string" where
  "dec_string n =
     (if n < 10 then [char_of (48 + n)] else dec_string (n div 10) @ [char_of (48 + n mod 10)])"

declare dec_string.simps [simp del]

definition is_digit :: "char \<Rightarrow> bool" where
  "is_digit c = (let n = of_char c :: nat in 48 \<le> n \<and> n \<le> 57)"

definition digits :: "string \<Rightarrow> bool" where
  "digits s = (s \<noteq> [] \<and> list_all is_digit s)"

definition parse_dec :: "string \<Rightarrow> nat" where
  "parse_dec s = foldl (\<lambda>a c. 10 * a + (of_char c - 48)) 0 s"

lemma dec_string_digits: "digits (dec_string n)"
  unfolding digits_def
proof (induction n rule: dec_string.induct)
  case (1 n)
  then show ?case
    by (cases "n < 10") (simp_all add: dec_string.simps [of n] is_digit_def Let_def)
qed

lemma parse_dec_dec_string [simp]: "parse_dec (dec_string n) = n"
proof (induction n rule: dec_string.induct)
  case (1 n)
  then show ?case
    by (cases "n < 10") (simp_all add: dec_string.simps [of n] parse_dec_def)
qed

lemma dec_string_inj [simp]: "dec_string m = dec_string n \<longleftrightarrow> m = n"
  by (metis parse_dec_dec_string)

lemma dec_string_no_char: "c \<in> set (dec_string n) \<Longrightarrow> is_digit c"
  using dec_string_digits [of n] by (auto simp: digits_def list_all_iff)


subsection \<open>Insertion-ordered maps and sets\<close>

definition js_has :: "('k, 'v) jsmap \<Rightarrow> 'k \<Rightarrow> bool" where
  "js_has m k = (k \<in> fst ` set m)"

definition js_set_add :: "'a \<Rightarrow> 'a list \<Rightarrow> 'a list" where
  "js_set_add x xs = (if x \<in> set xs then xs else xs @ [x])"

definition js_set_of :: "'a list \<Rightarrow> 'a list" where
  "js_set_of xs = fold js_set_add xs []"

definition js_map_of :: "('k \<times> 'v) list \<Rightarrow> ('k, 'v) jsmap" where
  "js_map_of es = fold (\<lambda>(k, v). AList.update k v) es []"

lemma js_has_iff: "js_has m k \<longleftrightarrow> map_of m k \<noteq> None"
  by (simp add: js_has_def map_of_eq_None_iff)

lemma set_fold_js_set_add: "set (fold js_set_add xs acc) = set acc \<union> set xs"
  by (induction xs arbitrary: acc) (auto simp: js_set_add_def)

lemma set_js_set_of [simp]: "set (js_set_of xs) = set xs"
  by (simp add: js_set_of_def set_fold_js_set_add)

lemma distinct_fold_js_set_add: "distinct acc \<Longrightarrow> distinct (fold js_set_add xs acc)"
  by (induction xs arbitrary: acc) (auto simp: js_set_add_def)

lemma distinct_js_set_of [simp]: "distinct (js_set_of xs)"
  by (simp add: js_set_of_def distinct_fold_js_set_add)

lemma map_of_alist_update [simp]: "map_of (AList.update k v m) = (map_of m)(k \<mapsto> v)"
  by (rule update_conv')

lemma map_of_alist_delete [simp]: "map_of (AList.delete k m) = (map_of m)(k := None)"
  by (rule delete_conv')

lemma distinct_keys_delete: "distinct (map fst m) \<Longrightarrow> distinct (map fst (AList.delete k m))"
  by (rule distinct_delete)

lemma distinct_keys_update: "distinct (map fst m) \<Longrightarrow> distinct (map fst (AList.update k v m))"
  by (rule distinct_update)

lemma alist_update_new: "k \<notin> fst ` set m \<Longrightarrow> AList.update k v m = m @ [(k, v)]"
  by (induction m) auto

lemma js_map_of_distinct_acc:
  "distinct (map fst es) \<Longrightarrow> fst ` set es \<inter> fst ` set acc = {} \<Longrightarrow>
   fold (\<lambda>(k, v). AList.update k v) es acc = acc @ es"
proof (induction es arbitrary: acc)
  case (Cons e es)
  obtain k v where e: "e = (k, v)" by (cases e)
  with Cons.prems have new: "k \<notin> fst ` set acc" by auto
  have "fst ` set es \<inter> fst ` set (acc @ [(k, v)]) = {}"
    using Cons.prems e by auto
  with Cons.IH [of "acc @ [(k, v)]"] Cons.prems(1) e show ?case
    by (simp add: alist_update_new [OF new])
qed simp

lemma js_map_of_distinct: "distinct (map fst es) \<Longrightarrow> js_map_of es = es"
  using js_map_of_distinct_acc [of es "[]"] by (simp add: js_map_of_def)

end
