(* ===== verification/Js_Text.thy ===== *)
theory Js_Text
  imports Prelude
begin

section \<open>String operations of the standard library\<close>

text \<open>
  The string methods the sources call: decoding of UTF-8, \<open>trim\<close>, \<open>toLowerCase\<close>,
  \<open>split\<close>, \<open>join\<close>, \<open>replaceAll\<close>, \<open>includes\<close> and the regular expressions on digits and
  hexadecimal digits. Case folding is the one of ASCII.
\<close>


subsection \<open>Decoding UTF-8\<close>

text \<open>
  \<open>utf8_text\<close> is \<open>Buffer.toString('utf8')\<close>: well-formed sequences are kept, and each maximal
  ill-formed part becomes one U+FFFD (the bytes EF BF BD).
\<close>

definition utf8_lead :: "byte \<Rightarrow> (nat \<times> nat \<times> nat) option" where
  "utf8_lead b = (let n = unat b in
     if 194 \<le> n \<and> n \<le> 223 then Some (1, 128, 191)
     else if n = 224 then Some (2, 160, 191)
     else if n = 237 then Some (2, 128, 159)
     else if 225 \<le> n \<and> n \<le> 239 then Some (2, 128, 191)
     else if n = 240 then Some (3, 144, 191)
     else if 241 \<le> n \<and> n \<le> 243 then Some (3, 128, 191)
     else if n = 244 then Some (3, 128, 143)
     else None)"

fun utf8_cont :: "nat \<Rightarrow> nat \<Rightarrow> nat \<Rightarrow> buffer \<Rightarrow> nat" where
  "utf8_cont (Suc n) lo hi (b # bs) =
     (if lo \<le> unat b \<and> unat b \<le> hi then Suc (utf8_cont n 128 191 bs) else 0)"
| "utf8_cont _ _ _ _ = 0"

definition replacement :: string where
  "replacement = map char_of_byte [239, 191, 189]"

fun utf8_text :: "buffer \<Rightarrow> string" where
  "utf8_text [] = []"
| "utf8_text (b # bs) =
     (if unat b < 128 then char_of_byte b # utf8_text bs
      else case utf8_lead b of
        None \<Rightarrow> replacement @ utf8_text bs
      | Some (n, lo, hi) \<Rightarrow>
          (let k = utf8_cont n lo hi bs in
           (if k = n then map char_of_byte (b # take k bs) else replacement)
             @ utf8_text (drop k bs)))"

definition ascii :: "string \<Rightarrow> bool" where
  "ascii s = list_all (\<lambda>c. (of_char c :: nat) < 128) s"

definition well_formed :: "string \<Rightarrow> bool" where
  "well_formed s = (utf8_text (utf8 s) = s)"

lemma ascii_well_formed: "ascii s \<Longrightarrow> well_formed s"
  by (induction s) (auto simp: ascii_def well_formed_def utf8_def unat_byte_of_char)

lemma ascii_simps [simp]:
  "ascii []" "ascii (c # s) \<longleftrightarrow> (of_char c :: nat) < 128 \<and> ascii s"
  "ascii (s @ t) \<longleftrightarrow> ascii s \<and> ascii t"
  by (auto simp: ascii_def)

lemma is_digit_ascii: "is_digit c \<Longrightarrow> (of_char c :: nat) < 128"
  by (auto simp: is_digit_def Let_def)

lemma ascii_dec_string [simp]: "ascii (dec_string n)"
  by (auto simp: ascii_def list_all_iff is_digit_ascii dest: dec_string_no_char)


subsection \<open>Trimming and case folding\<close>

definition js_whitespace :: "string list" where
  "js_whitespace = map (map char_of_byte)
     [[9], [10], [11], [12], [13], [32], [194, 160], [225, 154, 128],
      [226, 128, 128], [226, 128, 129], [226, 128, 130], [226, 128, 131], [226, 128, 132],
      [226, 128, 133], [226, 128, 134], [226, 128, 135], [226, 128, 136], [226, 128, 137],
      [226, 128, 138], [226, 128, 168], [226, 128, 169], [226, 128, 175], [226, 129, 159],
      [227, 128, 128], [239, 187, 191]]"

fun strip_front :: "nat \<Rightarrow> string list \<Rightarrow> string \<Rightarrow> string" where
  "strip_front 0 ws s = s"
| "strip_front (Suc n) ws s =
     (case find (\<lambda>w. prefix w s) ws of
        None \<Rightarrow> s
      | Some w \<Rightarrow> strip_front n ws (drop (length w) s))"

definition js_trim :: "string \<Rightarrow> string" where
  "js_trim s =
     (let t = strip_front (length s) js_whitespace s in
      rev (strip_front (length t) (map rev js_whitespace) (rev t)))"

definition to_lower_char :: "char \<Rightarrow> char" where
  "to_lower_char c = (let n = of_char c :: nat in if 65 \<le> n \<and> n \<le> 90 then char_of (n + 32) else c)"

definition to_lower :: "string \<Rightarrow> string" where
  "to_lower s = map to_lower_char s"

lemma to_lower_length [simp]: "length (to_lower s) = length s"
  by (simp add: to_lower_def)

lemma to_lower_char_idem [simp]: "to_lower_char (to_lower_char c) = to_lower_char c"
  by (simp add: to_lower_char_def Let_def)

lemma to_lower_idem [simp]: "to_lower (to_lower s) = to_lower s"
  by (simp add: to_lower_def)

lemma to_lower_append [simp]: "to_lower (s @ t) = to_lower s @ to_lower t"
  by (simp add: to_lower_def)

lemma to_lower_char_hex: "is_lower_hex c \<Longrightarrow> to_lower_char c = c"
  by (auto simp: is_lower_hex_def to_lower_char_def Let_def)

lemma to_lower_hex: "list_all is_lower_hex s \<Longrightarrow> to_lower s = s"
  by (induction s) (simp_all add: to_lower_def to_lower_char_hex)

lemma strip_front_none:
  "(\<And>w. w \<in> set ws \<Longrightarrow> \<not> prefix w s) \<Longrightarrow> strip_front n ws s = s"
  by (cases n) (auto split: option.splits dest!: find_Some_iff [THEN iffD1] simp: nth_mem)

definition no_space :: "char \<Rightarrow> bool" where
  "no_space c = (let n = of_char c :: nat in 32 < n \<and> n < 128)"

lemma js_whitespace_hd: "w \<in> set js_whitespace \<Longrightarrow> w \<noteq> [] \<and> \<not> no_space (hd w) \<and> \<not> no_space (last w)"
  by (auto simp: js_whitespace_def no_space_def Let_def char_of_byte_def)

lemma js_trim_id:
  assumes "s \<noteq> [] \<Longrightarrow> no_space (hd s)" and "s \<noteq> [] \<Longrightarrow> no_space (last s)"
  shows "js_trim s = s"
proof (cases "s = []")
  case False
  have front: "strip_front n js_whitespace s = s" for n
  proof (rule strip_front_none)
    fix w assume "w \<in> set js_whitespace"
    with js_whitespace_hd assms(1) False show "\<not> prefix w s"
      by (metis hd_append2 prefix_def)
  qed
  have rear: "strip_front n (map rev js_whitespace) (rev s) = rev s" for n
  proof (rule strip_front_none)
    fix w assume "w \<in> set (map rev js_whitespace)"
    then obtain v where "v \<in> set js_whitespace" "w = rev v" by auto
    with js_whitespace_hd assms(2) False show "\<not> prefix w (rev s)"
      by (metis hd_append2 hd_rev prefix_def rev_is_Nil_conv)
  qed
  show ?thesis by (simp add: js_trim_def Let_def front rear)
qed (simp add: js_trim_def)


subsection \<open>Splitting, joining and replacing\<close>

fun split_on :: "char \<Rightarrow> string \<Rightarrow> string list" where
  "split_on c [] = [[]]"
| "split_on c (x # xs) =
     (if x = c then [] # split_on c xs
      else case split_on c xs of [] \<Rightarrow> [[x]] | y # ys \<Rightarrow> (x # y) # ys)"

fun join_with :: "string \<Rightarrow> string list \<Rightarrow> string" where
  "join_with sep [] = []"
| "join_with sep [x] = x"
| "join_with sep (x # y # ys) = x @ sep @ join_with sep (y # ys)"

function replace_all :: "string \<Rightarrow> string \<Rightarrow> string \<Rightarrow> string" where
  "replace_all pat rep [] = []"
| "replace_all pat rep (c # cs) =
     (if pat \<noteq> [] \<and> prefix pat (c # cs)
      then rep @ replace_all pat rep (drop (length pat) (c # cs))
      else c # replace_all pat rep cs)"
  by pat_completeness auto
termination
  by (relation "measure (\<lambda>(pat, rep, s). length s)") (auto simp: Suc_le_eq)

definition js_includes :: "string \<Rightarrow> string \<Rightarrow> bool" where
  "js_includes s pat = sublist pat s"

lemma split_on_nonempty [simp]: "split_on c s \<noteq> []"
  by (cases s) (auto split: list.splits)

lemma join_with_Cons: "join_with sep (x # xs) = x @ (if xs = [] then [] else sep @ join_with sep xs)"
  by (cases xs) simp_all

lemma join_split [simp]: "join_with [c] (split_on c s) = s"
  by (induction s) (auto simp: join_with_Cons split: list.splits if_splits)

lemma split_on_no_sep: "c \<notin> set s \<Longrightarrow> split_on c s = [s]"
  by (induction s) auto

lemma split_on_append_sep: "c \<notin> set s \<Longrightarrow> split_on c (s @ c # t) = s # split_on c t"
  by (induction s) auto

lemma split_join:
  "xs \<noteq> [] \<Longrightarrow> (\<And>x. x \<in> set xs \<Longrightarrow> c \<notin> set x) \<Longrightarrow> split_on c (join_with [c] xs) = xs"
proof (induction xs)
  case (Cons x xs)
  then show ?case
    by (cases "xs = []") (simp_all add: join_with_Cons split_on_append_sep split_on_no_sep)
qed simp

lemma split_on_no_char: "x \<in> set (split_on c s) \<Longrightarrow> c \<notin> set x"
  by (induction s arbitrary: x) (auto split: list.splits if_splits)

lemma replace_all_no_match: "\<not> js_includes s pat \<Longrightarrow> replace_all pat rep s = s"
proof (induction pat rep s rule: replace_all.induct)
  case (2 pat rep c cs)
  then have "\<not> prefix pat (c # cs)" and "\<not> js_includes cs pat"
    by (auto simp: js_includes_def sublist_Cons_right)
  with 2 show ?case by simp
qed simp

end
