(* ===== verification/Merkle_Hash.thy ===== *)
theory Merkle_Hash
  imports Js_Text
begin

unbundle bit_operations_syntax

section \<open>Hashes of the commitment scheme\<close>

text \<open>
  The hash functions at the top of \<open>cardano/gateway/src/shared/helpers/ics23-merkle-tree.ts\<close>
  and the arithmetic of a complete binary tree of depth 64 that both trees and the validators
  share. \<open>sha256\<close> comes from the package \<open>js-sha256\<close> and is the parameter \<open>sha\<close> of
  every definition; the only thing assumed of it, where anything is, is \<open>hash32\<close>: a digest
  has 32 bytes.
\<close>

definition MERKLE_DEPTH_BITS :: nat where
  "MERKLE_DEPTH_BITS = 64"

definition EMPTY_HASH :: buffer where
  "EMPTY_HASH = replicate 32 0"

definition hash32 :: "hash_fun \<Rightarrow> bool" where
  "hash32 sha = (\<forall>x. length (sha x) = 32)"

definition keyHash :: "hash_fun \<Rightarrow> string \<Rightarrow> buffer" where
  "keyHash sha key = sha (utf8 key)"

definition leafHash :: "hash_fun \<Rightarrow> string \<Rightarrow> buffer \<Rightarrow> buffer" where
  "leafHash sha key value =
     (if length value = 0 then EMPTY_HASH
      else let valueHash = sha value in sha (concat [[0x00], keyHash sha key, valueHash]))"

definition innerHash :: "hash_fun \<Rightarrow> buffer \<Rightarrow> buffer \<Rightarrow> buffer" where
  "innerHash sha left right =
     (if left = EMPTY_HASH \<and> right = EMPTY_HASH then EMPTY_HASH
      else sha (concat [[0x01], left, right]))"

text \<open>The big-endian reading of a buffer, which is what \<open>BigInt('0x' + hex)\<close> computes.\<close>

definition be_nat :: "buffer \<Rightarrow> nat" where
  "be_nat bs = foldl (\<lambda>n b. 256 * n + unat b) 0 bs"

definition keyIndex64 :: "hash_fun \<Rightarrow> string \<Rightarrow> nat" where
  "keyIndex64 sha key = (let first8 = take 8 (keyHash sha key) in be_nat first8)"


subsection \<open>Hash-level arithmetic\<close>

text \<open>
  \<open>up\<close> takes one level of the complete binary tree to the next, on total functions from
  indices to hashes; \<open>sibs\<close> reads the siblings on the way up from an index and \<open>climb\<close>
  recomputes the top from a leaf and those siblings.
\<close>

definition up :: "hash_fun \<Rightarrow> (nat \<Rightarrow> buffer) \<Rightarrow> nat \<Rightarrow> buffer" where
  "up sha f i = innerHash sha (f (2 * i)) (f (2 * i + 1))"

fun sibs :: "hash_fun \<Rightarrow> nat \<Rightarrow> (nat \<Rightarrow> buffer) \<Rightarrow> nat \<Rightarrow> buffer list" where
  "sibs sha 0 f i = []"
| "sibs sha (Suc n) f i = f (i XOR 1) # sibs sha n (up sha f) (i div 2)"

fun climb :: "hash_fun \<Rightarrow> nat \<Rightarrow> buffer \<Rightarrow> buffer list \<Rightarrow> buffer" where
  "climb sha i cur [] = cur"
| "climb sha i cur (s # ss) =
     climb sha (i div 2) (if even i then innerHash sha cur s else innerHash sha s cur) ss"

lemma xor_one_even: "even (i :: nat) \<Longrightarrow> i XOR Suc 0 = Suc i"
  by (simp add: xor_Suc_0_eq)

lemma xor_one_odd: "odd (i :: nat) \<Longrightarrow> i XOR Suc 0 = i - 1"
  by (simp add: xor_Suc_0_eq)

lemma climb_sibs: "climb sha i (f i) (sibs sha n f i) = (up sha ^^ n) f (i div 2 ^ n)"
proof (induction n arbitrary: f i)
  case (Suc n)
  have step: "(if even i then innerHash sha (f i) (f (i XOR 1)) else innerHash sha (f (i XOR 1)) (f i))
      = up sha f (i div 2)"
    by (cases "even i") (auto simp: up_def xor_one_even xor_one_odd elim!: evenE oddE)
  show ?case
    by (simp only: climb.simps sibs.simps step Suc.IH funpow_Suc_right comp_apply)
       (simp add: div_mult2_eq)
qed simp

lemma up_other: "j \<noteq> i div 2 \<Longrightarrow> up sha (f(i := x)) j = up sha f j"
  by (auto simp: up_def)

lemma up_update: "up sha (f(i := x)) = (up sha f)(i div 2 := up sha (f(i := x)) (i div 2))"
  by (auto simp: up_other)

lemma sibs_update: "sibs sha n (f(i := x)) i = sibs sha n f i"
proof (induction n arbitrary: f i x)
  case (Suc n)
  have "i XOR 1 \<noteq> i" by (cases "even i") (auto simp: xor_one_even xor_one_odd elim: oddE)
  moreover have "sibs sha n (up sha (f(i := x))) (i div 2) = sibs sha n (up sha f) (i div 2)"
    by (subst up_update) (rule Suc.IH)
  ultimately show ?case by (simp add: fun_upd_def)
qed simp

lemma innerHash_length: "hash32 sha \<Longrightarrow> length (innerHash sha l r) = 32"
  by (simp add: innerHash_def hash32_def EMPTY_HASH_def)

lemma leafHash_length: "hash32 sha \<Longrightarrow> length (leafHash sha k v) = 32"
  by (simp add: leafHash_def hash32_def EMPTY_HASH_def Let_def)

lemma up_length: "hash32 sha \<Longrightarrow> length (up sha f i) = 32"
  by (simp add: up_def innerHash_length)

lemma sibs_length [simp]: "length (sibs sha n f i) = n"
  by (induction n arbitrary: f i) simp_all

lemma sibs_hash_length:
  "hash32 sha \<Longrightarrow> (\<And>j. length (f j) = 32) \<Longrightarrow> s \<in> set (sibs sha n f i) \<Longrightarrow> length s = 32"
proof (induction n arbitrary: f i)
  case (Suc n)
  have "length s = 32" if "s \<in> set (sibs sha n (up sha f) (i div 2))"
    by (rule Suc.IH [OF Suc.prems(1) _ that]) (rule up_length [OF Suc.prems(1)])
  with Suc.prems show ?case by auto
qed simp

lemma climb_hash_length:
  "hash32 sha \<Longrightarrow> length cur = 32 \<Longrightarrow> length (climb sha i cur ss) = 32"
  by (induction ss arbitrary: i cur) (simp_all add: innerHash_length)


lemma be_nat_snoc: "be_nat (bs @ [b]) = 256 * be_nat bs + unat b"
  by (simp add: be_nat_def)

lemma be_nat_bound: "be_nat bs < 256 ^ length bs"
proof (induction bs rule: rev_induct)
  case (snoc b bs)
  have "unat b < 256" by (rule byte_less_256)
  with snoc show ?case by (simp add: be_nat_snoc)
qed (simp add: be_nat_def)

lemma keyIndex64_bound: "keyIndex64 sha key < 2 ^ MERKLE_DEPTH_BITS"
proof -
  have "be_nat (take 8 (keyHash sha key)) < 256 ^ min (length (keyHash sha key)) 8"
    using be_nat_bound [of "take 8 (keyHash sha key)"] by (simp add: min.commute)
  also have "\<dots> \<le> 256 ^ 8" by (rule power_increasing) simp_all
  finally show ?thesis by (simp add: keyIndex64_def MERKLE_DEPTH_BITS_def)
qed

lemma innerHash_empty: "innerHash sha EMPTY_HASH EMPTY_HASH = EMPTY_HASH"
  by (simp add: innerHash_def)



text \<open>With a hash that is never zero, a non-empty leaf gives a non-zero root.\<close>

lemma climb_nonzero:
  assumes "\<And>x. sha x \<noteq> EMPTY_HASH"
  shows "cur \<noteq> EMPTY_HASH \<Longrightarrow> climb sha i cur ss \<noteq> EMPTY_HASH"
  by (induction ss arbitrary: i cur) (simp_all add: innerHash_def assms)

lemma leafHash_nonzero: "(\<And>x. sha x \<noteq> EMPTY_HASH) \<Longrightarrow> v \<noteq> [] \<Longrightarrow> leafHash sha k v \<noteq> EMPTY_HASH"
  by (simp add: leafHash_def Let_def)

text \<open>Keys collide exactly when the first eight bytes of their digests agree.\<close>

lemma be_nat_inj: "length xs = length ys \<Longrightarrow> be_nat xs = be_nat ys \<longleftrightarrow> xs = ys"
proof (induction xs arbitrary: ys rule: rev_induct)
  case (snoc x xs)
  then obtain zs z where ys: "ys = zs @ [z]" "length zs = length xs"
    by (cases ys rule: rev_cases) auto
  have "be_nat xs = be_nat zs \<and> unat x = unat z" if "256 * be_nat xs + unat x = 256 * be_nat zs + unat z"
    using arg_cong [OF that, of "\<lambda>n. n div 256"] arg_cong [OF that, of "\<lambda>n. n mod 256"]
      byte_less_256 [of x] byte_less_256 [of z] by simp
  with snoc.IH [of zs] ys show ?case by (auto simp: be_nat_snoc word_unat_eq_iff)
qed simp

lemma keyIndex64_eq_iff:
  "hash32 sha \<Longrightarrow> keyIndex64 sha k = keyIndex64 sha l \<longleftrightarrow> take 8 (sha (utf8 k)) = take 8 (sha (utf8 l))"
  by (simp add: keyIndex64_def keyHash_def be_nat_inj hash32_def)

lemma inj_on_keyIndex64_list:
  assumes "hash32 sha" and "distinct (map (\<lambda>k. take 8 (sha (utf8 k))) ks)"
  shows "inj_on (keyIndex64 sha) (set ks)"
  using assms(2) by (auto simp: inj_on_def keyIndex64_eq_iff [OF assms(1)] distinct_map)

subsection \<open>Binding\<close>

text \<open>
  The byte strings that are hashed when a root is recomputed from a value and its siblings.
  If SHA-256 does not collide on these strings and hashes none of them to zero, the root
  determines the value and every sibling.
\<close>

fun climb_inputs :: "hash_fun \<Rightarrow> nat \<Rightarrow> buffer \<Rightarrow> buffer list \<Rightarrow> buffer list" where
  "climb_inputs sha i cur [] = []"
| "climb_inputs sha i cur (s # ss) =
     (let l = (if even i then cur else s); r = (if even i then s else cur) in
      (if l = EMPTY_HASH \<and> r = EMPTY_HASH then [] else [0x01 # l @ r]) @
      climb_inputs sha (i div 2) (innerHash sha l r) ss)"

definition leaf_inputs :: "hash_fun \<Rightarrow> string \<Rightarrow> buffer \<Rightarrow> buffer list" where
  "leaf_inputs sha key v = (if v = [] then [] else [v, 0x00 # keyHash sha key @ sha v])"

definition witness_inputs :: "hash_fun \<Rightarrow> string \<Rightarrow> buffer \<Rightarrow> buffer list \<Rightarrow> buffer list" where
  "witness_inputs sha key v ss =
     leaf_inputs sha key v @ climb_inputs sha (keyIndex64 sha key) (leafHash sha key v) ss"

definition collision_free :: "hash_fun \<Rightarrow> buffer list \<Rightarrow> bool" where
  "collision_free sha xs = (inj_on sha (set xs) \<and> EMPTY_HASH \<notin> sha ` set xs)"

lemma collision_freeD:
  assumes "collision_free sha xs"
  shows "\<And>x y. x \<in> set xs \<Longrightarrow> y \<in> set xs \<Longrightarrow> sha x = sha y \<Longrightarrow> x = y"
    and "\<And>x. x \<in> set xs \<Longrightarrow> sha x \<noteq> EMPTY_HASH"
  using assms by (auto simp: collision_free_def inj_on_def image_iff)

lemma collision_free_mono: "collision_free sha xs \<Longrightarrow> set ys \<subseteq> set xs \<Longrightarrow> collision_free sha ys"
  by (auto simp: collision_free_def inj_on_def image_iff)

lemma innerHash_sha: "\<not> (l = EMPTY_HASH \<and> r = EMPTY_HASH) \<Longrightarrow> innerHash sha l r = sha (0x01 # l @ r)"
  by (auto simp: innerHash_def)

lemma innerHash_binding:
  assumes cf: "collision_free sha xs"
    and l: "\<not> (l = EMPTY_HASH \<and> r = EMPTY_HASH) \<Longrightarrow> 0x01 # l @ r \<in> set xs"
    and l': "\<not> (l' = EMPTY_HASH \<and> r' = EMPTY_HASH) \<Longrightarrow> 0x01 # l' @ r' \<in> set xs"
    and len: "length l = length l'"
    and eq: "innerHash sha l r = innerHash sha l' r'"
  shows "l = l' \<and> r = r'"
proof (cases "l = EMPTY_HASH \<and> r = EMPTY_HASH")
  case True
  then have "innerHash sha l' r' = EMPTY_HASH" using eq innerHash_empty by simp
  then have "l' = EMPTY_HASH \<and> r' = EMPTY_HASH"
    using innerHash_sha [of l' r' sha] l' collision_freeD(2) [OF cf, of "0x01 # l' @ r'"] by fastforce
  with True show ?thesis by blast
next
  case False
  have nz: "\<not> (l' = EMPTY_HASH \<and> r' = EMPTY_HASH)"
    using False l eq innerHash_empty [of sha] innerHash_sha [OF False, of sha]
      collision_freeD(2) [OF cf, of "0x01 # l @ r"] by fastforce
  have "sha (0x01 # l @ r) = sha (0x01 # l' @ r')"
    by (simp only: innerHash_sha [OF False, symmetric] innerHash_sha [OF nz, symmetric] eq)
  then have "0x01 # l @ r = 0x01 # l' @ r'"
    by (rule collision_freeD(1) [OF cf l [OF False] l' [OF nz]])
  with len show ?thesis by simp
qed

lemma climb_binding:
  assumes "collision_free sha (climb_inputs sha i c ss @ climb_inputs sha i c' ss')"
    and "hash32 sha" "length c = 32" "length c' = 32" "length ss = length ss'"
    and "\<And>s. s \<in> set ss \<union> set ss' \<Longrightarrow> length s = 32"
    and "climb sha i c ss = climb sha i c' ss'"
  shows "c = c' \<and> ss = ss'"
  using assms(5,1,3,4,6,7)
proof (induction ss ss' arbitrary: i c c' rule: list_induct2)
  case (Cons s ss s' ss')
  define l r l' r' where lr: "l = (if even i then c else s)" "r = (if even i then s else c)"
    "l' = (if even i then c' else s')" "r' = (if even i then s' else c')"
  have len: "length l = 32" "length l' = 32"
    using Cons.prems(2,3) Cons.prems(4) [of s] Cons.prems(4) [of s'] by (simp_all add: lr)
  have inp: "climb_inputs sha i c (s # ss) = (if l = EMPTY_HASH \<and> r = EMPTY_HASH then [] else [0x01 # l @ r])
      @ climb_inputs sha (i div 2) (innerHash sha l r) ss"
    "climb_inputs sha i c' (s' # ss') = (if l' = EMPTY_HASH \<and> r' = EMPTY_HASH then [] else [0x01 # l' @ r'])
      @ climb_inputs sha (i div 2) (innerHash sha l' r') ss'"
    by (simp_all only: climb_inputs.simps Let_def lr)
  note cf = Cons.prems(1) [unfolded inp]
  have "innerHash sha l r = innerHash sha l' r' \<and> ss = ss'"
  proof (rule Cons.IH [where i = "i div 2"])
    show "collision_free sha (climb_inputs sha (i div 2) (innerHash sha l r) ss @
        climb_inputs sha (i div 2) (innerHash sha l' r') ss')"
      by (rule collision_free_mono [OF cf]) (simp only: set_append, blast)
    show "climb sha (i div 2) (innerHash sha l r) ss = climb sha (i div 2) (innerHash sha l' r') ss'"
      using Cons.prems(5) by (cases "even i") (simp_all add: lr)
  qed (simp_all add: innerHash_length [OF assms(2)] Cons.prems(4))
  moreover have "l = l' \<and> r = r'" if "innerHash sha l r = innerHash sha l' r'"
    by (rule innerHash_binding [OF cf _ _ _ that]; simp only: set_append len; simp only: if_False list.set Un_iff insert_iff simp_thms)
  ultimately show ?case by (cases "even i") (simp_all add: lr)
qed simp

lemma leafHash_binding:
  assumes "collision_free sha xs" "set (leaf_inputs sha k v) \<subseteq> set xs" "set (leaf_inputs sha k w) \<subseteq> set xs"
    and "leafHash sha k v = leafHash sha k w"
  shows "v = w"
proof (cases "v = [] \<or> w = []")
  case True
  with assms(2-4) collision_freeD(2) [OF assms(1)] show ?thesis
    by (simp add: leafHash_def leaf_inputs_def Let_def split: if_splits) metis+
next
  case False
  then have "sha (0x00 # keyHash sha k @ sha v) = sha (0x00 # keyHash sha k @ sha w)"
    using assms(4) by (simp add: leafHash_def Let_def)
  then have "sha v = sha w"
    using False assms(2,3) by (auto simp: leaf_inputs_def dest!: collision_freeD(1) [OF assms(1), rotated 2])
  then show ?thesis
    using False assms(2,3) by (auto simp: leaf_inputs_def dest!: collision_freeD(1) [OF assms(1), rotated 2])
qed

lemma value_binding:
  assumes "collision_free sha (witness_inputs sha k v ss @ witness_inputs sha k w ss')"
    and "hash32 sha" "length ss = length ss'" "\<And>s. s \<in> set ss \<union> set ss' \<Longrightarrow> length s = 32"
    and "climb sha (keyIndex64 sha k) (leafHash sha k v) ss = climb sha (keyIndex64 sha k) (leafHash sha k w) ss'"
  shows "v = w \<and> ss = ss'"
proof -
  have "leafHash sha k v = leafHash sha k w \<and> ss = ss'"
    by (rule climb_binding [OF collision_free_mono [OF assms(1)] assms(2)])
      (use assms in \<open>auto simp: witness_inputs_def leafHash_length\<close>)
  with leafHash_binding [OF assms(1)] show ?thesis by (auto simp: witness_inputs_def)
qed

end
