(* ===== verification/Onchain_Commitment.thy ===== *)
theory Onchain_Commitment
  imports Merkle_Hash
begin

section \<open>The validators' side of the commitment\<close>

text \<open>
  \<open>cardano/onchain/lib/ibc/core/ics-025-handler-interface/ibc_state_commitment.ak\<close>: how the
  \<open>host_state_stt\<close> validator replays one key update from a list of sibling hashes. The
  gateway's witnesses are only good for something if this code accepts them, so it is the
  specification the off-chain components are proved against. A failing \<open>expect\<close> is an
  error; the built-in \<open>sha2_256\<close> is the same parameter \<open>sha\<close> as the gateway's \<open>sha256\<close>.
\<close>

definition hash_size_bytes :: nat where
  "hash_size_bytes = 32"

definition empty_hash :: buffer where
  "empty_hash = from_hex ''0000000000000000000000000000000000000000000000000000000000000000''"

definition empty_value_hash :: buffer where
  "empty_value_hash = from_hex ''e3b0c44298fc1c149afbf4c8996fb92427ae41e4649b934ca495991b7852b855''"

definition expect :: "bool \<Rightarrow> unit result" where
  "expect b = throwIf (\<not> b) (Error ''expect'')"

definition value_hash :: "hash_fun \<Rightarrow> buffer \<Rightarrow> buffer" where
  "value_hash sha value = sha value"

definition leaf_hash :: "hash_fun \<Rightarrow> buffer \<Rightarrow> buffer \<Rightarrow> buffer result" where
  "leaf_hash sha key_hash vh =
     bindE (expect (length key_hash = hash_size_bytes)) (\<lambda>_.
     bindE (expect (length vh = hash_size_bytes)) (\<lambda>_.
     Inr (if vh = empty_value_hash then empty_hash else sha (([0] @ key_hash) @ vh))))"

definition inner_hash :: "hash_fun \<Rightarrow> buffer \<Rightarrow> buffer \<Rightarrow> buffer result" where
  "inner_hash sha left right =
     bindE (expect (length left = hash_size_bytes)) (\<lambda>_.
     bindE (expect (length right = hash_size_bytes)) (\<lambda>_.
     Inr (if left = empty_hash \<and> right = empty_hash then empty_hash
          else sha (([1] @ left) @ right))))"

definition bit_at :: "buffer \<Rightarrow> nat \<Rightarrow> nat" where
  "bit_at h bit_index =
     (let byte_index = 7 - bit_index div 8;
          bit_in_byte = bit_index mod 8;
          byte = unat (h ! byte_index)
      in byte div 2 ^ bit_in_byte mod 2)"

function compute_root_go :: "hash_fun \<Rightarrow> buffer \<Rightarrow> buffer \<Rightarrow> buffer list \<Rightarrow> nat \<Rightarrow> buffer result" where
  "compute_root_go sha key_hash current siblings depth =
     (if depth = MERKLE_DEPTH_BITS then bindE (expect (siblings = [])) (\<lambda>_. Inr current)
      else case siblings of
        [] \<Rightarrow> Inl (Error ''expect'')
      | sibling # rest \<Rightarrow>
          bindE (expect (length sibling = hash_size_bytes)) (\<lambda>_.
          bindE (if bit_at key_hash depth = 0 then inner_hash sha current sibling
                 else inner_hash sha sibling current) (\<lambda>next.
          compute_root_go sha key_hash next rest (depth + 1))))"
  by pat_completeness auto
termination
  by (relation "measure (\<lambda>(sha, key_hash, current, siblings, depth). length siblings)") auto

declare compute_root_go.simps [simp del]

definition compute_root :: "hash_fun \<Rightarrow> buffer \<Rightarrow> buffer \<Rightarrow> buffer list \<Rightarrow> buffer result" where
  "compute_root sha key leaf siblings =
     bindE (expect (length leaf = hash_size_bytes)) (\<lambda>_.
     compute_root_go sha (sha key) leaf siblings 0)"

definition apply_update :: "hash_fun \<Rightarrow> buffer \<Rightarrow> buffer \<Rightarrow> buffer \<Rightarrow> buffer \<Rightarrow> buffer list \<Rightarrow> buffer result" where
  "apply_update sha old_root key old_value new_value siblings =
     bindE (expect (length old_root = hash_size_bytes)) (\<lambda>_.
     bindE (leaf_hash sha (sha key) (value_hash sha old_value)) (\<lambda>old_leaf.
     bindE (compute_root sha key old_leaf siblings) (\<lambda>computed_old_root.
     bindE (expect (computed_old_root = old_root)) (\<lambda>_.
     bindE (leaf_hash sha (sha key) (value_hash sha new_value)) (\<lambda>new_leaf.
     compute_root sha key new_leaf siblings)))))"

text \<open>
  What is relied on of SHA-256: digests have 32 bytes, the digest of the empty string is the
  constant the validator compares with, and (per value) no other value has that digest.
\<close>

definition sha256_spec :: "hash_fun \<Rightarrow> bool" where
  "sha256_spec sha = (hash32 sha \<and> sha [] = empty_value_hash)"

definition commits_value :: "hash_fun \<Rightarrow> buffer \<Rightarrow> bool" where
  "commits_value sha v = (v = [] \<or> sha v \<noteq> empty_value_hash)"


subsection \<open>Both sides compute the same hashes\<close>

lemma expect_iff [simp]: "expect b = Inr u \<longleftrightarrow> b"
  by (simp add: expect_def)

lemma expect_True [simp]: "expect True = Inr ()"
  by (simp add: expect_def)

lemma expect_False [simp]: "expect False = Inl (Error ''expect'')"
  by (simp add: expect_def)

lemma empty_hash_eq: "empty_hash = EMPTY_HASH"
proof -
  have "replicate (2 * 32) (CHR ''0'') =
      ''0000000000000000000000000000000000000000000000000000000000000000''"
    by code_simp
  then have "empty_hash = from_hex (to_hex EMPTY_HASH)"
    unfolding EMPTY_HASH_def to_hex_replicate_zero empty_hash_def by (simp only:)
  then show ?thesis by (simp only: from_hex_to_hex)
qed

lemma leaf_hash_eq:
  assumes "sha256_spec sha" and "commits_value sha v"
  shows "leaf_hash sha (sha (utf8 k)) (value_hash sha v) = Inr (leafHash sha k v)"
  using assms
  by (auto simp: leaf_hash_def value_hash_def sha256_spec_def hash32_def hash_size_bytes_def
      commits_value_def leafHash_def keyHash_def empty_hash_eq Let_def)

lemma inner_hash_eq:
  "length l = 32 \<Longrightarrow> length r = 32 \<Longrightarrow> inner_hash sha l r = Inr (innerHash sha l r)"
  by (simp add: inner_hash_def hash_size_bytes_def innerHash_def empty_hash_eq)

lemma be_nat_append: "be_nat (xs @ ys) = be_nat xs * 256 ^ length ys + be_nat ys"
  by (induction ys rule: rev_induct) (simp_all add: be_nat_snoc be_nat_def [of "[]"] algebra_simps
      flip: append_assoc)

lemma be_nat_div: "be_nat (xs @ ys) div 256 ^ length ys = be_nat xs"
  using be_nat_bound [of ys] by (simp add: be_nat_append)

lemma low_bit_of_byte:
  assumes "r < 8"
  shows "(256 * z + b) div 2 ^ r mod 2 = b div 2 ^ r mod (2 :: nat)"
proof -
  have "(256 :: nat) = 2 ^ r * (2 * 2 ^ (7 - r))"
    using assms by (simp flip: power_Suc power_add)
  then have "256 * z + b = b + 2 ^ r * (2 * (2 ^ (7 - r) * z))"
    by (simp only: mult.assoc mult.left_commute add.commute)
  then have "(256 * z + b) div 2 ^ r = 2 * (2 ^ (7 - r) * z) + b div 2 ^ r"
    by (simp only: div_mult_self2 power_not_zero zero_neq_numeral) simp
  then show ?thesis by simp
qed

lemma bit_at_eq:
  assumes "8 \<le> length h" and "d < 64"
  shows "bit_at h d = be_nat (take 8 h) div 2 ^ d mod 2"
proof -
  define q r where "q = d div 8" and "r = d mod 8"
  have d: "d = 8 * q + r" and q: "q < 8" and r: "r < 8"
    using assms(2) by (auto simp: q_def r_def)
  have "take (8 - q) h = take (7 - q) h @ [h ! (7 - q)]"
  proof -
    have "8 - q = Suc (7 - q)" and "7 - q < length h" using q assms(1) by auto
    then show ?thesis by (simp add: take_Suc_conv_app_nth)
  qed
  moreover have "take 8 h = take (8 - q) (take 8 h) @ drop (8 - q) (take 8 h)"
    by (rule append_take_drop_id [symmetric])
  ultimately have split: "take 8 h = (take (7 - q) h @ [h ! (7 - q)]) @ drop (8 - q) (take 8 h)"
    using q by (simp add: min_def)
  have len: "length (drop (8 - q) (take 8 h)) = q"
    using assms(1) q by simp
  have "(2 :: nat) ^ d = 256 ^ q * 2 ^ r"
    by (simp add: d power_add power_mult)
  then have "be_nat (take 8 h) div 2 ^ d = be_nat (take 8 h) div 256 ^ q div 2 ^ r"
    by (simp add: div_mult2_eq)
  also have "be_nat (take 8 h) div 256 ^ q = be_nat (take (7 - q) h @ [h ! (7 - q)])"
    using be_nat_div [of "take (7 - q) h @ [h ! (7 - q)]" "drop (8 - q) (take 8 h)"]
    unfolding len split [symmetric] .
  finally show ?thesis
    by (simp add: bit_at_def Let_def be_nat_snoc low_bit_of_byte [OF r] flip: q_def r_def)
qed

lemma compute_root_go_eq:
  assumes "hash32 sha" and "8 \<le> length h"
  shows "length cur = 32 \<Longrightarrow> (\<And>s. s \<in> set ss \<Longrightarrow> length s = 32) \<Longrightarrow> depth + length ss = MERKLE_DEPTH_BITS \<Longrightarrow>
    compute_root_go sha h cur ss depth = Inr (climb sha (be_nat (take 8 h) div 2 ^ depth) cur ss)"
proof (induction ss arbitrary: cur depth)
  case Nil
  then show ?case by (simp add: compute_root_go.simps [of sha h])
next
  case (Cons s ss)
  let ?i = "be_nat (take 8 h) div 2 ^ depth"
  have depth: "depth < 64" using Cons.prems(3) by (simp add: MERKLE_DEPTH_BITS_def)
  have bit: "bit_at h depth = 0 \<longleftrightarrow> even ?i"
    by (simp add: bit_at_eq [OF assms(2) depth] even_iff_mod_2_eq_zero)
  have half: "be_nat (take 8 h) div 2 ^ (depth + 1) = ?i div 2"
    by (simp add: div_mult2_eq mult.commute [of 2])
  let ?next = "if even ?i then innerHash sha cur s else innerHash sha s cur"
  have IH: "compute_root_go sha h ?next ss (depth + 1) = Inr (climb sha (?i div 2) ?next ss)"
    using Cons.IH [of ?next "depth + 1"] Cons.prems assms(1) half by (simp add: innerHash_length)
  have "length s = 32" using Cons.prems(2) by simp
  then have "(if bit_at h depth = 0 then inner_hash sha cur s else inner_hash sha s cur) = Inr ?next"
    using Cons.prems(1) bit by (simp add: inner_hash_eq)
  with IH \<open>length s = 32\<close> depth show ?case
    by (simp add: compute_root_go.simps [of sha h cur] hash_size_bytes_def MERKLE_DEPTH_BITS_def)
qed

lemma compute_root_eq:
  assumes "hash32 sha" and "length leaf = 32" and "length ss = MERKLE_DEPTH_BITS"
    and "\<And>s. s \<in> set ss \<Longrightarrow> length s = 32"
  shows "compute_root sha (utf8 key) leaf ss = Inr (climb sha (keyIndex64 sha key) leaf ss)"
proof -
  have "8 \<le> length (sha (utf8 key))" using assms(1) by (simp add: hash32_def)
  from compute_root_go_eq [OF assms(1) this assms(2,4), where depth = 0] assms show ?thesis
    by (simp add: compute_root_def hash_size_bytes_def keyIndex64_def keyHash_def)
qed

lemma compute_root_go_shape:
  "compute_root_go sha h cur ss depth = Inr r \<Longrightarrow> depth \<le> MERKLE_DEPTH_BITS \<Longrightarrow>
   length ss = MERKLE_DEPTH_BITS - depth \<and> (\<forall>s \<in> set ss. length s = 32)"
proof (induction ss arbitrary: cur depth)
  case Nil
  then show ?case
    by (simp add: compute_root_go.simps [of sha h] split: if_splits)
next
  case (Cons s ss)
  from Cons.prems have "depth < MERKLE_DEPTH_BITS"
    by (cases "depth = MERKLE_DEPTH_BITS") (simp_all add: compute_root_go.simps [of sha h])
  moreover from this Cons.prems(1) obtain nx where
    "length s = 32" "compute_root_go sha h nx ss (depth + 1) = Inr r"
    by (auto simp: compute_root_go.simps [of sha h cur] bindE_Inr_iff hash_size_bytes_def)
  ultimately show ?case using Cons.IH [of nx "depth + 1"] by simp
qed

lemma compute_root_shape:
  "compute_root sha key leaf ss = Inr r \<Longrightarrow> length ss = MERKLE_DEPTH_BITS \<and> (\<forall>s \<in> set ss. length s = 32)"
  using compute_root_go_shape [where depth = 0] by (fastforce simp: compute_root_def bindE_Inr_iff)

end
