(* ===== verification/Commitment_Interface.thy ===== *)
theory Commitment_Interface
  imports Onchain_Commitment
begin

section \<open>The interface of a commitment tree\<close>

text \<open>
  What the state-root computations rely on, whichever of the two tree classes they use. A tree
  has a \<open>view\<close> (its contents, without the caches); \<open>get\<close> and \<open>put\<close> act on the view as
  on a finite map in which storing the empty value deletes; \<open>root_of\<close> and \<open>siblings_of\<close>
  return the digest and the sibling list of the view and may only refresh caches; and a digest
  is what one obtains by climbing from the leaf of any key along its siblings. From these laws
  alone follows that the validators accept the witness of every single update.
\<close>

locale commitment_tree =
  fixes view :: "'t \<Rightarrow> 'v"
    and lookup :: "'v \<Rightarrow> string \<Rightarrow> buffer option"
    and store :: "string \<Rightarrow> buffer \<Rightarrow> 'v \<Rightarrow> 'v"
    and digest :: "hash_fun \<Rightarrow> 'v \<Rightarrow> buffer"
    and witness :: "hash_fun \<Rightarrow> string \<Rightarrow> 'v \<Rightarrow> buffer list"
    and put :: "string \<Rightarrow> buffer \<Rightarrow> 't \<Rightarrow> 't"
    and root_of :: "hash_fun \<Rightarrow> 't \<Rightarrow> (string \<times> 't) result"
    and siblings_of :: "hash_fun \<Rightarrow> string \<Rightarrow> 't \<Rightarrow> (buffer list \<times> 't) result"
    and ok :: "hash_fun \<Rightarrow> string set \<Rightarrow> 't \<Rightarrow> bool"
  assumes put_view: "view (put k v t) = store k v (view t)"
    and lookup_store: "lookup (store k v c) = (lookup c)(k := (if v = [] then None else Some v))"
    and ok_put: "ok sha K t \<Longrightarrow> k \<in> K \<Longrightarrow> ok sha K (put k v t)"
    and ok_mono: "ok sha K t \<Longrightarrow> L \<subseteq> K \<Longrightarrow> ok sha L t"
    and root_of_ok: "ok sha K t \<Longrightarrow>
      \<exists>t'. root_of sha t = Inr (to_hex (digest sha (view t)), t') \<and> view t' = view t \<and> ok sha K t'"
    and siblings_of_ok: "ok sha K t \<Longrightarrow>
      \<exists>t'. siblings_of sha k t = Inr (witness sha k (view t), t') \<and> view t' = view t \<and> ok sha K t'"
    and digest_climb: "ok sha K t \<Longrightarrow> k \<in> K \<Longrightarrow>
      digest sha (view t) = climb sha (keyIndex64 sha k)
        (leafHash sha k (case lookup (view t) k of Some v \<Rightarrow> v | None \<Rightarrow> [])) (witness sha k (view t))"
    and witness_store: "ok sha K t \<Longrightarrow> k \<in> K \<Longrightarrow>
      witness sha k (store k v (view t)) = witness sha k (view t)"
    and witness_length: "length (witness sha k c) = MERKLE_DEPTH_BITS"
    and witness_hashes: "hash32 sha \<Longrightarrow> s \<in> set (witness sha k c) \<Longrightarrow> length s = 32"
begin

lemma digest_store:
  assumes "ok sha K t" and "k \<in> K"
  shows "digest sha (store k v (view t)) =
    climb sha (keyIndex64 sha k) (leafHash sha k v) (witness sha k (view t))"
proof -
  have "digest sha (view (put k v t)) = climb sha (keyIndex64 sha k)
      (leafHash sha k (case lookup (view (put k v t)) k of Some v \<Rightarrow> v | None \<Rightarrow> []))
      (witness sha k (view (put k v t)))"
    by (rule digest_climb [OF ok_put [OF assms] assms(2)])
  then show ?thesis
    by (cases "v = []") (simp_all add: put_view lookup_store witness_store [OF assms])
qed

lemma digest_length: "hash32 sha \<Longrightarrow> ok sha K t \<Longrightarrow> k \<in> K \<Longrightarrow> length (digest sha (view t)) = 32"
  by (simp add: digest_climb climb_hash_length leafHash_length)

lemma replay:
  assumes sha: "sha256_spec sha" and ok: "ok sha K t" and k: "k \<in> K"
    and old: "old = (case lookup (view t) k of Some v \<Rightarrow> v | None \<Rightarrow> [])"
    and c: "commits_value sha old" "commits_value sha v"
  shows "apply_update sha (digest sha (view t)) (utf8 k) old v (witness sha k (view t))
    = Inr (digest sha (store k v (view t)))"
proof -
  have h: "hash32 sha" using sha by (simp add: sha256_spec_def)
  have "compute_root sha (utf8 k) (leafHash sha k w) (witness sha k (view t)) =
      Inr (climb sha (keyIndex64 sha k) (leafHash sha k w) (witness sha k (view t)))" for w
    by (rule compute_root_eq [OF h leafHash_length [OF h] witness_length witness_hashes [OF h]])
  then show ?thesis
    using digest_length [OF h ok k]
    by (simp add: apply_update_def hash_size_bytes_def leaf_hash_eq [OF sha] c digest_store [OF ok k])
       (simp add: digest_climb [OF ok k] old)
qed

lemma no_forgery:
  assumes sha: "sha256_spec sha" and ok: "ok sha K t" and k: "k \<in> K"
    and upd: "apply_update sha (digest sha (view t)) (utf8 k) old v ss = Inr r"
    and c: "commits_value sha old"
    and cf: "collision_free sha (witness_inputs sha k old ss @
      witness_inputs sha k (case lookup (view t) k of Some v \<Rightarrow> v | None \<Rightarrow> []) (witness sha k (view t)))"
  shows "old = (case lookup (view t) k of Some v \<Rightarrow> v | None \<Rightarrow> []) \<and> ss = witness sha k (view t)"
proof -
  have h: "hash32 sha" using sha by (simp add: sha256_spec_def)
  from upd have root: "compute_root sha (utf8 k) (leafHash sha k old) ss = Inr (digest sha (view t))"
    by (auto simp: apply_update_def leaf_hash_eq [OF sha c] bindE_Inr_iff)
  note shape = compute_root_shape [OF root]
  from root have "climb sha (keyIndex64 sha k) (leafHash sha k old) ss = digest sha (view t)"
    using shape compute_root_eq [OF h leafHash_length [OF h], of ss] by simp
  with shape show ?thesis
    by (intro value_binding [OF cf h]) (auto simp: witness_length digest_climb [OF ok k] witness_hashes [OF h])
qed

end

end
