(* ===== verification/Witness_Hash.thy ===== *)
theory Witness_Hash
  imports Onchain_Commitment
begin

section \<open>Concrete hash functions\<close>

text \<open>
  Two functions that satisfy everything the development assumes of SHA-256 and that the
  simplifier can evaluate. They instantiate the parameter \<open>sha\<close> where a theorem is applied to
  a concrete input. \<open>sum_hash\<close> adds up the bytes, so that a chain of hashes never repeats;
  \<open>tail_hash\<close> keeps the last bytes, so that paths with different endings have different
  indices, together with the sum and the length of the input, and starts with a marker byte, so
  that no digest is zero.
\<close>

definition sum_hash :: hash_fun where
  "sum_hash x = (if x = [] then empty_value_hash else of_nat (sum_list (map unat x)) # replicate 31 0)"

definition tail_hash :: hash_fun where
  "tail_hash x = (if x = [] then empty_value_hash
     else 1 # sum_list x # of_nat (length x) # take 29 (rev x @ replicate 29 0))"

lemma length_empty_value_hash: "length empty_value_hash = 32"
  by code_simp

lemma sum_hash_spec: "sha256_spec sum_hash"
  by (simp add: sha256_spec_def hash32_def sum_hash_def length_empty_value_hash)

lemma tail_hash_spec: "sha256_spec tail_hash"
  by (simp add: sha256_spec_def hash32_def tail_hash_def length_empty_value_hash min_def)

text \<open>The marker byte keeps digests away from zero and from the digest of the empty string.\<close>

lemma empty_value_hash_hd: "hd empty_value_hash = 0xE3"
  by code_simp

lemma tail_hash_commits: "commits_value tail_hash v"
proof -
  have "tail_hash v \<noteq> empty_value_hash" if "v \<noteq> []"
  proof
    assume "tail_hash v = empty_value_hash"
    from arg_cong [OF this, of hd] that show False by (simp add: tail_hash_def empty_value_hash_hd)
  qed
  then show ?thesis by (auto simp: commits_value_def)
qed

lemma tail_hash_nonzero: "tail_hash x \<noteq> EMPTY_HASH"
proof
  assume "tail_hash x = EMPTY_HASH"
  from arg_cong [OF this, of hd] show False
    by (simp add: tail_hash_def EMPTY_HASH_def empty_value_hash_hd split: if_splits)
qed

lemmas sum_hash_hash32 = sum_hash_spec [unfolded sha256_spec_def, THEN conjunct1]

lemmas tail_hash_hash32 = tail_hash_spec [unfolded sha256_spec_def, THEN conjunct1]

text \<open>
  Along a path whose siblings are all empty, \<open>sum_hash\<close> counts up, so the 64 hashes of an
  opening are different and none is zero.
\<close>

lemma sum_hash_inner:
  "sum_hash (0x01 # (w # replicate 31 0) @ EMPTY_HASH) = of_nat (Suc (unat w)) # replicate 31 0"
  "sum_hash (0x01 # EMPTY_HASH @ (w # replicate 31 0)) = of_nat (Suc (unat w)) # replicate 31 0"
  by (simp_all add: sum_hash_def EMPTY_HASH_def map_replicate sum_list_replicate)

lemma sum_hash_climb:
  "unat w + n < 256 \<Longrightarrow> w \<noteq> 0 \<Longrightarrow>
   map sum_hash (climb_inputs sum_hash i (w # replicate 31 0) (replicate n EMPTY_HASH)) =
   map (\<lambda>j. of_nat (unat w + j) # replicate 31 0) [1..<Suc n]"
proof (induction n arbitrary: i w)
  case (Suc n)
  let ?w = "of_nat (Suc (unat w)) :: byte"
  have w: "unat ?w = Suc (unat w)" using Suc.prems(1) by (simp only: unat_of_nat) simp
  have nz: "?w \<noteq> 0" using w by (metis unat_0 nat.distinct(1))
  have ne: "w # replicate 31 0 \<noteq> EMPTY_HASH"
    using Suc.prems(2) by (simp add: EMPTY_HASH_def numeral_eq_Suc)
  have IH: "map sum_hash (climb_inputs sum_hash (i div 2) (?w # replicate 31 0) (replicate n EMPTY_HASH)) =
      map (\<lambda>j. of_nat (Suc (unat w + j)) # replicate 31 0) [1..<Suc n]"
    using Suc.IH [of ?w "i div 2"] Suc.prems(1) w nz by simp
  have upt: "[1..<Suc (Suc n)] = 1 # map Suc [1..<Suc n]" by (simp add: map_Suc_upt upt_conv_Cons)
  have step: "innerHash sum_hash (if even i then w # replicate 31 0 else EMPTY_HASH)
      (if even i then EMPTY_HASH else w # replicate 31 0) = ?w # replicate 31 0"
    using ne innerHash_sha [of "w # replicate 31 0" EMPTY_HASH sum_hash]
      innerHash_sha [of EMPTY_HASH "w # replicate 31 0" sum_hash] sum_hash_inner [of w] by simp
  show ?case
    unfolding replicate_Suc climb_inputs.simps Let_def step map_append IH upt
    using ne sum_hash_inner [of w] by (cases "even i") simp_all
qed simp

lemma collision_free_listI:
  assumes "distinct (map (\<lambda>x. unat (hd (sha x))) xs)" and "0 \<notin> set (map (\<lambda>x. unat (hd (sha x))) xs)"
  shows "collision_free sha xs"
proof -
  have "EMPTY_HASH \<noteq> sha x" if "x \<in> set xs" for x
  proof
    assume "EMPTY_HASH = sha x"
    from arg_cong [OF this, of hd] have "unat (hd (sha x)) = 0" by (simp add: EMPTY_HASH_def)
    moreover have "unat (hd (sha x)) \<in> set (map (\<lambda>x. unat (hd (sha x))) xs)" using that by simp
    ultimately show False using assms(2) by simp
  qed
  moreover have "inj_on sha (set xs)"
    using assms(1) by (auto simp: distinct_map inj_on_def)
  ultimately show ?thesis by (auto simp: collision_free_def)
qed

end
