(* ===== verification/Merkle_Tree.thy ===== *)
theory Merkle_Tree
  imports Commitment_Interface Witness_Hash
begin

unbundle bit_operations_syntax

section \<open>The gateway's commitment tree\<close>

text \<open>
  The class \<open>ICS23MerkleTree\<close> of
  \<open>cardano/gateway/src/shared/helpers/ics23-merkle-tree.ts\<close>: a sparse Merkle tree of depth 64
  over the first 64 bits of \<open>sha256(key)\<close>. The mutable fields of the class are the record
  \<open>merkle_tree\<close>; a method that may throw returns a \<open>result\<close>, and one that refreshes the
  cache returns the tree with the new cache. The theory ends with the interpretation of the
  interface \<open>commitment_tree\<close> on this class and the properties of its proofs.
\<close>

subsection \<open>Proof objects and the tree's state\<close>

record inner_op =
  op_hash :: nat
  op_prefix :: buffer
  op_suffix :: buffer

record leaf_op =
  lo_hash :: nat
  lo_prehash_key :: nat
  lo_prehash_value :: nat
  lo_length :: nat
  lo_prefix :: buffer

record existence_proof =
  ep_key :: buffer
  ep_value :: buffer
  ep_leaf :: leaf_op
  ep_path :: "inner_op list"

record non_existence_proof =
  nep_key :: buffer
  nep_left :: "existence_proof option"
  nep_right :: "existence_proof option"

record merkle_tree =
  leaves :: "(string, buffer) jsmap"
  root :: buffer
  dirty :: bool
  nodesByHeight :: "(nat, buffer) jsmap list option"

definition new_tree :: merkle_tree where
  "new_tree = \<lparr>leaves = [], root = EMPTY_HASH, dirty = True, nodesByHeight = None\<rparr>"

definition clone :: "merkle_tree \<Rightarrow> merkle_tree" where
  "clone t = new_tree\<lparr>leaves := js_map_of (leaves t), dirty := True\<rparr>"

datatype value_arg = Bytes buffer | HexText string

definition set_leaf :: "string \<Rightarrow> value_arg \<Rightarrow> merkle_tree \<Rightarrow> merkle_tree" where
  "set_leaf key value t =
     (let valueBuffer = (case value of HexText s \<Rightarrow> from_hex s | Bytes b \<Rightarrow> b);
          leaves' = (if length valueBuffer = 0 then AList.delete key (leaves t)
                     else AList.update key valueBuffer (leaves t))
      in t\<lparr>leaves := leaves', dirty := True\<rparr>)"

definition get_leaf :: "merkle_tree \<Rightarrow> string \<Rightarrow> buffer option" where
  "get_leaf t key = map_of (leaves t) key"

definition delete_leaf :: "string \<Rightarrow> merkle_tree \<Rightarrow> merkle_tree" where
  "delete_leaf key t = t\<lparr>leaves := AList.delete key (leaves t), dirty := True\<rparr>"

definition tree_size :: "merkle_tree \<Rightarrow> nat" where
  "tree_size t = length (leaves t)"

definition getKeys :: "merkle_tree \<Rightarrow> string list" where
  "getKeys t = map fst (leaves t)"


subsection \<open>Rebuilding the cached levels\<close>

definition node_or_empty :: "(nat, buffer) jsmap \<Rightarrow> nat \<Rightarrow> buffer" where
  "node_or_empty m i = (case map_of m i of Some h \<Rightarrow> h | None \<Rightarrow> EMPTY_HASH)"

definition collision_error :: "nat \<Rightarrow> string \<Rightarrow> string \<Rightarrow> error" where
  "collision_error index previousKey key =
     Error (''Merkle key collision at index '' @ dec_string index @ '': '' @ CHR 0x27 # previousKey
       @ CHR 0x27 # '' and '' @ CHR 0x27 # key @ [CHR 0x27])"

text \<open>
  The first loop of \<open>ensureRebuilt\<close>. A previous key that is the empty string is falsy in
  the source and so never counts as a collision.
\<close>

fun leaf_level :: "hash_fun \<Rightarrow> (string, buffer) jsmap \<Rightarrow> (nat, string) jsmap \<Rightarrow>
    (nat, buffer) jsmap \<Rightarrow> (nat, buffer) jsmap result" where
  "leaf_level sha [] indexToKey nodes0 = Inr nodes0"
| "leaf_level sha ((key, value) # rest) indexToKey nodes0 =
     (let index = keyIndex64 sha key in
      case map_of indexToKey index of
        Some previousKey \<Rightarrow>
          if previousKey \<noteq> [] \<and> previousKey \<noteq> key then Inl (collision_error index previousKey key)
          else leaf_level sha rest (AList.update index key indexToKey)
                 (let h = leafHash sha key value in
                  if h \<noteq> EMPTY_HASH then AList.update index h nodes0 else nodes0)
      | None \<Rightarrow>
          leaf_level sha rest (AList.update index key indexToKey)
            (let h = leafHash sha key value in
             if h \<noteq> EMPTY_HASH then AList.update index h nodes0 else nodes0))"

definition parent_level :: "hash_fun \<Rightarrow> (nat, buffer) jsmap \<Rightarrow> (nat, buffer) jsmap" where
  "parent_level sha childMap =
     (let parents = js_set_of (map (drop_bit 1) (map fst childMap)) in
      fold (\<lambda>parentIndex parentMap.
              let leftIndex = push_bit 1 parentIndex;
                  rightIndex = leftIndex + 1;
                  p = innerHash sha (node_or_empty childMap leftIndex) (node_or_empty childMap rightIndex)
              in if p \<noteq> EMPTY_HASH then AList.update parentIndex p parentMap else parentMap)
        parents [])"

fun levels_from :: "hash_fun \<Rightarrow> nat \<Rightarrow> (nat, buffer) jsmap \<Rightarrow> (nat, buffer) jsmap list" where
  "levels_from sha 0 level = [level]"
| "levels_from sha (Suc n) level = level # levels_from sha n (parent_level sha level)"

definition ensureRebuilt :: "hash_fun \<Rightarrow> merkle_tree \<Rightarrow> merkle_tree result" where
  "ensureRebuilt sha t =
     (if \<not> dirty t \<and> nodesByHeight t \<noteq> None then Inr t
      else bindE (leaf_level sha (leaves t) [] []) (\<lambda>level0.
        let nodes = levels_from sha MERKLE_DEPTH_BITS level0 in
        Inr (t\<lparr>nodesByHeight := Some nodes,
               root := node_or_empty (nodes ! MERKLE_DEPTH_BITS) 0,
               dirty := False\<rparr>)))"

definition getRoot :: "hash_fun \<Rightarrow> merkle_tree \<Rightarrow> (string \<times> merkle_tree) result" where
  "getRoot sha t = bindE (ensureRebuilt sha t) (\<lambda>t'. Inr (to_hex (root t'), t'))"


subsection \<open>Witnesses and proofs\<close>

fun sibling_loop :: "(nat, buffer) jsmap list \<Rightarrow> nat \<Rightarrow> buffer list" where
  "sibling_loop [] index = []"
| "sibling_loop (level # upper) index =
     node_or_empty level (index XOR 1) # sibling_loop upper (drop_bit 1 index)"

definition getSiblings :: "hash_fun \<Rightarrow> string \<Rightarrow> merkle_tree \<Rightarrow> (buffer list \<times> merkle_tree) result" where
  "getSiblings sha key t =
     bindE (ensureRebuilt sha t) (\<lambda>t'.
       case nodesByHeight t' of
         None \<Rightarrow> Inl (Error ''nodesByHeight is null'')
       | Some nodes \<Rightarrow> Inr (sibling_loop (take MERKLE_DEPTH_BITS nodes) (keyIndex64 sha key), t'))"

fun proof_path :: "nat \<Rightarrow> buffer list \<Rightarrow> inner_op list" where
  "proof_path index [] = []"
| "proof_path index (siblingHash # rest) =
     (if index AND 1 = 0
      then \<lparr>op_hash = 1, op_prefix = [0x01], op_suffix = siblingHash\<rparr>
      else \<lparr>op_hash = 1, op_prefix = concat [[0x01], siblingHash], op_suffix = []\<rparr>)
     # proof_path (drop_bit 1 index) rest"

definition default_leaf_op :: leaf_op where
  "default_leaf_op =
     \<lparr>lo_hash = 1, lo_prehash_key = 0, lo_prehash_value = 0, lo_length = 0, lo_prefix = []\<rparr>"

definition generateProof :: "hash_fun \<Rightarrow> string \<Rightarrow> merkle_tree \<Rightarrow> (existence_proof \<times> merkle_tree) result" where
  "generateProof sha key t =
     (if tree_size t = 0 then Inl (Error ''Cannot generate proof: tree is empty'')
      else case get_leaf t key of
        None \<Rightarrow> Inl (Error (''Cannot generate proof: key '' @ CHR 0x27 # key @ CHR 0x27 # '' not found in tree''))
      | Some value \<Rightarrow>
          bindE (getSiblings sha key t) (\<lambda>(siblings, t').
            Inr (\<lparr>ep_key = utf8 key, ep_value = value, ep_leaf = default_leaf_op,
                  ep_path = proof_path (keyIndex64 sha key) siblings\<rparr>, t')))"

definition generateNonExistenceProof :: "hash_fun \<Rightarrow> string \<Rightarrow> merkle_tree \<Rightarrow>
    (non_existence_proof \<times> merkle_tree) result" where
  "generateNonExistenceProof sha key t =
     (if js_has (leaves t) key
      then Inl (Error (''Cannot generate non-existence proof: key '' @ CHR 0x27 # key @ CHR 0x27 # '' exists in tree''))
      else if tree_size t = 0 then Inl (Error ''Cannot generate non-existence proof: tree is empty'')
      else bindE (getSiblings sha key t) (\<lambda>(siblings, t').
        let emptyValueProof = \<lparr>ep_key = utf8 key, ep_value = [], ep_leaf = default_leaf_op,
              ep_path = proof_path (keyIndex64 sha key) siblings\<rparr>
        in Inr (\<lparr>nep_key = utf8 key, nep_left = Some emptyValueProof, nep_right = None\<rparr>, t')))"

definition apply_op :: "hash_fun \<Rightarrow> inner_op \<Rightarrow> buffer \<Rightarrow> buffer" where
  "apply_op sha op currentHash =
     (if length (op_suffix op) > 0 then innerHash sha currentHash (op_suffix op)
      else innerHash sha (drop 1 (op_prefix op)) currentHash)"

definition verifyProof :: "hash_fun \<Rightarrow> existence_proof \<Rightarrow> merkle_tree \<Rightarrow> (bool \<times> merkle_tree) result" where
  "verifyProof sha proof t =
     bindE (ensureRebuilt sha t) (\<lambda>t'.
       let proofKey = utf8_text (ep_key proof);
           currentHash = fold (apply_op sha) (ep_path proof) (leafHash sha proofKey (ep_value proof))
       in Inr (currentHash = root t', t'))"


subsection \<open>The persisted form\<close>

record tree_json =
  json_leaves :: "(string, string) jsmap"
  json_root :: string

definition toJSON :: "hash_fun \<Rightarrow> merkle_tree \<Rightarrow> (tree_json \<times> merkle_tree) result" where
  "toJSON sha t =
     (let ls = fold (\<lambda>(key, value). AList.update key (to_hex value)) (leaves t) [] in
      bindE (getRoot sha t) (\<lambda>(r, t'). Inr (\<lparr>json_leaves = ls, json_root = r\<rparr>, t')))"

definition fromJSON :: "tree_json \<Rightarrow> merkle_tree" where
  "fromJSON data = fold (\<lambda>(key, value). set_leaf key (Bytes (from_hex value))) (json_leaves data) new_tree"



section \<open>What the tree computes\<close>

subsection \<open>The cached levels are the levels\<close>

lemma node_or_empty_Nil [simp]: "node_or_empty [] i = EMPTY_HASH"
  by (simp add: node_or_empty_def)

lemma node_or_empty_update: "node_or_empty (AList.update i h m) = (node_or_empty m)(i := h)"
  by (auto simp: node_or_empty_def)

lemma fold_guarded_update:
  "map_of (fold (\<lambda>p m. if g p \<noteq> e then AList.update p (g p) m else m) ps acc) i =
     (if i \<in> set ps \<and> g i \<noteq> e then Some (g i) else map_of acc i)"
  by (induction ps arbitrary: acc) auto

lemma node_or_empty_parent_level: "node_or_empty (parent_level sha m) = up sha (node_or_empty m)"
proof
  fix i
  let ?g = "\<lambda>p. innerHash sha (node_or_empty m (push_bit 1 p)) (node_or_empty m (push_bit 1 p + 1))"
  have eq: "map_of (parent_level sha m) i =
      (if i \<in> drop_bit 1 ` fst ` set m \<and> ?g i \<noteq> EMPTY_HASH then Some (?g i) else None)"
    unfolding parent_level_def Let_def by (subst fold_guarded_update) (simp add: image_image)
  have absent: "node_or_empty m j = EMPTY_HASH" if "j \<notin> fst ` set m" for j
    using that by (simp add: node_or_empty_def map_of_eq_None_iff [THEN iffD2])
  have "?g i = EMPTY_HASH" if "i \<notin> drop_bit 1 ` fst ` set m"
  proof -
    have "push_bit 1 i \<notin> fst ` set m" and "push_bit 1 i + 1 \<notin> fst ` set m"
      using that by (force simp: drop_bit_eq_div push_bit_eq_mult image_iff)+
    then show ?thesis by (simp add: absent innerHash_empty)
  qed
  with eq show "node_or_empty (parent_level sha m) i = up sha (node_or_empty m) i"
    by (auto simp: node_or_empty_def [of "parent_level sha m"] up_def push_bit_eq_mult mult.commute)
qed

lemma levels_from_length [simp]: "length (levels_from sha n m) = Suc n"
  by (induction n arbitrary: m) simp_all

lemma levels_from_nth:
  "k \<le> n \<Longrightarrow> node_or_empty (levels_from sha n m ! k) = (up sha ^^ k) (node_or_empty m)"
proof (induction n arbitrary: m k)
  case (Suc n)
  then show ?case
    by (cases k) (simp_all add: node_or_empty_parent_level funpow_swap1)
qed simp

lemma sibling_loop_levels:
  "k \<le> n \<Longrightarrow> sibling_loop (take k (levels_from sha n m)) i = sibs sha k (node_or_empty m) i"
proof (induction k arbitrary: n m i)
  case (Suc k)
  then obtain n' where "n = Suc n'" by (cases n) auto
  with Suc show ?case by (simp add: node_or_empty_parent_level drop_bit_eq_div)
qed simp


subsection \<open>The leaf level\<close>

definition leaf_at :: "hash_fun \<Rightarrow> (string, buffer) jsmap \<Rightarrow> nat \<Rightarrow> buffer" where
  "leaf_at sha ls i =
     (case find (\<lambda>(k, v). keyIndex64 sha k = i) ls of
        Some (k, v) \<Rightarrow> leafHash sha k v
      | None \<Rightarrow> EMPTY_HASH)"

lemma leaf_level_ok:
  assumes "distinct (map fst ls)" and "inj_on (keyIndex64 sha) (fst ` set ls)"
    and "fst ` set itk \<inter> keyIndex64 sha ` fst ` set ls = {}"
    and "fst ` set nodes \<inter> keyIndex64 sha ` fst ` set ls = {}"
  shows "\<exists>m. leaf_level sha ls itk nodes = Inr m \<and>
    node_or_empty m = (\<lambda>i. if i \<in> keyIndex64 sha ` fst ` set ls then leaf_at sha ls i
                           else node_or_empty nodes i)"
  using assms
proof (induction ls arbitrary: itk nodes)
  case (Cons e ls)
  obtain k v where e: "e = (k, v)" by (cases e)
  let ?i = "keyIndex64 sha k"
  let ?nodes = "if leafHash sha k v \<noteq> EMPTY_HASH then AList.update ?i (leafHash sha k v) nodes else nodes"
  from Cons.prems e have fresh: "?i \<notin> keyIndex64 sha ` fst ` set ls"
    by (auto simp: inj_on_def)
  have itk: "map_of itk ?i = None" and nodes: "map_of nodes ?i = None"
    using Cons.prems(3,4) e by (auto simp: map_of_eq_None_iff)
  have step: "leaf_level sha (e # ls) itk nodes = leaf_level sha ls (AList.update ?i k itk) ?nodes"
    by (simp add: e itk Let_def)
  have itk': "fst ` set (AList.update ?i k itk) \<inter> keyIndex64 sha ` fst ` set ls = {}"
    using Cons.prems(3) e fresh by (auto simp: dom_update [symmetric] dom_map_of_conv_image_fst [symmetric])
  have nodes': "fst ` set ?nodes \<inter> keyIndex64 sha ` fst ` set ls = {}"
    using Cons.prems(4) e fresh by (auto simp: dom_map_of_conv_image_fst [symmetric])
  from Cons.prems(1,2) e have "distinct (map fst ls)" "inj_on (keyIndex64 sha) (fst ` set ls)"
    by (auto simp: inj_on_def)
  from Cons.IH [OF this itk' nodes'] obtain m where
    m: "leaf_level sha ls (AList.update ?i k itk) ?nodes = Inr m" and
    nm: "node_or_empty m = (\<lambda>i. if i \<in> keyIndex64 sha ` fst ` set ls then leaf_at sha ls i
                           else node_or_empty ?nodes i)"
    by blast
  have at: "leaf_at sha ((k, v) # ls) i = (if i = ?i then leafHash sha k v else leaf_at sha ls i)" for i
    by (simp add: leaf_at_def)
  have here: "node_or_empty ?nodes = (node_or_empty nodes)(?i := leafHash sha k v)"
    using nodes by (auto simp: node_or_empty_update) (auto simp: node_or_empty_def)
  have "node_or_empty m = (\<lambda>i. if i \<in> keyIndex64 sha ` fst ` set (e # ls)
      then leaf_at sha (e # ls) i else node_or_empty nodes i)" (is "_ = ?f")
  proof
    fix i
    show "node_or_empty m i = ?f i"
      using fresh by (simp only: nm here e at) (auto simp: at)
  qed
  with step m show ?case by simp
qed simp

lemma leaf_at_absent: "i \<notin> keyIndex64 sha ` fst ` set ls \<Longrightarrow> leaf_at sha ls i = EMPTY_HASH"
  by (auto simp: leaf_at_def find_None_iff split: option.splits dest!: find_Some_iff [THEN iffD1])
     (metis fst_conv image_eqI nth_mem)

lemma leaf_at_present:
  assumes "distinct (map fst ls)" and "inj_on (keyIndex64 sha) (insert k (fst ` set ls))"
  shows "leaf_at sha ls (keyIndex64 sha k) =
    leafHash sha k (case map_of ls k of Some v \<Rightarrow> v | None \<Rightarrow> [])"
  using assms
proof (induction ls)
  case Nil
  then show ?case by (simp add: leaf_at_def leafHash_def)
next
  case (Cons e ls)
  obtain k' v where e: "e = (k', v)" by (cases e)
  show ?case
  proof (cases "k' = k")
    case True
    then show ?thesis by (simp add: leaf_at_def e)
  next
    case False
    with Cons.prems e have "keyIndex64 sha k' \<noteq> keyIndex64 sha k"
      by (auto simp: inj_on_def)
    then have "leaf_at sha (e # ls) (keyIndex64 sha k) = leaf_at sha ls (keyIndex64 sha k)"
      by (simp add: leaf_at_def e)
    moreover have "inj_on (keyIndex64 sha) (insert k (fst ` set ls))"
      using Cons.prems(2) by (rule inj_on_subset) auto
    ultimately show ?thesis
      using Cons.IH Cons.prems(1) False e by simp
  qed
qed

lemma leaf_at_length: "hash32 sha \<Longrightarrow> length (leaf_at sha ls i) = 32"
  by (auto simp: leaf_at_def leafHash_length EMPTY_HASH_def split: option.splits)


subsection \<open>Representation invariant\<close>

text \<open>
  \<open>tree_ok sha K t\<close>: keys are unique and no stored value is empty; the keys of the tree
  together with the keys \<open>K\<close> have different 64-bit indices; and a cache that is marked clean
  is the one a rebuild would compute.
\<close>

definition tree_root :: "hash_fun \<Rightarrow> (string, buffer) jsmap \<Rightarrow> buffer" where
  "tree_root sha ls = (up sha ^^ MERKLE_DEPTH_BITS) (leaf_at sha ls) 0"

definition leaves_wf :: "(string, buffer) jsmap \<Rightarrow> bool" where
  "leaves_wf ls = (distinct (map fst ls) \<and> list_all (\<lambda>(k, v). v \<noteq> []) ls)"

definition cache_ok :: "hash_fun \<Rightarrow> merkle_tree \<Rightarrow> bool" where
  "cache_ok sha t =
     (\<not> dirty t \<longrightarrow> (case nodesByHeight t of
        None \<Rightarrow> True
      | Some nodes \<Rightarrow>
          (case leaf_level sha (leaves t) [] [] of
             Inl e \<Rightarrow> False
           | Inr level0 \<Rightarrow> nodes = levels_from sha MERKLE_DEPTH_BITS level0 \<and>
               root t = node_or_empty (nodes ! MERKLE_DEPTH_BITS) 0)))"

definition tree_ok :: "hash_fun \<Rightarrow> string set \<Rightarrow> merkle_tree \<Rightarrow> bool" where
  "tree_ok sha K t =
     (leaves_wf (leaves t) \<and> cache_ok sha t \<and> inj_on (keyIndex64 sha) (fst ` set (leaves t) \<union> K))"

lemma leaf_level_tree:
  assumes "tree_ok sha K t"
  shows "\<exists>m. leaf_level sha (leaves t) [] [] = Inr m \<and> node_or_empty m = leaf_at sha (leaves t)"
proof -
  have "distinct (map fst (leaves t))" and "inj_on (keyIndex64 sha) (fst ` set (leaves t))"
    using assms by (auto simp: tree_ok_def leaves_wf_def inj_on_Un)
  from leaf_level_ok [OF this, of "[]" "[]"] show ?thesis
    by (fastforce simp: leaf_at_absent)
qed

lemma ensureRebuilt_ok:
  assumes "tree_ok sha K t"
  obtains t' level0 where "ensureRebuilt sha t = Inr t'" "leaves t' = leaves t" "tree_ok sha K t'"
    "root t' = tree_root sha (leaves t)"
    "nodesByHeight t' = Some (levels_from sha MERKLE_DEPTH_BITS level0)"
    "node_or_empty level0 = leaf_at sha (leaves t)"
proof -
  from leaf_level_tree [OF assms] obtain m where
    m: "leaf_level sha (leaves t) [] [] = Inr m" "node_or_empty m = leaf_at sha (leaves t)" by blast
  let ?nodes = "levels_from sha MERKLE_DEPTH_BITS m"
  let ?r = "node_or_empty (?nodes ! MERKLE_DEPTH_BITS) 0"
  have r: "?r = tree_root sha (leaves t)"
    by (simp add: levels_from_nth tree_root_def m)
  show ?thesis
  proof (cases "\<not> dirty t \<and> nodesByHeight t \<noteq> None")
    case True
    with assms m have "nodesByHeight t = Some ?nodes" "root t = ?r"
      by (auto simp: tree_ok_def cache_ok_def split: option.splits)
    with True that [of t m] assms m r show ?thesis by (simp add: ensureRebuilt_def)
  next
    case False
    let ?t = "t\<lparr>nodesByHeight := Some ?nodes, root := ?r, dirty := False\<rparr>"
    have "ensureRebuilt sha t = Inr ?t"
      using False m by (auto simp: ensureRebuilt_def Let_def)
    moreover have "tree_ok sha K ?t"
      using assms m by (simp add: tree_ok_def cache_ok_def)
    ultimately show ?thesis using that [of ?t m] m r by simp
  qed
qed


subsection \<open>Operations under the invariant\<close>

definition tree_siblings :: "hash_fun \<Rightarrow> string \<Rightarrow> (string, buffer) jsmap \<Rightarrow> buffer list" where
  "tree_siblings sha key ls = sibs sha MERKLE_DEPTH_BITS (leaf_at sha ls) (keyIndex64 sha key)"

definition value_or_empty :: "merkle_tree \<Rightarrow> string \<Rightarrow> buffer" where
  "value_or_empty t key = (case get_leaf t key of Some v \<Rightarrow> v | None \<Rightarrow> [])"

lemma getRoot_ok:
  assumes "tree_ok sha K t"
  obtains t' where "getRoot sha t = Inr (to_hex (tree_root sha (leaves t)), t')"
    "leaves t' = leaves t" "tree_ok sha K t'"
proof -
  obtain t' where t': "ensureRebuilt sha t = Inr t'" "leaves t' = leaves t" "tree_ok sha K t'"
    "root t' = tree_root sha (leaves t)"
    by (rule ensureRebuilt_ok [OF assms])
  then have "getRoot sha t = Inr (to_hex (tree_root sha (leaves t)), t')"
    by (simp add: getRoot_def)
  with t' that show ?thesis by blast
qed

lemma getSiblings_ok:
  assumes "tree_ok sha K t"
  obtains t' where "getSiblings sha key t = Inr (tree_siblings sha key (leaves t), t')"
    "leaves t' = leaves t" "tree_ok sha K t'"
proof -
  obtain t' level0 where t': "ensureRebuilt sha t = Inr t'" "leaves t' = leaves t" "tree_ok sha K t'"
    "nodesByHeight t' = Some (levels_from sha MERKLE_DEPTH_BITS level0)"
    "node_or_empty level0 = leaf_at sha (leaves t)"
    by (rule ensureRebuilt_ok [OF assms])
  then have "getSiblings sha key t = Inr (tree_siblings sha key (leaves t), t')"
    by (simp add: getSiblings_def sibling_loop_levels tree_siblings_def)
  with t' that show ?thesis by blast
qed

lemma tree_root_climb:
  "tree_root sha ls =
     climb sha (keyIndex64 sha key) (leaf_at sha ls (keyIndex64 sha key)) (tree_siblings sha key ls)"
  by (simp add: tree_root_def tree_siblings_def climb_sibs keyIndex64_bound)

lemma tree_ok_inj: "tree_ok sha K t \<Longrightarrow> key \<in> K \<Longrightarrow> inj_on (keyIndex64 sha) (insert key (fst ` set (leaves t)))"
  unfolding tree_ok_def by (rule inj_on_subset [of _ "fst ` set (leaves t) \<union> K"]) auto

lemma leaf_at_value:
  assumes "tree_ok sha K t" and "key \<in> K"
  shows "leaf_at sha (leaves t) (keyIndex64 sha key) = leafHash sha key (value_or_empty t key)"
proof -
  have "distinct (map fst (leaves t))" using assms by (simp add: tree_ok_def leaves_wf_def)
  from leaf_at_present [OF this tree_ok_inj [OF assms]] show ?thesis
    by (simp add: value_or_empty_def get_leaf_def)
qed

fun arg_bytes :: "value_arg \<Rightarrow> buffer" where
  "arg_bytes (Bytes b) = b"
| "arg_bytes (HexText s) = from_hex s"

lemma leaves_set_leaf:
  "leaves (set_leaf key v t) =
     (if arg_bytes v = [] then AList.delete key (leaves t) else AList.update key (arg_bytes v) (leaves t))"
  by (cases v) (simp_all add: set_leaf_def Let_def)

lemma get_set_leaf: "get_leaf (set_leaf key v t) =
    (get_leaf t)(key := (if arg_bytes v = [] then None else Some (arg_bytes v)))"
  by (auto simp: get_leaf_def leaves_set_leaf)

lemma keys_set_leaf: "fst ` set (leaves (set_leaf key v t)) \<subseteq> insert key (fst ` set (leaves t))"
  by (auto simp: leaves_set_leaf dom_map_of_conv_image_fst [symmetric] split: if_splits)

lemma leaves_wf_update: "leaves_wf ls \<Longrightarrow> v \<noteq> [] \<Longrightarrow> leaves_wf (AList.update k v ls)"
proof -
  assume "leaves_wf ls" "v \<noteq> []"
  moreover have "set (AList.update k v ls) \<subseteq> insert (k, v) (set ls)"
    by (induction ls) auto
  ultimately show ?thesis by (auto simp: leaves_wf_def list_all_iff distinct_update)
qed

lemma leaves_wf_delete: "leaves_wf ls \<Longrightarrow> leaves_wf (AList.delete k ls)"
  unfolding leaves_wf_def
  by (intro conjI distinct_keys_delete) (auto simp: list_all_iff AList.delete_eq)

lemma leaves_wf_set_leaf: "leaves_wf (leaves t) \<Longrightarrow> leaves_wf (leaves (set_leaf key v t))"
  by (simp add: leaves_set_leaf leaves_wf_update leaves_wf_delete)

lemma tree_ok_set_leaf:
  assumes "tree_ok sha K t" and "key \<in> K"
  shows "tree_ok sha K (set_leaf key v t)"
proof -
  have "fst ` set (leaves (set_leaf key v t)) \<union> K \<subseteq> fst ` set (leaves t) \<union> K"
    using keys_set_leaf [of key v t] assms(2) by auto
  with assms(1) have "inj_on (keyIndex64 sha) (fst ` set (leaves (set_leaf key v t)) \<union> K)"
    unfolding tree_ok_def by (blast intro: inj_on_subset)
  moreover have "cache_ok sha (set_leaf key v t)" by (simp add: cache_ok_def set_leaf_def Let_def)
  ultimately show ?thesis
    using assms(1) by (simp add: tree_ok_def leaves_wf_set_leaf)
qed

lemma tree_ok_mono: "tree_ok sha K t \<Longrightarrow> L \<subseteq> K \<Longrightarrow> tree_ok sha L t"
  unfolding tree_ok_def by (blast intro: inj_on_subset)

lemma tree_ok_new: "inj_on (keyIndex64 sha) K \<Longrightarrow> tree_ok sha K new_tree"
  by (simp add: tree_ok_def new_tree_def leaves_wf_def cache_ok_def)

lemma leaves_clone: "leaves_wf (leaves t) \<Longrightarrow> leaves (clone t) = leaves t"
  by (simp add: clone_def leaves_wf_def js_map_of_distinct new_tree_def)

lemma tree_ok_clone: "tree_ok sha K t \<Longrightarrow> tree_ok sha K (clone t)"
  by (simp add: tree_ok_def leaves_clone) (simp add: cache_ok_def clone_def)

lemma find_index_update:
  "keyIndex64 sha key \<noteq> i \<Longrightarrow>
   find (\<lambda>(k, v). keyIndex64 sha k = i) (AList.update key v ls) = find (\<lambda>(k, v). keyIndex64 sha k = i) ls"
  by (induction ls) auto

lemma find_index_delete:
  "keyIndex64 sha key \<noteq> i \<Longrightarrow>
   find (\<lambda>(k, v). keyIndex64 sha k = i) (AList.delete key ls) = find (\<lambda>(k, v). keyIndex64 sha k = i) ls"
  by (induction ls) auto

lemma leaf_at_set_leaf:
  assumes "tree_ok sha K t" and "key \<in> K"
  shows "leaf_at sha (leaves (set_leaf key v t)) =
    (leaf_at sha (leaves t))(keyIndex64 sha key := leafHash sha key (arg_bytes v))"
proof
  fix i
  let ?t = "set_leaf key v t"
  have ok: "tree_ok sha K ?t" by (rule tree_ok_set_leaf [OF assms])
  show "leaf_at sha (leaves ?t) i = ((leaf_at sha (leaves t))(keyIndex64 sha key := leafHash sha key (arg_bytes v))) i"
  proof (cases "i = keyIndex64 sha key")
    case True
    then show ?thesis
      using leaf_at_value [OF ok assms(2)]
      by (auto simp: value_or_empty_def get_set_leaf leafHash_def)
  next
    case False
    then show ?thesis
      by (simp add: leaf_at_def leaves_set_leaf find_index_update find_index_delete)
  qed
qed


lemma tree_siblings_set_leaf:
  assumes "tree_ok sha K t" and "key \<in> K"
  shows "tree_siblings sha key (leaves (set_leaf key v t)) = tree_siblings sha key (leaves t)"
  by (simp add: tree_siblings_def leaf_at_set_leaf [OF assms] sibs_update)

lemma tree_root_value:
  assumes "tree_ok sha K t" and "key \<in> K"
  shows "tree_root sha (leaves t) =
    climb sha (keyIndex64 sha key) (leafHash sha key (value_or_empty t key)) (tree_siblings sha key (leaves t))"
  by (subst tree_root_climb [of _ _ key]) (simp add: leaf_at_value [OF assms])

lemma tree_root_set_leaf:
  assumes "tree_ok sha K t" and "key \<in> K"
  shows "tree_root sha (leaves (set_leaf key v t)) =
    climb sha (keyIndex64 sha key) (leafHash sha key (arg_bytes v)) (tree_siblings sha key (leaves t))"
  by (subst tree_root_climb [of _ _ key])
     (simp add: leaf_at_set_leaf [OF assms] tree_siblings_set_leaf [OF assms])

lemma tree_siblings_length [simp]: "length (tree_siblings sha key ls) = MERKLE_DEPTH_BITS"
  by (simp add: tree_siblings_def)

lemma tree_siblings_hash_length:
  "hash32 sha \<Longrightarrow> s \<in> set (tree_siblings sha key ls) \<Longrightarrow> length s = 32"
  unfolding tree_siblings_def by (rule sibs_hash_length) (auto simp: leaf_at_length)

lemma tree_root_length: "hash32 sha \<Longrightarrow> length (tree_root sha ls) = 32"
  by (simp add: tree_root_climb [of sha ls "[]"] climb_hash_length leaf_at_length)

lemma tree_root_empty: "tree_root sha [] = EMPTY_HASH"
proof -
  have "(up sha ^^ n) (leaf_at sha []) = (\<lambda>i. EMPTY_HASH)" for n
    by (induction n) (auto simp: leaf_at_def up_def innerHash_empty)
  then show ?thesis by (simp add: tree_root_def)
qed

lemma fold_proof_path:
  "(\<And>s. s \<in> set ss \<Longrightarrow> s \<noteq> []) \<Longrightarrow>
   fold (apply_op sha) (proof_path i ss) cur = climb sha i cur ss"
proof (induction ss arbitrary: i cur)
  case (Cons s ss)
  have "i AND 1 = 0 \<longleftrightarrow> even i" by (simp add: and_one_eq even_iff_mod_2_eq_zero)
  with Cons show ?case by (simp add: apply_op_def drop_bit_eq_div)
qed simp

text \<open>
  The contents of a tree as a set of key/value pairs; the order of insertion plays no role
  for the root.
\<close>

lemma leaf_at_map_of:
  assumes "distinct (map fst ls)" "distinct (map fst ms)" "map_of ls = map_of ms"
    and "inj_on (keyIndex64 sha) (fst ` set ls)"
  shows "leaf_at sha ls = leaf_at sha ms"
proof
  fix i
  have keys: "fst ` set ls = fst ` set ms"
    using assms(3) by (metis dom_map_of_conv_image_fst)
  show "leaf_at sha ls i = leaf_at sha ms i"
  proof (cases "i \<in> keyIndex64 sha ` fst ` set ls")
    case True
    then obtain k where "k \<in> fst ` set ls" "i = keyIndex64 sha k" by blast
    moreover from this have "insert k (fst ` set ls) = fst ` set ls" "insert k (fst ` set ms) = fst ` set ls"
      using keys by auto
    ultimately show ?thesis
      using leaf_at_present [OF assms(1), of sha k] leaf_at_present [OF assms(2), of sha k] assms(3,4) by metis
  next
    case False
    with keys show ?thesis by (simp add: leaf_at_absent)
  qed
qed

lemma tree_root_map_of:
  assumes "leaves_wf ls" "leaves_wf ms" "map_of ls = map_of ms"
    and "inj_on (keyIndex64 sha) (fst ` set ls)"
  shows "tree_root sha ls = tree_root sha ms"
  using leaf_at_map_of [of ls ms sha] assms by (simp add: tree_root_def leaves_wf_def)


section \<open>The class implements the interface\<close>

definition store_leaf :: "string \<Rightarrow> buffer \<Rightarrow> (string, buffer) jsmap \<Rightarrow> (string, buffer) jsmap" where
  "store_leaf k v ls = (if v = [] then AList.delete k ls else AList.update k v ls)"

definition put_bytes :: "string \<Rightarrow> buffer \<Rightarrow> merkle_tree \<Rightarrow> merkle_tree" where
  "put_bytes k v = set_leaf k (Bytes v)"

interpretation gw: commitment_tree leaves map_of store_leaf tree_root tree_siblings put_bytes
  getRoot getSiblings tree_ok
proof unfold_locales
  fix sha K t k
  show "tree_ok sha K t \<Longrightarrow> \<exists>t'. getRoot sha t = Inr (to_hex (tree_root sha (leaves t)), t') \<and>
      leaves t' = leaves t \<and> tree_ok sha K t'"
    by (erule getRoot_ok) blast
  show "tree_ok sha K t \<Longrightarrow> \<exists>t'. getSiblings sha k t = Inr (tree_siblings sha k (leaves t), t') \<and>
      leaves t' = leaves t \<and> tree_ok sha K t'"
    by (erule getSiblings_ok [where key = k]) blast
next
  fix sha K and t :: merkle_tree and k v
  assume "tree_ok sha K t" "k \<in> K"
  then show "tree_siblings sha k (store_leaf k v (leaves t)) = tree_siblings sha k (leaves t)"
    using tree_siblings_set_leaf [of sha K t k "Bytes v"]
    by (cases "v = []") (simp_all add: leaves_set_leaf store_leaf_def)
qed (auto simp: put_bytes_def leaves_set_leaf store_leaf_def tree_ok_set_leaf tree_root_value
      value_or_empty_def get_leaf_def tree_siblings_hash_length intro: tree_ok_mono)


section \<open>Properties\<close>

subsection \<open>Auxiliary facts\<close>

lemma tree_siblings_Nil: "tree_siblings sha key [] = replicate MERKLE_DEPTH_BITS EMPTY_HASH"
proof -
  have "sibs sha n (\<lambda>_. EMPTY_HASH) i = replicate n EMPTY_HASH" for n i
  proof (induction n arbitrary: i)
    case (Suc n)
    have "up sha (\<lambda>_. EMPTY_HASH) = (\<lambda>_. EMPTY_HASH)" by (simp add: up_def innerHash_empty fun_eq_iff)
    with Suc show ?case by simp
  qed simp
  moreover have "leaf_at sha [] = (\<lambda>_. EMPTY_HASH)" by (simp add: leaf_at_absent fun_eq_iff)
  ultimately show ?thesis by (simp add: tree_siblings_def)
qed

lemma tree_siblings_singleton:
  "v \<noteq> [] \<Longrightarrow> tree_siblings sha k [(k, v)] = replicate MERKLE_DEPTH_BITS EMPTY_HASH"
  using gw.witness_store [of sha "{k}" new_tree k v] tree_ok_new [of sha "{k}"]
  by (simp add: new_tree_def store_leaf_def tree_siblings_Nil)

lemma leaf_level_Inr_inj:
  assumes "leaf_level sha ls idx nodes = Inr m" "distinct (map fst ls)" "[] \<notin> fst ` set ls"
    and "\<And>i k. map_of idx i = Some k \<Longrightarrow> k \<noteq> [] \<and> k \<notin> fst ` set ls"
  shows "inj_on (keyIndex64 sha) (fst ` set ls) \<and> keyIndex64 sha ` fst ` set ls \<inter> dom (map_of idx) = {}"
  using assms
proof (induction ls arbitrary: idx nodes)
  case (Cons kv ls)
  obtain k v where kv: "kv = (k, v)" by (cases kv)
  let ?i = "keyIndex64 sha k"
  have free: "map_of idx ?i = None"
    using Cons.prems(1,4) kv by (fastforce simp: Let_def split: option.splits if_splits)
  then obtain nodes' where rest: "leaf_level sha ls (AList.update ?i k idx) nodes' = Inr m"
    using Cons.prems(1) kv by (auto simp: Let_def)
  have "inj_on (keyIndex64 sha) (fst ` set ls) \<and>
      keyIndex64 sha ` fst ` set ls \<inter> dom (map_of (AList.update ?i k idx)) = {}"
    using Cons.prems(2-4) kv
    by (intro Cons.IH [OF rest]) (auto simp: map_of_alist_update split: if_splits)
  with free Cons.prems(2) kv show ?case
    by (auto simp: map_of_alist_update)
qed simp

text \<open>
  C5. The rebuild of a dirty tree fails exactly when two stored keys share their 64-bit index:
  no collision goes unnoticed, and nothing else makes the tree throw. (Keys are non-empty, as all
  IBC paths are.)
\<close>

theorem ensureRebuilt_throws_iff_collision:
  assumes "dirty t" and "leaves_wf (leaves t)" and "[] \<notin> fst ` set (leaves t)"
  shows "(\<exists>e. ensureRebuilt sha t = Inl e) \<longleftrightarrow> \<not> inj_on (keyIndex64 sha) (fst ` set (leaves t))"
proof
  assume inl: "\<exists>e. ensureRebuilt sha t = Inl e"
  show "\<not> inj_on (keyIndex64 sha) (fst ` set (leaves t))"
  proof
    assume "inj_on (keyIndex64 sha) (fst ` set (leaves t))"
    then have "tree_ok sha {} t" using assms by (simp add: tree_ok_def cache_ok_def)
    with inl show False by (metis ensureRebuilt_ok sum.distinct(1))
  qed
next
  assume "\<not> inj_on (keyIndex64 sha) (fst ` set (leaves t))"
  then have "leaf_level sha (leaves t) [] [] \<noteq> Inr m" for m
    using leaf_level_Inr_inj [of sha "leaves t" "[]" "[]" m] assms by (auto simp: leaves_wf_def)
  then obtain e where "leaf_level sha (leaves t) [] [] = Inl e" by (metis sum.exhaust)
  then show "\<exists>e. ensureRebuilt sha t = Inl e" using assms(1) by (simp add: ensureRebuilt_def)
qed

theorem ensureRebuilt_throws_iff_collision_witness:
  "(\<exists>e. ensureRebuilt sum_hash (set_leaf ''ba'' (Bytes [2]) (set_leaf ''ab'' (Bytes [1]) new_tree)) = Inl e)"
proof -
  let ?t = "set_leaf ''ba'' (Bytes [2]) (set_leaf ''ab'' (Bytes [1]) new_tree)"
  have ls: "leaves ?t = [(''ab'', [1]), (''ba'', [2])]" "dirty ?t"
    by (simp_all add: set_leaf_def new_tree_def)
  have "sum_hash (utf8 ''ab'') = sum_hash (utf8 ''ba'')" by code_simp
  then have "keyIndex64 sum_hash ''ab'' = keyIndex64 sum_hash ''ba''"
    by (simp add: keyIndex64_eq_iff [OF sum_hash_hash32])
  then have "\<not> inj_on (keyIndex64 sum_hash) (fst ` set (leaves ?t))"
    by (simp add: ls inj_on_def)
  then show ?thesis
    using ensureRebuilt_throws_iff_collision [of ?t sum_hash] ls by (simp add: leaves_wf_def)
qed


lemma proof_path_length [simp]: "length (proof_path i ss) = length ss"
  by (induction ss arbitrary: i) auto

lemma path_climb:
  assumes "hash32 sha"
  shows "fold (apply_op sha) (proof_path (keyIndex64 sha key) (tree_siblings sha key ls)) h =
    climb sha (keyIndex64 sha key) h (tree_siblings sha key ls)"
  by (rule fold_proof_path) (use tree_siblings_hash_length [OF assms] in fastforce)

lemma proof_for_value:
  assumes "hash32 sha" "tree_ok sha K t" "key \<in> K" "well_formed key"
  shows "\<exists>t' t''. getSiblings sha key t = Inr (tree_siblings sha key (leaves t), t') \<and> leaves t' = leaves t \<and>
    verifyProof sha \<lparr>ep_key = utf8 key, ep_value = value_or_empty t key, ep_leaf = lop,
      ep_path = proof_path (keyIndex64 sha key) (tree_siblings sha key (leaves t))\<rparr> t' = Inr (True, t'')"
proof -
  obtain t' where t': "getSiblings sha key t = Inr (tree_siblings sha key (leaves t), t')"
    "leaves t' = leaves t" "tree_ok sha K t'" by (rule getSiblings_ok [OF assms(2)])
  obtain t'' where "ensureRebuilt sha t' = Inr t''" "root t'' = tree_root sha (leaves t)"
    by (rule ensureRebuilt_ok [OF t'(3)]) (simp add: t'(2))
  moreover have "utf8_text (utf8 key) = key" using assms(4) by (simp add: well_formed_def)
  ultimately show ?thesis
    using t' tree_root_value [OF assms(2,3)]
    by (simp add: verifyProof_def Let_def path_climb [OF assms(1)])
qed

text \<open>A small tree for applying the theorems to.\<close>

definition example_tree :: merkle_tree where
  "example_tree = set_leaf ''connections/connection-0'' (Bytes [2]) (set_leaf ''ports/transfer'' (Bytes [1]) new_tree)"

lemma example_leaves: "leaves example_tree = [(''ports/transfer'', [1]), (''connections/connection-0'', [2])]"
  by (simp add: example_tree_def set_leaf_def new_tree_def)

lemma example_inj:
  "inj_on (keyIndex64 tail_hash) (set [''ports/transfer'', ''connections/connection-0'', ''clients/07-tendermint-3/clientState''])"
  by (rule inj_on_keyIndex64_list [OF tail_hash_hash32]) code_simp

lemma example_tree_ok:
  "tree_ok tail_hash {''ports/transfer'', ''connections/connection-0'', ''clients/07-tendermint-3/clientState''} example_tree"
  unfolding example_tree_def using example_inj by (intro tree_ok_set_leaf tree_ok_new) simp_all

lemma example_well_formed:
  "well_formed ''ports/transfer''" "well_formed ''clients/07-tendermint-3/clientState''"
  by (rule ascii_well_formed; code_simp)+

text \<open>
  C3. Completeness of membership proofs: for every stored key, \<open>generateProof\<close> succeeds,
  returns a proof for exactly that key and the stored value, and \<open>verifyProof\<close> accepts it
  against the tree's root.
\<close>

theorem generated_proof_verifies:
  assumes "hash32 sha" and "tree_ok sha {} t" and "get_leaf t key = Some v" and "well_formed key"
  shows "\<exists>p t' t''. generateProof sha key t = Inr (p, t') \<and> ep_key p = utf8 key \<and> ep_value p = v \<and>
    length (ep_path p) = MERKLE_DEPTH_BITS \<and> leaves t' = leaves t \<and> verifyProof sha p t' = Inr (True, t'')"
proof -
  have mem: "key \<in> fst ` set (leaves t)" and ne: "leaves t \<noteq> []"
    using assms(3) map_of_eq_None_iff [of "leaves t" key] by (auto simp: get_leaf_def)
  then have "tree_ok sha {key} t" using assms(2) by (simp add: tree_ok_def insert_absorb)
  from proof_for_value [OF assms(1) this _ assms(4), of default_leaf_op] ne assms(3)
  have "\<exists>t' t''. generateProof sha key t = Inr (\<lparr>ep_key = utf8 key, ep_value = v, ep_leaf = default_leaf_op,
      ep_path = proof_path (keyIndex64 sha key) (tree_siblings sha key (leaves t))\<rparr>, t') \<and>
      leaves t' = leaves t \<and> verifyProof sha \<lparr>ep_key = utf8 key, ep_value = v, ep_leaf = default_leaf_op,
      ep_path = proof_path (keyIndex64 sha key) (tree_siblings sha key (leaves t))\<rparr> t' = Inr (True, t'')"
    by (auto simp: generateProof_def tree_size_def value_or_empty_def)
  then show ?thesis by fastforce
qed

theorem generated_proof_verifies_witness:
  "\<exists>p t' t''. generateProof tail_hash ''ports/transfer'' example_tree = Inr (p, t') \<and>
    ep_key p = utf8 ''ports/transfer'' \<and> ep_value p = [1] \<and> verifyProof tail_hash p t' = Inr (True, t'')"
proof -
  have "tree_ok tail_hash {} example_tree" by (rule tree_ok_mono [OF example_tree_ok]) simp
  moreover have "get_leaf example_tree ''ports/transfer'' = Some [1]"
    by (simp add: get_leaf_def example_leaves)
  ultimately show ?thesis
    using generated_proof_verifies [OF tail_hash_hash32 _ _ example_well_formed(1)] by blast
qed

text \<open>
  C4. Completeness of absence proofs: for every key that is not in a non-empty tree and does not
  collide with a stored key, \<open>generateNonExistenceProof\<close> returns a left proof for the empty
  value of that key, no right proof, and \<open>verifyProof\<close> accepts the left proof.
\<close>

theorem generated_absence_proof_verifies:
  assumes "hash32 sha" and "tree_ok sha {key} t" and "get_leaf t key = None" and "leaves t \<noteq> []"
    and "well_formed key"
  shows "\<exists>p l t' t''. generateNonExistenceProof sha key t = Inr (p, t') \<and> nep_key p = utf8 key \<and>
    nep_left p = Some l \<and> nep_right p = None \<and> ep_key l = utf8 key \<and> ep_value l = [] \<and>
    leaves t' = leaves t \<and> verifyProof sha l t' = Inr (True, t'')"
proof -
  have "\<not> js_has (leaves t) key" using assms(3) by (simp add: get_leaf_def js_has_iff)
  with proof_for_value [OF assms(1,2) _ assms(5), of default_leaf_op] assms(3,4) show ?thesis
    by (auto simp: generateNonExistenceProof_def tree_size_def value_or_empty_def)
qed

theorem generated_absence_proof_verifies_witness:
  "\<exists>p l t' t''. generateNonExistenceProof tail_hash ''clients/07-tendermint-3/clientState'' example_tree = Inr (p, t') \<and>
    nep_left p = Some l \<and> ep_value l = [] \<and> verifyProof tail_hash l t' = Inr (True, t'')"
proof -
  let ?k = "''clients/07-tendermint-3/clientState''"
  have "tree_ok tail_hash {?k} example_tree" by (rule tree_ok_mono [OF example_tree_ok]) simp
  moreover have "get_leaf example_tree ?k = None" "leaves example_tree \<noteq> []"
    by (simp_all add: get_leaf_def example_leaves)
  ultimately show ?thesis
    using generated_absence_proof_verifies [OF tail_hash_hash32 _ _ _ example_well_formed(2)] by blast
qed

text \<open>
  Sequences of operations on one tree object: the two mutators, and the two readers, which refresh
  the cache. A reader that throws leaves the tree as it is.
\<close>

datatype tree_op = SetOp string value_arg | DeleteOp string | RootOp | SiblingsOp string

fun run_op :: "hash_fun \<Rightarrow> tree_op \<Rightarrow> merkle_tree \<Rightarrow> merkle_tree" where
  "run_op sha (SetOp key value) t = set_leaf key value t"
| "run_op sha (DeleteOp key) t = delete_leaf key t"
| "run_op sha RootOp t = (case getRoot sha t of Inl _ \<Rightarrow> t | Inr (_, t') \<Rightarrow> t')"
| "run_op sha (SiblingsOp key) t = (case getSiblings sha key t of Inl _ \<Rightarrow> t | Inr (_, t') \<Rightarrow> t')"

definition run_ops :: "hash_fun \<Rightarrow> tree_op list \<Rightarrow> merkle_tree" where
  "run_ops sha ops = fold (run_op sha) ops new_tree"

fun op_keys :: "tree_op \<Rightarrow> string set" where
  "op_keys (SetOp key value) = {key}"
| "op_keys _ = {}"

lemma tree_ok_delete_leaf:
  assumes "tree_ok sha K t"
  shows "tree_ok sha K (delete_leaf key t)"
proof -
  have sub: "set (AList.delete key (leaves t)) \<subseteq> set (leaves t)" by (auto simp: AList.delete_eq)
  have "leaves_wf (AList.delete key (leaves t))"
    using assms sub by (auto simp: tree_ok_def leaves_wf_def distinct_delete list_all_iff)
  moreover have "inj_on (keyIndex64 sha) (fst ` set (AList.delete key (leaves t)) \<union> K)"
    using assms sub unfolding tree_ok_def by (blast intro: inj_on_subset)
  ultimately show ?thesis by (simp add: tree_ok_def cache_ok_def delete_leaf_def)
qed

lemma tree_ok_run_op:
  assumes "tree_ok sha K t" and "op_keys op \<subseteq> K"
  shows "tree_ok sha K (run_op sha op t)"
proof (cases op)
  case RootOp
  obtain r t' where "getRoot sha t = Inr (r, t')" "tree_ok sha K t'" using gw.root_of_ok [OF assms(1)] by blast
  with RootOp show ?thesis by simp
next
  case (SiblingsOp key)
  obtain ss t' where "getSiblings sha key t = Inr (ss, t')" "tree_ok sha K t'"
    using getSiblings_ok [OF assms(1), of key] by metis
  with SiblingsOp show ?thesis by simp
qed (use assms in \<open>simp_all add: tree_ok_set_leaf tree_ok_delete_leaf\<close>)

lemma tree_ok_run_ops:
  assumes "inj_on (keyIndex64 sha) K" and "\<Union> (op_keys ` set ops) \<subseteq> K"
  shows "tree_ok sha K (run_ops sha ops)"
  using assms(2)
proof (induction ops rule: rev_induct)
  case Nil
  then show ?case by (simp add: run_ops_def tree_ok_new [OF assms(1)])
next
  case (snoc op ops)
  then show ?case using tree_ok_run_op [of sha K "run_ops sha ops" op] by (simp add: run_ops_def)
qed

text \<open>
  C6. The root is a function of the contents: two trees that arose from the empty tree by any
  sequences of \<open>set\<close>, \<open>delete\<close>, \<open>getRoot\<close> and \<open>getSiblings\<close> and that answer every lookup alike have the
  same root, as long as no two keys that were set share their index.
\<close>

theorem root_depends_on_contents_only:
  assumes "inj_on (keyIndex64 sha) (\<Union> (op_keys ` set (ops @ ops')))"
    and "get_leaf (run_ops sha ops) = get_leaf (run_ops sha ops')"
  shows "\<exists>r t' u'. getRoot sha (run_ops sha ops) = Inr (r, t') \<and> getRoot sha (run_ops sha ops') = Inr (r, u')"
proof -
  have ok: "tree_ok sha {} (run_ops sha ops)" "tree_ok sha {} (run_ops sha ops')"
    by (rule tree_ok_mono [OF tree_ok_run_ops [OF assms(1)]]; auto)+
  then have "tree_root sha (leaves (run_ops sha ops)) = tree_root sha (leaves (run_ops sha ops'))"
    using assms(2) by (intro tree_root_map_of) (auto simp: tree_ok_def get_leaf_def fun_eq_iff)
  then show ?thesis using gw.root_of_ok [OF ok(1)] gw.root_of_ok [OF ok(2)] by auto
qed

lemma leaves_after_root:
  assumes "tree_ok sha K t"
  shows "leaves (run_op sha RootOp t) = leaves t"
  using gw.root_of_ok [OF assms] by auto

theorem root_depends_on_contents_only_witness:
  "\<exists>r t' u'. getRoot tail_hash (run_ops tail_hash [SetOp ''ports/transfer'' (HexText ''01''), RootOp,
       DeleteOp ''ports/transfer'']) = Inr (r, t') \<and> getRoot tail_hash (run_ops tail_hash []) = Inr (r, u')"
proof (rule root_depends_on_contents_only)
  let ?t = "set_leaf ''ports/transfer'' (HexText ''01'') new_tree"
  have "tree_ok tail_hash {''ports/transfer''} ?t" by (rule tree_ok_set_leaf [OF tree_ok_new]) simp_all
  from leaves_after_root [OF this]
  show "get_leaf (run_ops tail_hash [SetOp ''ports/transfer'' (HexText ''01''), RootOp, DeleteOp ''ports/transfer'']) =
      get_leaf (run_ops tail_hash [])"
    by (simp add: run_ops_def get_leaf_def fun_eq_iff delete_leaf_def set_leaf_def new_tree_def hex_val_def)
qed simp

lemma fold_update_distinct:
  "distinct (map fst ls) \<Longrightarrow>
   fold (\<lambda>(key, value). AList.update key (f value)) ls [] = map (\<lambda>(k, v). (k, f v)) ls"
proof (induction ls rule: rev_induct)
  case (snoc kv ls)
  obtain k v where kv: "kv = (k, v)" by (cases kv)
  with snoc.prems have "k \<notin> fst ` set (map (\<lambda>(k, v). (k, f v)) ls)" by force
  with snoc kv show ?case by (simp add: alist_update_new)
qed simp

lemma fold_set_leaf:
  "leaves_wf ls \<Longrightarrow>
   (let t = fold (\<lambda>(key, value). set_leaf key (Bytes (from_hex value))) (map (\<lambda>(k, v). (k, to_hex v)) ls) new_tree
    in leaves t = ls \<and> dirty t)"
proof (induction ls rule: rev_induct)
  case Nil
  then show ?case by (simp add: new_tree_def)
next
  case (snoc kv ls)
  obtain k v where kv: "kv = (k, v)" by (cases kv)
  with snoc.prems have "k \<notin> fst ` set ls" "v \<noteq> []" "leaves_wf ls" by (auto simp: leaves_wf_def)
  with snoc.IH kv show ?case by (simp add: Let_def set_leaf_def alist_update_new)
qed

text \<open>
  Persistence round trip: the tree read back from \<open>toJSON\<close> holds the same leaves in the same
  order, and its root is the root that was written next to them.
\<close>

theorem json_round_trip:
  assumes "tree_ok sha {} t"
  shows "\<exists>j t' u. toJSON sha t = Inr (j, t') \<and> leaves (fromJSON j) = leaves t \<and>
    getRoot sha (fromJSON j) = Inr (json_root j, u)"
proof -
  have wf: "leaves_wf (leaves t)" using assms by (simp add: tree_ok_def)
  obtain t' where t': "getRoot sha t = Inr (to_hex (tree_root sha (leaves t)), t')"
    using gw.root_of_ok [OF assms] by blast
  define j where "j = \<lparr>json_leaves = map (\<lambda>(k, v). (k, to_hex v)) (leaves t),
    json_root = to_hex (tree_root sha (leaves t))\<rparr>"
  have j: "toJSON sha t = Inr (j, t')"
    using t' fold_update_distinct [OF wf [unfolded leaves_wf_def, THEN conjunct1], of to_hex]
    by (simp add: toJSON_def j_def)
  have ls: "leaves (fromJSON j) = leaves t" and ok: "tree_ok sha {} (fromJSON j)"
    using fold_set_leaf [OF wf] assms
    by (simp_all add: fromJSON_def j_def tree_ok_def [of _ _ "fold f xs new_tree" for f xs] cache_ok_def Let_def)
      (simp_all add: tree_ok_def)
  with gw.root_of_ok [OF ok] have "\<exists>u. getRoot sha (fromJSON j) = Inr (json_root j, u)"
    by (auto simp: j_def)
  with j ls show ?thesis by blast
qed

theorem json_round_trip_witness:
  "\<exists>j t' u. toJSON tail_hash example_tree = Inr (j, t') \<and> leaves (fromJSON j) = leaves example_tree \<and>
    getRoot tail_hash (fromJSON j) = Inr (json_root j, u)"
  by (rule json_round_trip, rule tree_ok_mono [OF example_tree_ok]) simp


text \<open>
  C1. Refinement of the validator: take the siblings of a key, then set the key to a new value.
  The validator's \<open>apply_update\<close>, started from the old root with the old value and those
  siblings, accepts, and the root it computes is the root \<open>getRoot\<close> reports for the updated tree.
\<close>

theorem validator_accepts_update:
  assumes "sha256_spec sha" and "tree_ok sha {key} t"
    and "commits_value sha (value_or_empty t key)" and "commits_value sha v"
  shows "\<exists>ss r0 t0 t' r u. getRoot sha t = Inr (r0, t0) \<and> getSiblings sha key t = Inr (ss, t') \<and>
    getRoot sha (set_leaf key (Bytes v) t') = Inr (r, u) \<and>
    apply_update sha (from_hex r0) (utf8 key) (value_or_empty t key) v ss = Inr (from_hex r)"
proof -
  obtain t0 where "getRoot sha t = Inr (to_hex (tree_root sha (leaves t)), t0)"
    using gw.root_of_ok [OF assms(2)] by blast
  moreover obtain t' where t': "getSiblings sha key t = Inr (tree_siblings sha key (leaves t), t')"
    "leaves t' = leaves t" "tree_ok sha {key} t'" using gw.siblings_of_ok [OF assms(2)] by blast
  moreover have "tree_ok sha {key} (put_bytes key v t')" using gw.ok_put [OF t'(3)] by simp
  from gw.root_of_ok [OF this] obtain u where
    "getRoot sha (set_leaf key (Bytes v) t') = Inr (to_hex (tree_root sha (store_leaf key v (leaves t))), u)"
    by (auto simp: gw.put_view put_bytes_def [symmetric] t')
  moreover have "apply_update sha (tree_root sha (leaves t)) (utf8 key) (value_or_empty t key) v
      (tree_siblings sha key (leaves t)) = Inr (tree_root sha (store_leaf key v (leaves t)))"
    by (rule gw.replay [OF assms(1,2) _ _ assms(3,4)]) (simp_all add: value_or_empty_def get_leaf_def)
  ultimately show ?thesis by (fastforce simp: from_hex_to_hex)
qed

theorem validator_accepts_update_witness:
  "\<exists>ss r0 t0 t' r u. getRoot tail_hash example_tree = Inr (r0, t0) \<and>
    getSiblings tail_hash ''ports/transfer'' example_tree = Inr (ss, t') \<and>
    getRoot tail_hash (set_leaf ''ports/transfer'' (Bytes [7]) t') = Inr (r, u) \<and>
    apply_update tail_hash (from_hex r0) (utf8 ''ports/transfer'') [1] [7] ss = Inr (from_hex r)"
proof -
  have old: "value_or_empty example_tree ''ports/transfer'' = [1]"
    by (simp add: value_or_empty_def get_leaf_def example_leaves)
  have ok: "tree_ok tail_hash {''ports/transfer''} example_tree"
    by (rule tree_ok_mono [OF example_tree_ok]) simp
  have c: "commits_value tail_hash [1]" "commits_value tail_hash [7]" by code_simp+
  show ?thesis
    using validator_accepts_update [OF tail_hash_spec ok] c old by simp
qed

text \<open>
  C2. No forged witness: if the validator accepts an update of a key from the root of a tree,
  then the old value it was given is the value the tree stores for that key and the siblings are
  the tree's siblings, provided SHA-256 does not collide on the byte strings hashed for the two
  openings.
\<close>

theorem accepted_update_is_genuine:
  assumes "sha256_spec sha" and "tree_ok sha {key} t"
    and "apply_update sha (tree_root sha (leaves t)) (utf8 key) old v ss = Inr r"
    and "commits_value sha old"
    and "collision_free sha (witness_inputs sha key old ss @
      witness_inputs sha key (value_or_empty t key) (tree_siblings sha key (leaves t)))"
  shows "old = value_or_empty t key \<and> ss = tree_siblings sha key (leaves t)"
  using gw.no_forgery [OF assms(1,2) _ assms(3,4)] assms(5) by (simp add: value_or_empty_def get_leaf_def)

lemma opening_of_a:
  "map sum_hash (witness_inputs sum_hash ''a'' [5] (replicate 64 EMPTY_HASH)) =
   (5 # replicate 31 0) # (102 # replicate 31 0) # map (\<lambda>j. of_nat (102 + j) # replicate 31 0) [1..<Suc 64]"
proof -
  have leaf: "leaf_inputs sum_hash ''a'' [5] = [[5], 0x00 # sum_hash [97] @ sum_hash [5]]" by code_simp
  have h: "leafHash sum_hash ''a'' [5] = 102 # replicate 31 0"
    "sum_hash (0x00 # sum_hash [97] @ sum_hash [5]) = 102 # replicate 31 0"
    "sum_hash [5] = 5 # replicate 31 0" by code_simp+
  have "map sum_hash (climb_inputs sum_hash i (102 # replicate 31 0) (replicate 64 EMPTY_HASH)) =
      map (\<lambda>j. of_nat (102 + j) # replicate 31 0) [1..<Suc 64]" for i
    using sum_hash_climb [of 102 64 i] by simp
  then show ?thesis
    unfolding witness_inputs_def leaf h(1) map_append list.map h(2) unfolding h(3) by simp
qed

lemma collision_free_opening_of_a:
  "collision_free sum_hash (witness_inputs sum_hash ''a'' [5] (replicate 64 EMPTY_HASH))"
proof -
  have "unat (of_nat (102 + j) :: byte) = 102 + j" if "j < 65" for j
    using that by (simp only: unat_of_nat) simp
  then have "map (\<lambda>j. unat (of_nat (102 + j) :: byte)) [1..<Suc 64] = map (\<lambda>j. 102 + j) [1..<Suc 64]"
    by (intro map_cong) auto
  with arg_cong [OF opening_of_a, of "map (\<lambda>h. unat (hd h))"]
  have "map (\<lambda>x. unat (hd (sum_hash x))) (witness_inputs sum_hash ''a'' [5] (replicate 64 EMPTY_HASH)) =
      5 # 102 # map (\<lambda>j. 102 + j) [1..<Suc 64]"
    by (simp only: map_map list.map list.sel comp_def unat_numeral) simp
  then show ?thesis
    by (intro collision_free_listI) (simp_all only:, auto simp: distinct_map inj_on_def)
qed

theorem accepted_update_is_genuine_witness:
  "apply_update sum_hash (tree_root sum_hash [(''a'', [5])]) (utf8 ''a'') [5] [9]
     (replicate 64 EMPTY_HASH) = Inr (tree_root sum_hash [(''a'', [9])]) \<and>
   [5] = value_or_empty (new_tree\<lparr>leaves := [(''a'', [5])]\<rparr>) ''a''"
proof -
  let ?t = "new_tree\<lparr>leaves := [(''a'', [5])]\<rparr>"
  have ok: "tree_ok sum_hash {''a''} ?t"
    by (simp add: tree_ok_def leaves_wf_def cache_ok_def new_tree_def)
  have old: "value_or_empty ?t ''a'' = [5]" by (simp add: value_or_empty_def get_leaf_def)
  have ss: "tree_siblings sum_hash ''a'' (leaves ?t) = replicate 64 EMPTY_HASH"
    by (simp add: tree_siblings_singleton MERKLE_DEPTH_BITS_def)
  have c: "commits_value sum_hash [5]" "commits_value sum_hash [9]" by code_simp+
  have upd: "apply_update sum_hash (tree_root sum_hash (leaves ?t)) (utf8 ''a'') [5] [9]
     (replicate 64 EMPTY_HASH) = Inr (tree_root sum_hash [(''a'', [9])])"
    using gw.replay [OF sum_hash_spec ok, of "''a''" "[5]" "[9]"] c ss by (simp add: store_leaf_def)
  note cf = collision_free_opening_of_a
  from cf have "collision_free sum_hash (witness_inputs sum_hash ''a'' [5] (replicate 64 EMPTY_HASH) @
      witness_inputs sum_hash ''a'' (value_or_empty ?t ''a'') (tree_siblings sum_hash ''a'' (leaves ?t)))"
    unfolding old ss by (rule collision_free_mono) simp
  from accepted_update_is_genuine [OF sum_hash_spec ok upd c(1) this] upd show ?thesis by simp
qed

end
