(* ===== verification/Runtime_Tree.thy ===== *)
theory Runtime_Tree
  imports Merkle_Tree
begin

unbundle bit_operations_syntax

section \<open>The transaction builder's commitment tree\<close>

text \<open>
  \<open>packages/cardano-ibc-tx-builder-runtime/src/ics23MerkleTree.ts\<close>: a second implementation of
  the commitment tree, used when a transaction is built outside the gateway. It has the fields of
  the gateway's class but rebuilds differently: a leaf is stored even if its hash is zero, the
  rebuild looks at the \<open>dirty\<close> flag only, and the collision message differs. It is shown to
  implement the same interface with the same view, so that both programs compute the same roots.
\<close>

type_synonym runtime_tree = merkle_tree

definition rt_leafHash :: "hash_fun \<Rightarrow> string \<Rightarrow> buffer \<Rightarrow> buffer" where
  "rt_leafHash sha key value =
     (if length value = 0 then EMPTY_HASH
      else let kh = sha (utf8 key); valueHash = sha value in sha (concat [[0x00], kh, valueHash]))"

definition rt_innerHash :: "hash_fun \<Rightarrow> buffer \<Rightarrow> buffer \<Rightarrow> buffer" where
  "rt_innerHash sha left right =
     (if left = EMPTY_HASH \<and> right = EMPTY_HASH then EMPTY_HASH
      else sha (concat [[0x01], left, right]))"

definition rt_keyIndex64 :: "hash_fun \<Rightarrow> string \<Rightarrow> nat" where
  "rt_keyIndex64 sha key = (let kh = sha (utf8 key); first8 = take 8 kh in be_nat first8)"

definition rt_clone :: "runtime_tree \<Rightarrow> runtime_tree" where
  "rt_clone t = new_tree\<lparr>leaves := js_map_of (leaves t), dirty := True\<rparr>"

definition rt_set :: "string \<Rightarrow> value_arg \<Rightarrow> runtime_tree \<Rightarrow> runtime_tree" where
  "rt_set key value t =
     (let valueBuffer = (case value of HexText s \<Rightarrow> from_hex s | Bytes b \<Rightarrow> b);
          leaves' = (if length valueBuffer = 0 then AList.delete key (leaves t)
                     else AList.update key valueBuffer (leaves t))
      in t\<lparr>leaves := leaves', dirty := True\<rparr>)"

fun rt_leaf_level :: "hash_fun \<Rightarrow> (string, buffer) jsmap \<Rightarrow> (nat, string) jsmap \<Rightarrow>
    (nat, buffer) jsmap \<Rightarrow> (nat, buffer) jsmap result" where
  "rt_leaf_level sha [] indexToKey nodes0 = Inr nodes0"
| "rt_leaf_level sha ((key, value) # rest) indexToKey nodes0 =
     (let index = rt_keyIndex64 sha key in
      bindE (case map_of indexToKey index of
               Some previousKey \<Rightarrow> throwIf (previousKey \<noteq> [] \<and> previousKey \<noteq> key)
                 (Error (''Merkle path collision between '' @ CHR 0x27 # previousKey @ CHR 0x27 #
                    '' and '' @ CHR 0x27 # key @ [CHR 0x27]))
             | None \<Rightarrow> Inr ())
        (\<lambda>_. rt_leaf_level sha rest (AList.update index key indexToKey)
               (AList.update index (rt_leafHash sha key value) nodes0)))"

definition rt_parent_level :: "hash_fun \<Rightarrow> (nat, buffer) jsmap \<Rightarrow> (nat, buffer) jsmap" where
  "rt_parent_level sha currentLevel =
     (let parentIndexes = js_set_of (map (drop_bit 1) (map fst currentLevel)) in
      fold (\<lambda>parentIndex parentLevel.
              let left = node_or_empty currentLevel (push_bit 1 parentIndex);
                  right = node_or_empty currentLevel (push_bit 1 parentIndex OR 1);
                  parentHash = rt_innerHash sha left right
              in if parentHash \<noteq> EMPTY_HASH then AList.update parentIndex parentHash parentLevel else parentLevel)
        parentIndexes [])"

fun rt_levels_from :: "hash_fun \<Rightarrow> nat \<Rightarrow> (nat, buffer) jsmap \<Rightarrow> (nat, buffer) jsmap list" where
  "rt_levels_from sha 0 level = [level]"
| "rt_levels_from sha (Suc n) level = level # rt_levels_from sha n (rt_parent_level sha level)"

definition rt_ensureRebuilt :: "hash_fun \<Rightarrow> runtime_tree \<Rightarrow> runtime_tree result" where
  "rt_ensureRebuilt sha t =
     (if \<not> dirty t then Inr t
      else bindE (rt_leaf_level sha (leaves t) [] []) (\<lambda>level0.
        let nodes = rt_levels_from sha MERKLE_DEPTH_BITS level0 in
        Inr (t\<lparr>nodesByHeight := Some nodes,
               root := node_or_empty (nodes ! MERKLE_DEPTH_BITS) 0,
               dirty := False\<rparr>)))"

definition rt_getRoot :: "hash_fun \<Rightarrow> runtime_tree \<Rightarrow> (string \<times> runtime_tree) result" where
  "rt_getRoot sha t = bindE (rt_ensureRebuilt sha t) (\<lambda>t'. Inr (to_hex (root t'), t'))"

definition rt_getSiblings :: "hash_fun \<Rightarrow> string \<Rightarrow> runtime_tree \<Rightarrow> (buffer list \<times> runtime_tree) result" where
  "rt_getSiblings sha key t =
     bindE (rt_ensureRebuilt sha t) (\<lambda>t'.
       case nodesByHeight t' of
         None \<Rightarrow> Inl (Error ''Cannot read properties of null'')
       | Some nodes \<Rightarrow> Inr (sibling_loop (take MERKLE_DEPTH_BITS nodes) (rt_keyIndex64 sha key), t'))"


section \<open>Agreement with the gateway's tree\<close>

named_theorems runtime_hashes

lemma rt_leafHash_eq [runtime_hashes]: "rt_leafHash = leafHash"
  by (simp add: fun_eq_iff rt_leafHash_def leafHash_def keyHash_def Let_def)

lemma rt_innerHash_eq [runtime_hashes]: "rt_innerHash = innerHash"
  by (simp add: fun_eq_iff rt_innerHash_def innerHash_def)

lemma rt_keyIndex64_eq [runtime_hashes]: "rt_keyIndex64 = keyIndex64"
  by (simp add: fun_eq_iff rt_keyIndex64_def keyIndex64_def keyHash_def Let_def)

lemma rt_set_eq: "rt_set = set_leaf"
  by (simp add: fun_eq_iff rt_set_def set_leaf_def)

lemma rt_clone_eq: "rt_clone = clone"
  by (simp add: fun_eq_iff rt_clone_def clone_def)

lemma push_bit_or_1: "push_bit 1 (i :: nat) OR 1 = push_bit 1 i + 1"
  by (simp only: or_one_eq) simp

lemma rt_parent_level_eq: "rt_parent_level = parent_level"
  by (simp only: fun_eq_iff rt_parent_level_def parent_level_def Let_def runtime_hashes push_bit_or_1) simp

lemma rt_levels_from_eq: "rt_levels_from sha n m = levels_from sha n m"
  by (induction n arbitrary: m) (simp_all add: rt_parent_level_eq)

lemma rt_leaf_level_sim:
  "leaf_level sha ls idx n0 = Inr m \<Longrightarrow> node_or_empty n0' = node_or_empty n0 \<Longrightarrow>
   (\<And>k. k \<in> fst ` set ls \<Longrightarrow> map_of idx (keyIndex64 sha k) = None \<and> node_or_empty n0 (keyIndex64 sha k) = EMPTY_HASH) \<Longrightarrow>
   inj_on (keyIndex64 sha) (fst ` set ls) \<Longrightarrow> distinct (map fst ls) \<Longrightarrow>
   \<exists>m'. rt_leaf_level sha ls idx n0' = Inr m' \<and> node_or_empty m' = node_or_empty m"
proof (induction ls arbitrary: idx n0 n0')
  case (Cons kv ls)
  obtain k v where kv: "kv = (k, v)" by (cases kv)
  let ?i = "keyIndex64 sha k" and ?h = "leafHash sha k v"
  define n1 where "n1 = (if ?h \<noteq> EMPTY_HASH then AList.update ?i ?h n0 else n0)"
  have free: "map_of idx ?i = None" "node_or_empty n0 ?i = EMPTY_HASH"
    using Cons.prems(3) [of k] kv by auto
  have n1: "node_or_empty n1 = (node_or_empty n0)(?i := ?h)"
    using free(2) by (auto simp: n1_def node_or_empty_update)
  have other: "keyIndex64 sha l \<noteq> ?i" if "l \<in> fst ` set ls" for l
    using Cons.prems(4,5) kv that by (auto simp: inj_on_def)
  have "\<exists>m'. rt_leaf_level sha ls (AList.update ?i k idx) (AList.update ?i ?h n0') = Inr m' \<and>
      node_or_empty m' = node_or_empty m"
  proof (rule Cons.IH)
    show "leaf_level sha ls (AList.update ?i k idx) n1 = Inr m"
      using Cons.prems(1) free kv by (simp add: Let_def n1_def)
    show "map_of (AList.update ?i k idx) (keyIndex64 sha l) = None \<and> node_or_empty n1 (keyIndex64 sha l) = EMPTY_HASH"
      if "l \<in> fst ` set ls" for l
      using Cons.prems(3) [of l] other [OF that] that kv by (simp add: map_of_alist_update n1)
  qed (use Cons.prems(2,4,5) kv n1 in \<open>simp_all add: node_or_empty_update\<close>)
  with free kv show ?case by (simp add: Let_def runtime_hashes)
qed simp

definition rt_cache_ok :: "hash_fun \<Rightarrow> runtime_tree \<Rightarrow> bool" where
  "rt_cache_ok sha t =
     (\<not> dirty t \<longrightarrow> (\<exists>m. rt_leaf_level sha (leaves t) [] [] = Inr m \<and>
        nodesByHeight t = Some (rt_levels_from sha MERKLE_DEPTH_BITS m) \<and>
        root t = node_or_empty (rt_levels_from sha MERKLE_DEPTH_BITS m ! MERKLE_DEPTH_BITS) 0))"

definition rt_ok :: "hash_fun \<Rightarrow> string set \<Rightarrow> runtime_tree \<Rightarrow> bool" where
  "rt_ok sha K t =
     (leaves_wf (leaves t) \<and> rt_cache_ok sha t \<and> inj_on (keyIndex64 sha) (fst ` set (leaves t) \<union> K))"

lemma rt_leaf_level_ok:
  assumes "leaves_wf ls" "inj_on (keyIndex64 sha) (fst ` set ls)"
  obtains m where "rt_leaf_level sha ls [] [] = Inr m" "node_or_empty m = leaf_at sha ls"
proof -
  have "tree_ok sha {} (new_tree\<lparr>leaves := ls\<rparr>)"
    using assms by (simp add: tree_ok_def cache_ok_def new_tree_def)
  from leaf_level_tree [OF this] obtain m where
    m: "leaf_level sha ls [] [] = Inr m" "node_or_empty m = leaf_at sha ls" by auto
  from rt_leaf_level_sim [OF m(1), of "[]"] assms m(2) that show ?thesis by (auto simp: leaves_wf_def)
qed

lemma rt_ensureRebuilt_ok:
  assumes "rt_ok sha K t"
  obtains t' level0 where "rt_ensureRebuilt sha t = Inr t'" "leaves t' = leaves t" "rt_ok sha K t'"
    "root t' = tree_root sha (leaves t)"
    "nodesByHeight t' = Some (levels_from sha MERKLE_DEPTH_BITS level0)"
    "node_or_empty level0 = leaf_at sha (leaves t)"
proof -
  from assms obtain m where
    m: "rt_leaf_level sha (leaves t) [] [] = Inr m" "node_or_empty m = leaf_at sha (leaves t)"
    by (auto simp: rt_ok_def inj_on_Un elim: rt_leaf_level_ok)
  let ?nodes = "levels_from sha MERKLE_DEPTH_BITS m"
  have r: "node_or_empty (?nodes ! MERKLE_DEPTH_BITS) 0 = tree_root sha (leaves t)"
    by (simp add: levels_from_nth tree_root_def m)
  let ?t = "t\<lparr>nodesByHeight := Some ?nodes, root := node_or_empty (?nodes ! MERKLE_DEPTH_BITS) 0, dirty := False\<rparr>"
  have "rt_ensureRebuilt sha t = Inr (if dirty t then ?t else t)"
    using m by (simp add: rt_ensureRebuilt_def rt_levels_from_eq Let_def)
  moreover have "rt_ok sha K ?t"
    using assms m by (simp add: rt_ok_def rt_cache_ok_def rt_levels_from_eq)
  moreover have "nodesByHeight t = Some ?nodes \<and> root t = tree_root sha (leaves t)" if "\<not> dirty t"
    using assms m r that by (auto simp: rt_ok_def rt_cache_ok_def rt_levels_from_eq)
  ultimately show ?thesis using that [of "if dirty t then ?t else t" m] assms m r by auto
qed

definition rt_put :: "string \<Rightarrow> buffer \<Rightarrow> runtime_tree \<Rightarrow> runtime_tree" where
  "rt_put k v = rt_set k (Bytes v)"

lemma rt_put_leaves: "leaves (rt_put k v t) = store_leaf k v (leaves t)" "dirty (rt_put k v t)"
  by (simp_all add: rt_put_def rt_set_def store_leaf_def)

text \<open>The runtime's tree implements the interface with the view of the gateway's tree.\<close>

lemma rt_ok_gateway: "rt_ok sha K t \<Longrightarrow> tree_ok sha K (new_tree\<lparr>leaves := leaves t\<rparr>)"
  by (simp add: rt_ok_def tree_ok_def cache_ok_def new_tree_def)

lemma rt_ok_put: "rt_ok sha K t \<Longrightarrow> k \<in> K \<Longrightarrow> rt_ok sha K (rt_put k v t)"
  using gw.ok_put [OF rt_ok_gateway, of sha K t k v]
  by (simp add: rt_ok_def tree_ok_def rt_put_leaves rt_cache_ok_def gw.put_view)

interpretation rt: commitment_tree leaves map_of store_leaf tree_root tree_siblings rt_put
  rt_getRoot rt_getSiblings rt_ok
proof unfold_locales
  fix sha K t k
  assume ok: "rt_ok sha K t"
  obtain t' level0 where t': "rt_ensureRebuilt sha t = Inr t'" "leaves t' = leaves t" "rt_ok sha K t'"
    "root t' = tree_root sha (leaves t)"
    "nodesByHeight t' = Some (levels_from sha MERKLE_DEPTH_BITS level0)"
    "node_or_empty level0 = leaf_at sha (leaves t)"
    by (rule rt_ensureRebuilt_ok [OF ok])
  then show "\<exists>t'. rt_getRoot sha t = Inr (to_hex (tree_root sha (leaves t)), t') \<and> leaves t' = leaves t \<and> rt_ok sha K t'"
    by (simp add: rt_getRoot_def)
  from t' show "\<exists>t'. rt_getSiblings sha k t = Inr (tree_siblings sha k (leaves t), t') \<and> leaves t' = leaves t \<and> rt_ok sha K t'"
    by (simp add: rt_getSiblings_def sibling_loop_levels tree_siblings_def runtime_hashes)
next
  fix sha K and t :: runtime_tree and k v
  assume "rt_ok sha K t" and k: "k \<in> K"
  then have ok: "tree_ok sha K (new_tree\<lparr>leaves := leaves t\<rparr>)" by (intro rt_ok_gateway)
  show "tree_siblings sha k (store_leaf k v (leaves t)) = tree_siblings sha k (leaves t)"
    using gw.witness_store [OF ok k, of v] by simp
  show "tree_root sha (leaves t) = climb sha (keyIndex64 sha k)
      (leafHash sha k (case map_of (leaves t) k of None \<Rightarrow> [] | Some v \<Rightarrow> v)) (tree_siblings sha k (leaves t))"
    using gw.digest_climb [OF ok k] by simp
next
  fix sha K L and t :: runtime_tree
  assume "rt_ok sha K t" "L \<subseteq> K"
  then show "rt_ok sha L t" unfolding rt_ok_def by (meson Un_mono inj_on_subset order_refl)
qed (simp_all add: rt_put_leaves gw.lookup_store rt_ok_put gw.witness_length gw.witness_hashes)


section \<open>Properties\<close>

text \<open>
  C7. Equivalence of the two implementations: on trees with the same leaves the gateway's class
  and the transaction builder's class report the same root and the same siblings for every key.
\<close>

theorem gateway_and_runtime_trees_agree:
  assumes "tree_ok sha {} t" and "rt_ok sha {} u" and "map_of (leaves t) = map_of (leaves u)"
  shows "\<exists>r ss t1 t2 u1 u2. getRoot sha t = Inr (r, t1) \<and> rt_getRoot sha u = Inr (r, u1) \<and>
    getSiblings sha key t = Inr (ss, t2) \<and> rt_getSiblings sha key u = Inr (ss, u2)"
proof -
  have "leaf_at sha (leaves t) = leaf_at sha (leaves u)"
    using assms by (intro leaf_at_map_of) (auto simp: tree_ok_def rt_ok_def leaves_wf_def)
  then have "tree_root sha (leaves t) = tree_root sha (leaves u)"
    "tree_siblings sha key (leaves t) = tree_siblings sha key (leaves u)"
    by (simp_all add: tree_root_def tree_siblings_def)
  then show ?thesis
    using gw.root_of_ok [OF assms(1)] gw.siblings_of_ok [OF assms(1), of key]
      rt.root_of_ok [OF assms(2)] rt.siblings_of_ok [OF assms(2), of key] by auto
qed

theorem gateway_and_runtime_trees_agree_witness:
  "\<exists>r ss t1 t2 u1 u2. getRoot tail_hash example_tree = Inr (r, t1) \<and>
    rt_getRoot tail_hash (rt_clone example_tree) = Inr (r, u1) \<and>
    getSiblings tail_hash ''ports/icahost'' example_tree = Inr (ss, t2) \<and>
    rt_getSiblings tail_hash ''ports/icahost'' (rt_clone example_tree) = Inr (ss, u2)"
proof (rule gateway_and_runtime_trees_agree)
  have ok: "tree_ok tail_hash {} example_tree" by (rule tree_ok_mono [OF example_tree_ok]) simp
  then show "tree_ok tail_hash {} example_tree" .
  have ls: "leaves (rt_clone example_tree) = leaves example_tree"
    using ok by (simp add: rt_clone_eq leaves_clone tree_ok_def)
  then show "map_of (leaves example_tree) = map_of (leaves (rt_clone example_tree))" by simp
  show "rt_ok tail_hash {} (rt_clone example_tree)"
    using ok ls by (simp add: rt_ok_def rt_cache_ok_def tree_ok_def) (simp add: rt_clone_def)
qed

end
