(* ===== verification/Ibc_Paths.thy ===== *)
theory Ibc_Paths
  imports Js_Text
begin

section \<open>Commitment paths\<close>

text \<open>
  The key strings under which IBC objects are committed, as the template literals of
  \<open>cardano/gateway/src/shared/helpers/ibc-state-root.ts\<close> (and of the transaction builder's copy)
  spell them. The theory shows that different objects have different keys: the families have
  different prefixes, and within a family the key determines the identifiers as long as these
  contain no slash.
\<close>

definition clientStatePath :: "string \<Rightarrow> string" where
  "clientStatePath clientId = ''clients/'' @ clientId @ ''/clientState''"

definition consensusStatePath :: "string \<Rightarrow> string \<Rightarrow> string" where
  "consensusStatePath clientId heightStr = ''clients/'' @ clientId @ ''/consensusStates/'' @ heightStr"

definition connectionPath :: "string \<Rightarrow> string" where
  "connectionPath connectionId = ''connections/'' @ connectionId"

definition portPath :: "string \<Rightarrow> string" where
  "portPath portId = ''ports/'' @ portId"

definition channel_suffix :: "string \<Rightarrow> string \<Rightarrow> string" where
  "channel_suffix portId channelId = ''/ports/'' @ portId @ ''/channels/'' @ channelId"

definition channelEndPath :: "string \<Rightarrow> string \<Rightarrow> string" where
  "channelEndPath portId channelId = ''channelEnds'' @ channel_suffix portId channelId"

definition nextSequenceSendPath :: "string \<Rightarrow> string \<Rightarrow> string" where
  "nextSequenceSendPath portId channelId = ''nextSequenceSend'' @ channel_suffix portId channelId"

definition nextSequenceRecvPath :: "string \<Rightarrow> string \<Rightarrow> string" where
  "nextSequenceRecvPath portId channelId = ''nextSequenceRecv'' @ channel_suffix portId channelId"

definition nextSequenceAckPath :: "string \<Rightarrow> string \<Rightarrow> string" where
  "nextSequenceAckPath portId channelId = ''nextSequenceAck'' @ channel_suffix portId channelId"

definition packet_suffix :: "string \<Rightarrow> string \<Rightarrow> nat \<Rightarrow> string" where
  "packet_suffix portId channelId sequence =
     channel_suffix portId channelId @ ''/sequences/'' @ dec_string sequence"

definition commitmentPath :: "string \<Rightarrow> string \<Rightarrow> nat \<Rightarrow> string" where
  "commitmentPath portId channelId sequence = ''commitments'' @ packet_suffix portId channelId sequence"

definition receiptPath :: "string \<Rightarrow> string \<Rightarrow> nat \<Rightarrow> string" where
  "receiptPath portId channelId sequence = ''receipts'' @ packet_suffix portId channelId sequence"

definition acknowledgementPath :: "string \<Rightarrow> string \<Rightarrow> nat \<Rightarrow> string" where
  "acknowledgementPath portId channelId sequence = ''acks'' @ packet_suffix portId channelId sequence"

lemmas path_defs = clientStatePath_def consensusStatePath_def connectionPath_def portPath_def
  channelEndPath_def nextSequenceSendPath_def nextSequenceRecvPath_def nextSequenceAckPath_def
  commitmentPath_def receiptPath_def acknowledgementPath_def

lemmas suffix_defs = channel_suffix_def packet_suffix_def

section \<open>Objects and their keys\<close>

datatype ibc_object =
    ClientStateOf string | ConsensusStateOf string nat | ConnectionOf string | PortOf string
  | ChannelEndOf string string | NextSendOf string string | NextRecvOf string string | NextAckOf string string
  | CommitmentOf string string nat | ReceiptOf string string nat | AckOf string string nat

fun object_path :: "ibc_object \<Rightarrow> string" where
  "object_path (ClientStateOf c) = clientStatePath c"
| "object_path (ConsensusStateOf c h) = consensusStatePath c (dec_string h)"
| "object_path (ConnectionOf c) = connectionPath c"
| "object_path (PortOf p) = portPath p"
| "object_path (ChannelEndOf p c) = channelEndPath p c"
| "object_path (NextSendOf p c) = nextSequenceSendPath p c"
| "object_path (NextRecvOf p c) = nextSequenceRecvPath p c"
| "object_path (NextAckOf p c) = nextSequenceAckPath p c"
| "object_path (CommitmentOf p c n) = commitmentPath p c n"
| "object_path (ReceiptOf p c n) = receiptPath p c n"
| "object_path (AckOf p c n) = acknowledgementPath p c n"

definition slash_free :: "string \<Rightarrow> bool" where
  "slash_free s = (CHR ''/'' \<notin> set s)"

fun object_ok :: "ibc_object \<Rightarrow> bool" where
  "object_ok (ClientStateOf c) = slash_free c"
| "object_ok (ConsensusStateOf c h) = slash_free c"
| "object_ok (ConnectionOf c) = slash_free c"
| "object_ok (PortOf p) = slash_free p"
| "object_ok (ChannelEndOf p c) = (slash_free p \<and> slash_free c)"
| "object_ok (NextSendOf p c) = (slash_free p \<and> slash_free c)"
| "object_ok (NextRecvOf p c) = (slash_free p \<and> slash_free c)"
| "object_ok (NextAckOf p c) = (slash_free p \<and> slash_free c)"
| "object_ok (CommitmentOf p c n) = (slash_free p \<and> slash_free c)"
| "object_ok (ReceiptOf p c n) = (slash_free p \<and> slash_free c)"
| "object_ok (AckOf p c n) = (slash_free p \<and> slash_free c)"

text \<open>A slash-free component is determined by what follows up to the next slash.\<close>

lemma slash_free_split:
  assumes "slash_free a" "slash_free b" "a @ CHR ''/'' # u = b @ CHR ''/'' # v"
  shows "a = b \<and> u = v"
  using assms
proof (induction a arbitrary: b)
  case Nil
  then show ?case by (cases b) (auto simp: slash_free_def)
next
  case (Cons x xs)
  then show ?case by (cases b) (auto simp: slash_free_def)
qed

lemma channel_suffix_inj:
  assumes "slash_free p" "slash_free q"
  shows "channel_suffix p c = channel_suffix q d \<longleftrightarrow> p = q \<and> c = d"
  using slash_free_split [OF assms, of "''channels/'' @ c" "''channels/'' @ d"]
  by (auto simp: channel_suffix_def)

lemma packet_suffix_inj:
  assumes "slash_free p" "slash_free q" "slash_free c" "slash_free d"
  shows "packet_suffix p c n = packet_suffix q d m \<longleftrightarrow> p = q \<and> c = d \<and> n = m"
proof -
  have "p = q \<and> c @ ''/sequences/'' @ dec_string n = d @ ''/sequences/'' @ dec_string m"
    if "packet_suffix p c n = packet_suffix q d m"
    using that slash_free_split [OF assms(1,2), of "''channels/'' @ c @ ''/sequences/'' @ dec_string n"
        "''channels/'' @ d @ ''/sequences/'' @ dec_string m"]
    by (simp add: suffix_defs)
  moreover have "c = d \<and> n = m"
    if "c @ ''/sequences/'' @ dec_string n = d @ ''/sequences/'' @ dec_string m"
    using that slash_free_split [OF assms(3,4), of "''sequences/'' @ dec_string n" "''sequences/'' @ dec_string m"]
    by (simp add: dec_string_inj)
  ultimately show ?thesis by blast
qed

lemma slash_free_split_iff:
  "slash_free a \<Longrightarrow> slash_free b \<Longrightarrow> a @ CHR ''/'' # u = b @ CHR ''/'' # v \<longleftrightarrow> a = b \<and> u = v"
  using slash_free_split by blast

text \<open>
  C8. Injectivity of the commitment keys: two IBC objects (client states, consensus states,
  connections, ports, channel ends, sequence counters, packet commitments, receipts and
  acknowledgements) whose identifiers contain no slash have the same path only if they are the
  same object.
\<close>

theorem object_path_injective:
  assumes "object_ok x" and "object_ok y" and "object_path x = object_path y"
  shows "x = y"
  using assms
  by (cases x; cases y)
    (simp_all add: path_defs slash_free_split_iff channel_suffix_inj packet_suffix_inj dec_string_inj)

theorem object_path_injective_witness:
  "CommitmentOf ''transfer'' ''channel-1'' 12 = CommitmentOf ''transfer'' ''channel-1'' (parse_dec ''12'')"
  by (rule object_path_injective) code_simp+

end
