(* ===== verification/Onchain_Keys.thy ===== *)
theory Onchain_Keys
  imports Ibc_Paths
begin

section \<open>Commitment keys on chain\<close>

text \<open>
  The key functions of \<open>cardano/onchain/lib/ibc/core/ics-024-host-requirements/\<close>, on byte arrays as
  the validators use them. The theory shows that they are the UTF-8 bytes of the gateway's paths.
\<close>

definition slash :: buffer where
  "slash = utf8 ''/''"

definition full_client_path :: "buffer \<Rightarrow> buffer \<Rightarrow> buffer" where
  "full_client_path client_id path = utf8 ''clients'' @ slash @ client_id @ slash @ path"

definition full_client_state_path :: "buffer \<Rightarrow> buffer" where
  "full_client_state_path client_id = full_client_path client_id (utf8 ''clientState'')"

definition full_client_consensus_state_path :: "buffer \<Rightarrow> buffer \<Rightarrow> buffer" where
  "full_client_consensus_state_path client_id height =
     full_client_path client_id (utf8 ''consensusStates'') @ slash @ height"

definition connection_path :: "buffer \<Rightarrow> buffer" where
  "connection_path connection_id = utf8 ''connections'' @ slash @ connection_id"

definition port_key :: "buffer \<Rightarrow> buffer" where
  "port_key port_id = utf8 ''ports'' @ slash @ port_id"

definition channel_path_for_packet :: "buffer \<Rightarrow> buffer \<Rightarrow> buffer" where
  "channel_path_for_packet port_id channel_id =
     utf8 ''ports'' @ slash @ port_id @ slash @ utf8 ''channels'' @ slash @ channel_id"

definition channel_path :: "buffer \<Rightarrow> buffer \<Rightarrow> buffer" where
  "channel_path port_id channel_id = utf8 ''channelEnds'' @ slash @ channel_path_for_packet port_id channel_id"

definition packet_commitment_prefix_path :: "buffer \<Rightarrow> buffer \<Rightarrow> buffer" where
  "packet_commitment_prefix_path port_id channel_id =
     utf8 ''commitments'' @ slash @ channel_path_for_packet port_id channel_id @ slash @ utf8 ''sequences''"

definition packet_commitment_path :: "buffer \<Rightarrow> buffer \<Rightarrow> nat \<Rightarrow> buffer" where
  "packet_commitment_path port_id channel_id sequence =
     packet_commitment_prefix_path port_id channel_id @ slash @ utf8 (dec_string sequence)"

definition packet_acknowledgement_prefix_path :: "buffer \<Rightarrow> buffer \<Rightarrow> buffer" where
  "packet_acknowledgement_prefix_path port_id channel_id =
     utf8 ''acks'' @ slash @ channel_path_for_packet port_id channel_id @ slash @ utf8 ''sequences''"

definition packet_acknowledgement_path :: "buffer \<Rightarrow> buffer \<Rightarrow> nat \<Rightarrow> buffer" where
  "packet_acknowledgement_path port_id channel_id sequence =
     packet_acknowledgement_prefix_path port_id channel_id @ slash @ utf8 (dec_string sequence)"

definition sequence_path :: "nat \<Rightarrow> buffer" where
  "sequence_path sequence = utf8 ''sequences'' @ slash @ utf8 (dec_string sequence)"

definition packet_receipt_path :: "buffer \<Rightarrow> buffer \<Rightarrow> nat \<Rightarrow> buffer" where
  "packet_receipt_path port_id channel_id sequence =
     utf8 ''receipts'' @ slash @ channel_path_for_packet port_id channel_id @ slash @ sequence_path sequence"

definition next_sequence_recv_path :: "buffer \<Rightarrow> buffer \<Rightarrow> buffer" where
  "next_sequence_recv_path port_id channel_id =
     utf8 ''nextSequenceRecv'' @ slash @ channel_path_for_packet port_id channel_id"

definition next_sequence_send_path :: "buffer \<Rightarrow> buffer \<Rightarrow> buffer" where
  "next_sequence_send_path port_id channel_id =
     utf8 ''nextSequenceSend'' @ slash @ channel_path_for_packet port_id channel_id"

definition next_sequence_ack_path :: "buffer \<Rightarrow> buffer \<Rightarrow> buffer" where
  "next_sequence_ack_path port_id channel_id =
     utf8 ''nextSequenceAck'' @ slash @ channel_path_for_packet port_id channel_id"

section \<open>Agreement with the gateway\<close>

lemma keys_agree [simp]:
  "full_client_state_path (utf8 c) = utf8 (clientStatePath c)"
  "full_client_consensus_state_path (utf8 c) (utf8 h) = utf8 (consensusStatePath c h)"
  "connection_path (utf8 c) = utf8 (connectionPath c)"
  "port_key (utf8 p) = utf8 (portPath p)"
  "channel_path (utf8 p) (utf8 c) = utf8 (channelEndPath p c)"
  "packet_commitment_path (utf8 p) (utf8 c) n = utf8 (commitmentPath p c n)"
  "packet_acknowledgement_path (utf8 p) (utf8 c) n = utf8 (acknowledgementPath p c n)"
  "packet_receipt_path (utf8 p) (utf8 c) n = utf8 (receiptPath p c n)"
  "next_sequence_recv_path (utf8 p) (utf8 c) = utf8 (nextSequenceRecvPath p c)"
  "next_sequence_send_path (utf8 p) (utf8 c) = utf8 (nextSequenceSendPath p c)"
  "next_sequence_ack_path (utf8 p) (utf8 c) = utf8 (nextSequenceAckPath p c)"
  by (simp_all add: full_client_state_path_def full_client_path_def full_client_consensus_state_path_def
      connection_path_def port_key_def channel_path_def channel_path_for_packet_def packet_commitment_path_def
      packet_commitment_prefix_path_def packet_acknowledgement_path_def packet_acknowledgement_prefix_path_def
      packet_receipt_path_def sequence_path_def next_sequence_recv_path_def next_sequence_send_path_def
      next_sequence_ack_path_def slash_def path_defs suffix_defs utf8_append [symmetric] del: utf8_append)

end
