(* ===== verification/Host_Validator.thy ===== *)
theory Host_Validator
  imports Commitment_Interface Onchain_Keys
begin

section \<open>Root checks of the host state validator\<close>

text \<open>
  \<open>cardano/onchain/validators/host_state_stt.ak\<close>: for every kind of transaction, the sequence of
  \<open>apply_update\<close> calls by which the validator recomputes the root it expects in the new host
  state datum. The serialised values (\<open>cbor.serialise\<close> of datum parts) and the identifiers are
  arguments; locating them in the transaction is not part of the model. These are the
  specifications the gateway's state-root computations are proved against.
\<close>

definition create_client_root :: "hash_fun \<Rightarrow> buffer \<Rightarrow> string \<Rightarrow> string \<Rightarrow> buffer \<Rightarrow> buffer \<Rightarrow>
    buffer list \<Rightarrow> buffer list \<Rightarrow> buffer result" where
  "create_client_root sha old_root client_id consensus_height client_state_value consensus_state_value
     client_state_siblings consensus_state_siblings =
   bindE (apply_update sha old_root (full_client_state_path (utf8 client_id)) [] client_state_value client_state_siblings)
     (\<lambda>root_after_client_state.
   apply_update sha root_after_client_state (full_client_consensus_state_path (utf8 client_id) (utf8 consensus_height)) []
     consensus_state_value consensus_state_siblings)"

fun apply_removed_consensus_state_updates :: "hash_fun \<Rightarrow> buffer \<Rightarrow> string \<Rightarrow> (string \<times> buffer) list \<Rightarrow>
    buffer list list \<Rightarrow> buffer result" where
  "apply_removed_consensus_state_updates sha current_root client_id [] siblings_lists =
     bindE (expect (siblings_lists = [])) (\<lambda>_. Inr current_root)"
| "apply_removed_consensus_state_updates sha current_root client_id ((height_str, old_value) # rest_pairs) [] =
     Inl (Error ''expect'')"
| "apply_removed_consensus_state_updates sha current_root client_id ((height_str, old_value) # rest_pairs)
     (siblings # rest_siblings) =
     bindE (apply_update sha current_root (full_client_consensus_state_path (utf8 client_id) (utf8 height_str)) old_value [] siblings)
       (\<lambda>next_root. apply_removed_consensus_state_updates sha next_root client_id rest_pairs rest_siblings)"

definition update_client_root :: "hash_fun \<Rightarrow> buffer \<Rightarrow> string \<Rightarrow> buffer \<Rightarrow> buffer \<Rightarrow>
    (string \<times> buffer) list \<Rightarrow> (string \<times> buffer) list \<Rightarrow> buffer list \<Rightarrow> buffer list \<Rightarrow> buffer list list \<Rightarrow> buffer result" where
  "update_client_root sha old_root client_id old_client_state_value new_client_state_value
     removed_consensus_pairs added_consensus_pairs
     client_state_siblings consensus_state_siblings removed_consensus_state_siblings =
   bindE (apply_update sha old_root (full_client_state_path (utf8 client_id)) old_client_state_value
            new_client_state_value client_state_siblings) (\<lambda>root_after_client_state.
   bindE (apply_removed_consensus_state_updates sha root_after_client_state client_id
            removed_consensus_pairs removed_consensus_state_siblings) (\<lambda>root_after_removed.
   case added_consensus_pairs of
     [] \<Rightarrow> Inr root_after_removed
   | [(height_str, new_value)] \<Rightarrow>
       apply_update sha root_after_removed (full_client_consensus_state_path (utf8 client_id) (utf8 height_str)) [] new_value
         consensus_state_siblings
   | _ \<Rightarrow> Inl (Error ''UpdateClient should add at most one consensus state'')))"

definition create_connection_root :: "hash_fun \<Rightarrow> buffer \<Rightarrow> string \<Rightarrow> buffer \<Rightarrow> buffer list \<Rightarrow> buffer result" where
  "create_connection_root sha old_root connection_id connection_value connection_siblings =
     apply_update sha old_root (connection_path (utf8 connection_id)) [] connection_value connection_siblings"

definition create_channel_root :: "hash_fun \<Rightarrow> buffer \<Rightarrow> string \<Rightarrow> string \<Rightarrow> buffer \<Rightarrow> buffer \<Rightarrow> buffer \<Rightarrow> buffer \<Rightarrow>
    buffer list \<Rightarrow> buffer list \<Rightarrow> buffer list \<Rightarrow> buffer list \<Rightarrow> buffer result" where
  "create_channel_root sha old_root port_id channel_id channel_value
     next_sequence_send_value next_sequence_recv_value next_sequence_ack_value
     channel_siblings next_sequence_send_siblings next_sequence_recv_siblings next_sequence_ack_siblings =
   bindE (apply_update sha old_root (channel_path (utf8 port_id) (utf8 channel_id)) [] channel_value channel_siblings) (\<lambda>r1.
   bindE (apply_update sha r1 (next_sequence_send_path (utf8 port_id) (utf8 channel_id)) [] next_sequence_send_value
            next_sequence_send_siblings) (\<lambda>r2.
   bindE (apply_update sha r2 (next_sequence_recv_path (utf8 port_id) (utf8 channel_id)) [] next_sequence_recv_value
            next_sequence_recv_siblings) (\<lambda>r3.
   apply_update sha r3 (next_sequence_ack_path (utf8 port_id) (utf8 channel_id)) [] next_sequence_ack_value
     next_sequence_ack_siblings)))"

definition bind_port_root :: "hash_fun \<Rightarrow> buffer \<Rightarrow> string \<Rightarrow> buffer \<Rightarrow> buffer list \<Rightarrow> buffer result" where
  "bind_port_root sha old_root port_id port_value port_siblings =
     apply_update sha old_root (port_key (utf8 port_id)) [] port_value port_siblings"

definition update_channel_root :: "hash_fun \<Rightarrow> buffer \<Rightarrow> string \<Rightarrow> string \<Rightarrow> buffer \<Rightarrow> buffer \<Rightarrow> buffer list \<Rightarrow> buffer result" where
  "update_channel_root sha old_root port_id channel_id old_channel_value new_channel_value channel_siblings =
     apply_update sha old_root (channel_path (utf8 port_id) (utf8 channel_id)) old_channel_value new_channel_value
       channel_siblings"

definition send_packet_root :: "hash_fun \<Rightarrow> buffer \<Rightarrow> string \<Rightarrow> string \<Rightarrow> nat \<Rightarrow> buffer \<Rightarrow> buffer \<Rightarrow> buffer \<Rightarrow>
    buffer list \<Rightarrow> buffer list \<Rightarrow> buffer result" where
  "send_packet_root sha old_root port_id channel_id sequence old_next_send new_next_send commitment
     next_sequence_send_siblings packet_commitment_siblings =
   bindE (apply_update sha old_root (next_sequence_send_path (utf8 port_id) (utf8 channel_id)) old_next_send new_next_send
            next_sequence_send_siblings) (\<lambda>sequence_root.
   apply_update sha sequence_root (packet_commitment_path (utf8 port_id) (utf8 channel_id) sequence) [] commitment
     packet_commitment_siblings)"

definition prune_packet_root :: "hash_fun \<Rightarrow> buffer \<Rightarrow> string \<Rightarrow> string \<Rightarrow> nat \<Rightarrow> buffer \<Rightarrow> buffer \<Rightarrow>
    buffer list \<Rightarrow> buffer list \<Rightarrow> buffer result" where
  "prune_packet_root sha old_root port_id channel_id sequence receipt acknowledgement
     packet_receipt_siblings packet_acknowledgement_siblings =
   bindE (apply_update sha old_root (packet_receipt_path (utf8 port_id) (utf8 channel_id) sequence) receipt []
            packet_receipt_siblings) (\<lambda>receipt_root.
   apply_update sha receipt_root (packet_acknowledgement_path (utf8 port_id) (utf8 channel_id) sequence) acknowledgement []
     packet_acknowledgement_siblings)"

end
