(* ===== verification/Channel_Datum.thy ===== *)
theory Channel_Datum
  imports Prelude
begin

section \<open>Channel data\<close>

text \<open>
  The types of \<open>cardano/gateway/src/shared/types/channel/\<close> and of \<open>height.ts\<close> and
  \<open>auth-token.ts\<close>. Objects that the program compares with \<open>!==\<close> carry their identity: an
  \<open>'a obj\<close> is a reference together with the contents it points to, and two references are
  equal when their addresses are. Sequences and heights, bigints in the source, are natural
  numbers; byte strings are hexadecimal text, as Lucid represents them.
\<close>

datatype 'a obj = Obj (addr: nat) (contents: 'a)

definition same_object :: "'a obj \<Rightarrow> 'a obj \<Rightarrow> bool" where
  "same_object x y = (addr x = addr y)"

record height =
  revisionNumber :: nat
  revisionHeight :: nat

record auth_token =
  policyId :: string
  name :: string

datatype channel_state = Uninitialized | Init | TryOpen | Open | Close

datatype order = NoneOrder | Unordered | Ordered

record channel_counterparty =
  port_id :: string
  channel_id :: string

record channel =
  ch_state :: channel_state
  ordering :: order
  counterparty :: channel_counterparty
  connection_hops :: "string list"
  version :: string

record channel_datum_state =
  channel :: "channel obj"
  next_sequence_send :: nat
  next_sequence_recv :: nat
  next_sequence_ack :: nat
  packet_commitment :: "(nat, string) jsmap"
  packet_receipt :: "(nat, string) jsmap"
  packet_acknowledgement :: "(nat, string) jsmap"
  minimum_receive_proof_height :: height
  maximum_receive_proof_height :: height

record channel_datum =
  state :: channel_datum_state
  port :: string
  token :: auth_token

text \<open>A heap assigns one content to an address, so equal references have equal contents.\<close>

definition consistent_refs :: "'a obj \<Rightarrow> 'a obj \<Rightarrow> bool" where
  "consistent_refs x y = (addr x = addr y \<longrightarrow> contents x = contents y)"

end
