(* ===== verification/Js_Json.thy ===== *)
theory Js_Json
  imports Js_Text
begin

section \<open>JavaScript values and \<open>JSON.stringify\<close>\<close>

text \<open>
  The values that the sources pass around untyped (\<open>any\<close>), and the part of the language they
  apply to them: \<open>JSON.stringify\<close> (with the replacer that prints bigints as strings, where the
  source uses one), string conversion in template literals, and property access. Numbers are
  integers: the sources never serialise fractions.
\<close>

datatype js_value =
    JUndefined
  | JNull
  | JBool bool
  | JNumber int
  | JBigInt int
  | JString string
  | JBuffer buffer
  | JArray "js_value list"
  | JObject "(string \<times> js_value) list"

definition int_string :: "int \<Rightarrow> string" where
  "int_string n = (if n < 0 then CHR ''-'' # dec_string (nat (- n)) else dec_string (nat n))"

definition escape_char :: "char \<Rightarrow> string" where
  "escape_char c =
     (if c = CHR 0x22 then [CHR 0x5C, CHR 0x22]
      else if c = CHR 0x5C then [CHR 0x5C, CHR 0x5C]
      else if c = CHR 0x08 then [CHR 0x5C, CHR ''b'']
      else if c = CHR 0x09 then [CHR 0x5C, CHR ''t'']
      else if c = CHR 0x0A then [CHR 0x5C, CHR ''n'']
      else if c = CHR 0x0C then [CHR 0x5C, CHR ''f'']
      else if c = CHR 0x0D then [CHR 0x5C, CHR ''r'']
      else if (of_char c :: nat) < 32 then CHR 0x5C # ''u00'' @ to_hex [byte_of_char c]
      else [c])"

definition json_string :: "string \<Rightarrow> string" where
  "json_string s = CHR 0x22 # concat (map escape_char s) @ [CHR 0x22]"

definition json_buffer :: "buffer \<Rightarrow> string" where
  "json_buffer b = ''{'' @ json_string ''type'' @ '':'' @ json_string ''Buffer'' @ '','' @
     json_string ''data'' @ '':['' @ join_with '','' (map (\<lambda>x. dec_string (unat x)) b) @ '']}''"

text \<open>
  \<open>None\<close> is JavaScript's \<open>undefined\<close>: such a property is left out of an object, and such an
  element of an array becomes \<open>null\<close>.
\<close>

fun json_text :: "js_value \<Rightarrow> string option" where
  "json_text JUndefined = None"
| "json_text JNull = Some ''null''"
| "json_text (JBool b) = Some (if b then ''true'' else ''false'')"
| "json_text (JNumber n) = Some (int_string n)"
| "json_text (JBigInt n) = Some (json_string (int_string n))"
| "json_text (JString s) = Some (json_string s)"
| "json_text (JBuffer b) = Some (json_buffer b)"
| "json_text (JArray vs) = Some (''['' @ join_with '','' (map (\<lambda>v. case json_text v of Some t \<Rightarrow> t | None \<Rightarrow> ''null'') vs) @ '']'')"
| "json_text (JObject fs) =
     Some (''{'' @ join_with '','' (concat (map (\<lambda>(k, v). case json_text v of
        Some t \<Rightarrow> [json_string k @ '':'' @ t] | None \<Rightarrow> []) fs)) @ ''}'')"

definition js_field :: "js_value \<Rightarrow> string \<Rightarrow> js_value" where
  "js_field v name = (case v of JObject fs \<Rightarrow> (case map_of fs name of Some w \<Rightarrow> w | None \<Rightarrow> JUndefined) | _ \<Rightarrow> JUndefined)"

fun js_truthy :: "js_value \<Rightarrow> bool" where
  "js_truthy JUndefined = False"
| "js_truthy JNull = False"
| "js_truthy (JBool b) = b"
| "js_truthy (JNumber n) = (n \<noteq> 0)"
| "js_truthy (JBigInt n) = (n \<noteq> 0)"
| "js_truthy (JString s) = (s \<noteq> [])"
| "js_truthy (JBuffer b) = True"
| "js_truthy (JArray vs) = True"
| "js_truthy (JObject fs) = True"

fun js_to_string :: "js_value \<Rightarrow> string" where
  "js_to_string JUndefined = ''undefined''"
| "js_to_string JNull = ''null''"
| "js_to_string (JBool b) = (if b then ''true'' else ''false'')"
| "js_to_string (JNumber n) = int_string n"
| "js_to_string (JBigInt n) = int_string n"
| "js_to_string (JString s) = s"
| "js_to_string (JBuffer b) = utf8_text b"
| "js_to_string (JArray vs) = join_with '','' (map (\<lambda>v. if v = JUndefined \<or> v = JNull then [] else js_to_string v) vs)"
| "js_to_string (JObject fs) = ''[object Object]''"

text \<open>
  \<open>BigInt(s)\<close> of a text: blanks around it are ignored, the empty text is 0, a decimal literal may
  have a sign, and the prefixed literals \<open>0x\<close>, \<open>0o\<close> and \<open>0b\<close> may not. Anything else is a
  \<open>SyntaxError\<close>.
\<close>

definition radix_val :: "nat \<Rightarrow> string \<Rightarrow> nat option" where
  "radix_val b ds =
     (if ds \<noteq> [] \<and> list_all (\<lambda>c. case hex_val c of Some n \<Rightarrow> n < b | None \<Rightarrow> False) ds
      then Some (foldl (\<lambda>a c. b * a + the (hex_val c)) 0 ds) else None)"

definition js_BigInt :: "string \<Rightarrow> int result" where
  "js_BigInt s =
     (let t = js_trim s; p = to_lower (take 2 t); d = drop 2 t;
          n = (if t = [] then Some 0
               else if p = ''0x'' then map_option int (radix_val 16 d)
               else if p = ''0o'' then map_option int (radix_val 8 d)
               else if p = ''0b'' then map_option int (radix_val 2 d)
               else if digits t then Some (int (parse_dec t))
               else if take 1 t = ''-'' \<and> digits (drop 1 t) then Some (- int (parse_dec (drop 1 t)))
               else if take 1 t = ''+'' \<and> digits (drop 1 t) then Some (int (parse_dec (drop 1 t)))
               else None)
      in case n of Some k \<Rightarrow> Inr k | None \<Rightarrow> Inl (Error (''Cannot convert '' @ s @ '' to a BigInt'')))"

section \<open>Facts\<close>

lemma int_string_nat: "int_string (int n) = dec_string n"
  by (simp add: int_string_def)

lemma dec_string_not_minus [simp]:
  "dec_string n \<noteq> CHR ''-'' # s" "CHR ''-'' # s \<noteq> dec_string n"
proof -
  have "set (CHR ''-'' # s) \<subseteq> Collect is_digit \<Longrightarrow> False" by (simp add: is_digit_def)
  moreover have "set (dec_string n) \<subseteq> Collect is_digit"
    using dec_string_digits [of n] by (auto simp: digits_def list_all_iff)
  ultimately show "dec_string n \<noteq> CHR ''-'' # s" by metis
  then show "CHR ''-'' # s \<noteq> dec_string n" by metis
qed

lemma int_string_inj: "int_string a = int_string b \<longleftrightarrow> a = b"
  by (auto simp: int_string_def dec_string_inj)

text \<open>A quoted string determines the text.\<close>

lemma escape_char_prefix_free:
  assumes "escape_char c @ u = escape_char d @ v"
  shows "c = d \<and> u = v"
proof -
  have hex: "c = d \<and> u = v" if "to_hex [byte_of_char c] @ u = to_hex [byte_of_char d] @ v"
  proof -
    have "length (to_hex [byte_of_char c]) = length (to_hex [byte_of_char d])" by (simp only: length_to_hex) simp
    with that have "to_hex [byte_of_char c] = to_hex [byte_of_char d] \<and> u = v"
      using append_eq_append_conv by blast
    moreover have "utf8 [c] = utf8 [d] \<Longrightarrow> c = d" by (simp only: utf8_inj) simp
    ultimately show ?thesis by (simp only: to_hex_inj) (simp add: utf8_def)
  qed
  with assms show ?thesis
    unfolding escape_char_def by (simp only: append_Cons append_Nil append_assoc split: if_splits) (use hex in auto)
qed

lemma json_string_inj: "json_string s = json_string t \<longleftrightarrow> s = t"
proof -
  have "concat (map escape_char s) = concat (map escape_char t) \<Longrightarrow> s = t"
  proof (induction s arbitrary: t)
    case Nil
    then show ?case by (cases t) (auto simp: escape_char_def split: if_splits)
  next
    case (Cons c s)
    have "t \<noteq> []" using Cons.prems by (auto simp: escape_char_def split: if_splits)
    then obtain d u where t: "t = d # u" by (cases t) auto
    from Cons.prems t escape_char_prefix_free [of c "concat (map escape_char s)" d "concat (map escape_char u)"]
    have "c = d" "concat (map escape_char s) = concat (map escape_char u)" by simp_all
    with Cons.IH t show ?case by simp
  qed
  then show ?thesis by (auto simp: json_string_def)
qed

end
