(* ===== verification/State_Root.thy ===== *)
theory State_Root
  imports Merkle_Tree Host_Validator Channel_Datum Js_Json
begin

section \<open>The gateway's state-root module\<close>

text \<open>
  \<open>cardano/gateway/src/shared/helpers/ibc-state-root.ts\<close>. The module variables are the record
  \<open>tree_module\<close>; every \<open>computeRootWith...\<close> function takes it and returns its result together
  with the module state, in which only the cache of the current tree may have changed. The
  closure \<open>commit\<close> of a result is the function \<open>commit\<close> applied to the speculative tree that
  the result carries. The CBOR encoders of Lucid are parameters.
\<close>

record tree_module =
  currentTree :: merkle_tree
  cachedKupoService :: bool
  cachedLucidService :: bool

definition initTreeServices :: "bool \<Rightarrow> bool \<Rightarrow> tree_module \<Rightarrow> tree_module" where
  "initTreeServices kupoService lucidService m =
     m\<lparr>cachedKupoService := kupoService, cachedLucidService := lucidService\<rparr>"

definition serializeValue :: "js_value \<Rightarrow> buffer result" where
  "serializeValue value =
     (case value of
        JBuffer b \<Rightarrow> Inr b
      | _ \<Rightarrow> (case json_text value of
                Some json \<Rightarrow> Inr (utf8 json)
              | None \<Rightarrow> Inl (Error ''The first argument must be of type string'')))"

record state_root_result =
  newRoot :: string
  speculativeTree :: merkle_tree

record create_client_result = state_root_result +
  clientStateSiblings :: "string list"
  consensusStateSiblings :: "string list"

record update_client_result = create_client_result +
  removedConsensusStateSiblings :: "string list list"

record connection_result = state_root_result +
  connectionSiblings :: "string list"

record port_result = state_root_result +
  portSiblings :: "string list"

record channel_result = state_root_result +
  channelSiblings :: "string list"

record create_channel_result = channel_result +
  nextSequenceSendSiblings :: "string list"
  nextSequenceRecvSiblings :: "string list"
  nextSequenceAckSiblings :: "string list"

record handle_packet_result = create_channel_result +
  packetCommitmentSiblings :: "string list"
  packetReceiptSiblings :: "string list"
  packetAcknowledgementSiblings :: "string list"

record prune_result = state_root_result +
  pruneReceiptSiblings :: "string list"
  pruneAcknowledgementSiblings :: "string list"

definition commit :: "'a state_root_result_scheme \<Rightarrow> tree_module \<Rightarrow> tree_module" where
  "commit r m = m\<lparr>currentTree := speculativeTree r\<rparr>"

definition zeroRoot :: string where
  "zeroRoot = replicate 64 (CHR ''0'')"

definition getClonedTreeFromRoot :: "hash_fun \<Rightarrow> string \<Rightarrow> tree_module \<Rightarrow> (merkle_tree \<times> tree_module) result" where
  "getClonedTreeFromRoot sha rootHash m =
     (if rootHash = zeroRoot then Inr (new_tree, m)
      else bindE (getRoot sha (currentTree m)) (\<lambda>(currentRoot, t).
        if currentRoot = rootHash then Inr (clone t, m\<lparr>currentTree := t\<rparr>)
        else Inl (Error (''Tree out of sync with on-chain state. Expected root '' @ take 16 rootHash @
               ''..., but in-memory root is '' @ take 16 currentRoot @ ''...''))))"

definition isTreeAligned :: "hash_fun \<Rightarrow> string \<Rightarrow> tree_module \<Rightarrow> (bool \<times> tree_module) result" where
  "isTreeAligned sha onChainRoot m =
     bindE (getRoot sha (currentTree m)) (\<lambda>(r, t). Inr (r = onChainRoot, m\<lparr>currentTree := t\<rparr>))"

text \<open>
  The step that all witnessed updates repeat: read the siblings of a path as hexadecimal text,
  then set the path.
\<close>

definition siblings_then_set :: "hash_fun \<Rightarrow> string \<Rightarrow> buffer \<Rightarrow> merkle_tree \<Rightarrow> (string list \<times> merkle_tree) result" where
  "siblings_then_set sha path value t =
     bindE (getSiblings sha path t) (\<lambda>(ss, t').
     Inr (map to_hex ss, set_leaf path (Bytes value) t'))"


subsection \<open>Clients\<close>

definition computeRootWithClientUpdate :: "hash_fun \<Rightarrow> string \<Rightarrow> string \<Rightarrow> js_value \<Rightarrow> js_value \<Rightarrow> js_value \<Rightarrow>
    tree_module \<Rightarrow> (state_root_result \<times> tree_module) result" where
  "computeRootWithClientUpdate sha oldRoot clientId clientState consensusState consensusHeight m =
     bindE (getClonedTreeFromRoot sha oldRoot m) (\<lambda>(tree, m').
     bindE (serializeValue clientState) (\<lambda>clientValue.
     let tree1 = set_leaf (clientStatePath clientId) (Bytes clientValue) tree in
     bindE (if js_truthy consensusState \<and> consensusHeight \<noteq> JUndefined
            then bindE (serializeValue consensusState) (\<lambda>consensusValue.
                   Inr (set_leaf (consensusStatePath clientId (js_to_string consensusHeight)) (Bytes consensusValue) tree1))
            else Inr tree1) (\<lambda>tree2.
     bindE (getRoot sha tree2) (\<lambda>(r, tree3).
     Inr (\<lparr>newRoot = r, speculativeTree = tree3\<rparr>, m')))))"

definition computeRootWithCreateClientUpdate :: "hash_fun \<Rightarrow> string \<Rightarrow> string \<Rightarrow> buffer \<Rightarrow> buffer \<Rightarrow> string \<Rightarrow>
    tree_module \<Rightarrow> (create_client_result \<times> tree_module) result" where
  "computeRootWithCreateClientUpdate sha oldRoot clientId clientStateValue consensusStateValue consensusHeight m =
     bindE (getClonedTreeFromRoot sha oldRoot m) (\<lambda>(tree, m').
     bindE (siblings_then_set sha (clientStatePath clientId) clientStateValue tree) (\<lambda>(ss1, tree1).
     bindE (siblings_then_set sha (consensusStatePath clientId consensusHeight) consensusStateValue tree1) (\<lambda>(ss2, tree2).
     bindE (getRoot sha tree2) (\<lambda>(r, tree3).
     Inr (\<lparr>newRoot = r, speculativeTree = tree3, clientStateSiblings = ss1, consensusStateSiblings = ss2\<rparr>, m')))))"

fun remove_consensus_states :: "hash_fun \<Rightarrow> string \<Rightarrow> string list \<Rightarrow> merkle_tree \<Rightarrow>
    (string list list \<times> merkle_tree) result" where
  "remove_consensus_states sha clientId [] tree = Inr ([], tree)"
| "remove_consensus_states sha clientId (heightStr # heights) tree =
     (let consensusPath = consensusStatePath clientId heightStr in
      if get_leaf tree consensusPath = None
      then Inl (Error (''UpdateClient root update expects existing consensusState at '' @ CHR 0x27 # consensusPath @
             CHR 0x27 # '', but it was not found in the tree''))
      else bindE (siblings_then_set sha consensusPath [] tree) (\<lambda>(siblings, tree').
           bindE (remove_consensus_states sha clientId heights tree') (\<lambda>(rest, tree'').
           Inr (siblings # rest, tree''))))"

definition add_consensus_state :: "hash_fun \<Rightarrow> string \<Rightarrow> (string \<times> buffer) option \<Rightarrow> merkle_tree \<Rightarrow>
    (string list \<times> merkle_tree) result" where
  "add_consensus_state sha clientId added tree =
     (case added of
        None \<Rightarrow> Inr ([], tree)
      | Some (heightStr, value) \<Rightarrow>
          let consensusPath = consensusStatePath clientId heightStr in
          if get_leaf tree consensusPath \<noteq> None
          then Inl (Error (''UpdateClient root update expects no consensusState at '' @ CHR 0x27 # consensusPath @
                 CHR 0x27 # '' before insertion, but one already exists''))
          else siblings_then_set sha consensusPath value tree)"

definition computeRootWithUpdateClientUpdate :: "hash_fun \<Rightarrow> string \<Rightarrow> string \<Rightarrow> buffer \<Rightarrow> string list \<Rightarrow>
    (string \<times> buffer) option \<Rightarrow> tree_module \<Rightarrow> (update_client_result \<times> tree_module) result" where
  "computeRootWithUpdateClientUpdate sha oldRoot clientId newClientStateValue removedConsensusHeights added m =
     bindE (getClonedTreeFromRoot sha oldRoot m) (\<lambda>(tree, m').
     let clientPath = clientStatePath clientId in
     if get_leaf tree clientPath = None
     then Inl (Error (''UpdateClient root update expects existing clientState at '' @ CHR 0x27 # clientPath @
            CHR 0x27 # '', but it was not found in the tree''))
     else
     bindE (siblings_then_set sha clientPath newClientStateValue tree) (\<lambda>(ss1, tree1).
     bindE (remove_consensus_states sha clientId removedConsensusHeights tree1) (\<lambda>(removed, tree2).
     bindE (add_consensus_state sha clientId added tree2) (\<lambda>(ss2, tree3).
     bindE (getRoot sha tree3) (\<lambda>(r, tree4).
     Inr (\<lparr>newRoot = r, speculativeTree = tree4, clientStateSiblings = ss1, consensusStateSiblings = ss2,
           removedConsensusStateSiblings = removed\<rparr>, m'))))))"


subsection \<open>Connections, channels and ports\<close>

definition computeRootWithCreateConnectionUpdate :: "hash_fun \<Rightarrow> string \<Rightarrow> string \<Rightarrow> buffer \<Rightarrow> tree_module \<Rightarrow>
    (connection_result \<times> tree_module) result" where
  "computeRootWithCreateConnectionUpdate sha oldRoot connectionId connectionValue m =
     bindE (getClonedTreeFromRoot sha oldRoot m) (\<lambda>(tree, m').
     bindE (siblings_then_set sha (connectionPath connectionId) connectionValue tree) (\<lambda>(ss, tree1).
     bindE (getRoot sha tree1) (\<lambda>(r, tree2).
     Inr (\<lparr>newRoot = r, speculativeTree = tree2, connectionSiblings = ss\<rparr>, m'))))"

definition computeRootWithCreateChannelUpdate :: "hash_fun \<Rightarrow> string \<Rightarrow> string \<Rightarrow> string \<Rightarrow> buffer \<Rightarrow> buffer \<Rightarrow> buffer \<Rightarrow>
    buffer \<Rightarrow> tree_module \<Rightarrow> (create_channel_result \<times> tree_module) result" where
  "computeRootWithCreateChannelUpdate sha oldRoot portId channelId channelValue
     nextSequenceSendValue nextSequenceRecvValue nextSequenceAckValue m =
     bindE (getClonedTreeFromRoot sha oldRoot m) (\<lambda>(tree, m').
     bindE (siblings_then_set sha (channelEndPath portId channelId) channelValue tree) (\<lambda>(ss1, tree1).
     bindE (siblings_then_set sha (nextSequenceSendPath portId channelId) nextSequenceSendValue tree1) (\<lambda>(ss2, tree2).
     bindE (siblings_then_set sha (nextSequenceRecvPath portId channelId) nextSequenceRecvValue tree2) (\<lambda>(ss3, tree3).
     bindE (siblings_then_set sha (nextSequenceAckPath portId channelId) nextSequenceAckValue tree3) (\<lambda>(ss4, tree4).
     bindE (getRoot sha tree4) (\<lambda>(r, tree5).
     Inr (\<lparr>newRoot = r, speculativeTree = tree5, channelSiblings = ss1, nextSequenceSendSiblings = ss2,
           nextSequenceRecvSiblings = ss3, nextSequenceAckSiblings = ss4\<rparr>, m')))))))"

definition computeRootWithUpdateChannelUpdate :: "hash_fun \<Rightarrow> string \<Rightarrow> string \<Rightarrow> string \<Rightarrow> buffer \<Rightarrow> tree_module \<Rightarrow>
    (channel_result \<times> tree_module) result" where
  "computeRootWithUpdateChannelUpdate sha oldRoot portId channelId channelValue m =
     bindE (getClonedTreeFromRoot sha oldRoot m) (\<lambda>(tree, m').
     bindE (siblings_then_set sha (channelEndPath portId channelId) channelValue tree) (\<lambda>(ss, tree1).
     bindE (getRoot sha tree1) (\<lambda>(r, tree2).
     Inr (\<lparr>newRoot = r, speculativeTree = tree2, channelSiblings = ss\<rparr>, m'))))"

definition computeRootWithConnectionUpdate :: "hash_fun \<Rightarrow> string \<Rightarrow> string \<Rightarrow> js_value \<Rightarrow> tree_module \<Rightarrow>
    (state_root_result \<times> tree_module) result" where
  "computeRootWithConnectionUpdate sha oldRoot connectionId connectionState m =
     bindE (getClonedTreeFromRoot sha oldRoot m) (\<lambda>(tree, m').
     bindE (serializeValue connectionState) (\<lambda>value.
     bindE (getRoot sha (set_leaf (connectionPath connectionId) (Bytes value) tree)) (\<lambda>(r, tree1).
     Inr (\<lparr>newRoot = r, speculativeTree = tree1\<rparr>, m'))))"

definition computeRootWithChannelUpdate :: "hash_fun \<Rightarrow> string \<Rightarrow> string \<Rightarrow> js_value \<Rightarrow> tree_module \<Rightarrow>
    (state_root_result \<times> tree_module) result" where
  "computeRootWithChannelUpdate sha oldRoot channelId channelState m =
     bindE (getClonedTreeFromRoot sha oldRoot m) (\<lambda>(tree, m').
     let p = js_field channelState ''port_id'';
         portId = (if js_truthy p then js_to_string p else ''transfer'') in
     bindE (serializeValue channelState) (\<lambda>value.
     bindE (getRoot sha (set_leaf (channelEndPath portId channelId) (Bytes value) tree)) (\<lambda>(r, tree1).
     Inr (\<lparr>newRoot = r, speculativeTree = tree1\<rparr>, m'))))"

definition computeRootWithPortBind :: "hash_fun \<Rightarrow> string \<Rightarrow> string \<Rightarrow> buffer \<Rightarrow> tree_module \<Rightarrow>
    (port_result \<times> tree_module) result" where
  "computeRootWithPortBind sha oldRoot portId portValue m =
     bindE (getClonedTreeFromRoot sha oldRoot m) (\<lambda>(tree, m').
     bindE (siblings_then_set sha (portPath portId) portValue tree) (\<lambda>(ss, tree1).
     bindE (getRoot sha tree1) (\<lambda>(r, tree2).
     Inr (\<lparr>newRoot = r, speculativeTree = tree2, portSiblings = ss\<rparr>, m'))))"



subsection \<open>Packets\<close>

text \<open>
  The encoders of \<open>@lucid-evolution/lucid\<close> that the packet updates and the rebuild call; each
  returns hexadecimal text.
\<close>

record ('reg, 'cs, 'cons, 'conn) codec =
  encodeModuleRegistration :: "'reg \<Rightarrow> string"
  encodeClientStateValue :: "'cs \<Rightarrow> string"
  encodeConsensusStateValue :: "'cons \<Rightarrow> string"
  encodeConnectionEndValue :: "'conn \<Rightarrow> string"
  encodeChannelEndValue :: "channel \<Rightarrow> string"
  dataToInteger :: "nat \<Rightarrow> string"
  dataToBytes :: "string \<Rightarrow> string"

definition encodePacketStoreValue :: "('reg, 'cs, 'cons, 'conn) codec \<Rightarrow> string \<Rightarrow> buffer" where
  "encodePacketStoreValue codec bytesHex = from_hex (dataToBytes codec bytesHex)"

definition when_changed :: "bool \<Rightarrow> (merkle_tree \<Rightarrow> (string list \<times> merkle_tree) result) \<Rightarrow> merkle_tree \<Rightarrow>
    (string list \<times> merkle_tree) result" where
  "when_changed c f tree = (if c then f tree else Inr ([], tree))"

definition entries_not_in :: "(nat, string) jsmap \<Rightarrow> (nat, string) jsmap \<Rightarrow> (nat, string) jsmap" where
  "entries_not_in other m = filter (\<lambda>(seq, v). \<not> js_has other seq) m"

definition commitment_update :: "hash_fun \<Rightarrow> ('reg, 'cs, 'cons, 'conn) codec \<Rightarrow> string \<Rightarrow> string \<Rightarrow>
    (nat, string) jsmap \<Rightarrow> (nat, string) jsmap \<Rightarrow> merkle_tree \<Rightarrow> (string list \<times> merkle_tree) result" where
  "commitment_update sha codec portId channelId inputs outputs tree =
     (let inserted = entries_not_in inputs outputs; removed = entries_not_in outputs inputs in
      if length inserted > 0
      then if length removed \<noteq> 0 \<or> length inserted \<noteq> 1
        then Inl (Error (''HandlePacket root update expects exactly one commitment insertion and no deletions; got '' @
               dec_string (length inserted) @ '' insertions and '' @ dec_string (length removed) @ '' deletions''))
        else let (sequence, commitmentBytes) = inserted ! 0 in
             siblings_then_set sha (commitmentPath portId channelId sequence) (encodePacketStoreValue codec commitmentBytes) tree
      else if length removed > 0
      then if length removed \<noteq> 1
        then Inl (Error (''HandlePacket root update expects exactly one commitment deletion; got '' @
               dec_string (length removed)))
        else let (sequence, _) = removed ! 0 in
             siblings_then_set sha (commitmentPath portId channelId sequence) [] tree
      else Inr ([], tree))"

definition receipt_update :: "hash_fun \<Rightarrow> ('reg, 'cs, 'cons, 'conn) codec \<Rightarrow> string \<Rightarrow> string \<Rightarrow>
    (nat, string) jsmap \<Rightarrow> (nat, string) jsmap \<Rightarrow> merkle_tree \<Rightarrow> (string list \<times> merkle_tree) result" where
  "receipt_update sha codec portId channelId inputs outputs tree =
     (let inserted = entries_not_in inputs outputs; removed = entries_not_in outputs inputs in
      if length inserted > 0
      then if length removed \<noteq> 0 \<or> length inserted \<noteq> 1
        then Inl (Error (''HandlePacket root update expects receipts to only ever insert a single entry; got '' @
               dec_string (length inserted) @ '' insertions and '' @ dec_string (length removed) @ '' deletions''))
        else let (sequence, receiptBytes) = inserted ! 0 in
             siblings_then_set sha (receiptPath portId channelId sequence) (encodePacketStoreValue codec receiptBytes) tree
      else if length removed > 0
      then Inl (Error ''HandlePacket root update does not allow receipt deletions'')
      else Inr ([], tree))"

definition acknowledgement_update :: "hash_fun \<Rightarrow> ('reg, 'cs, 'cons, 'conn) codec \<Rightarrow> string \<Rightarrow> string \<Rightarrow>
    (nat, string) jsmap \<Rightarrow> (nat, string) jsmap \<Rightarrow> merkle_tree \<Rightarrow> (string list \<times> merkle_tree) result" where
  "acknowledgement_update sha codec portId channelId inputs outputs tree =
     (let inserted = entries_not_in inputs outputs; removed = entries_not_in outputs inputs in
      if length inserted > 0
      then if length removed \<noteq> 0 \<or> length inserted \<noteq> 1
        then Inl (Error (''HandlePacket root update expects acknowledgements to only ever insert a single entry; got '' @
               dec_string (length inserted) @ '' insertions and '' @ dec_string (length removed) @ '' deletions''))
        else let (sequence, ackBytes) = inserted ! 0 in
             siblings_then_set sha (acknowledgementPath portId channelId sequence) (encodePacketStoreValue codec ackBytes) tree
      else if length removed > 0
      then Inl (Error ''HandlePacket root update does not allow acknowledgement deletions'')
      else Inr ([], tree))"

definition computeRootWithHandlePacketUpdate :: "hash_fun \<Rightarrow> ('reg, 'cs, 'cons, 'conn) codec \<Rightarrow> string \<Rightarrow> string \<Rightarrow> string \<Rightarrow>
    channel_datum \<Rightarrow> channel_datum \<Rightarrow> tree_module \<Rightarrow> (handle_packet_result \<times> tree_module) result" where
  "computeRootWithHandlePacketUpdate sha codec oldRoot portId channelId inputDatum outputDatum m =
     bindE (getClonedTreeFromRoot sha oldRoot m) (\<lambda>(tree, m').
     let i = state inputDatum; out = state outputDatum in
     bindE (when_changed (\<not> same_object (channel i) (channel out))
       (siblings_then_set sha (channelEndPath portId channelId)
          (from_hex (encodeChannelEndValue codec (contents (channel out))))) tree) (\<lambda>(ss1, tree1).
     bindE (when_changed (next_sequence_send i \<noteq> next_sequence_send out)
       (siblings_then_set sha (nextSequenceSendPath portId channelId)
          (from_hex (dataToInteger codec (next_sequence_send out)))) tree1) (\<lambda>(ss2, tree2).
     bindE (when_changed (next_sequence_recv i \<noteq> next_sequence_recv out)
       (siblings_then_set sha (nextSequenceRecvPath portId channelId)
          (from_hex (dataToInteger codec (next_sequence_recv out)))) tree2) (\<lambda>(ss3, tree3).
     bindE (when_changed (next_sequence_ack i \<noteq> next_sequence_ack out)
       (siblings_then_set sha (nextSequenceAckPath portId channelId)
          (from_hex (dataToInteger codec (next_sequence_ack out)))) tree3) (\<lambda>(ss4, tree4).
     bindE (commitment_update sha codec portId channelId (packet_commitment i) (packet_commitment out) tree4) (\<lambda>(ss5, tree5).
     bindE (receipt_update sha codec portId channelId (packet_receipt i) (packet_receipt out) tree5) (\<lambda>(ss6, tree6).
     bindE (acknowledgement_update sha codec portId channelId (packet_acknowledgement i)
              (packet_acknowledgement out) tree6) (\<lambda>(ss7, tree7).
     bindE (getRoot sha tree7) (\<lambda>(r, tree8).
     Inr (\<lparr>newRoot = r, speculativeTree = tree8, channelSiblings = ss1, nextSequenceSendSiblings = ss2,
           nextSequenceRecvSiblings = ss3, nextSequenceAckSiblings = ss4, packetCommitmentSiblings = ss5,
           packetReceiptSiblings = ss6, packetAcknowledgementSiblings = ss7\<rparr>, m'))))))))))"

definition computeRootWithPrunePacketHistoryUpdate :: "hash_fun \<Rightarrow> string \<Rightarrow> string \<Rightarrow> string \<Rightarrow> nat \<Rightarrow> tree_module \<Rightarrow>
    (prune_result \<times> tree_module) result" where
  "computeRootWithPrunePacketHistoryUpdate sha oldRoot portId channelId sequence m =
     bindE (getClonedTreeFromRoot sha oldRoot m) (\<lambda>(tree, m').
     let rp = receiptPath portId channelId sequence; ap = acknowledgementPath portId channelId sequence in
     if get_leaf tree rp = None
     then Inl (Error (''PrunePacketHistory expects an existing receipt at '' @ CHR 0x27 # rp @ [CHR 0x27]))
     else if get_leaf tree ap = None
     then Inl (Error (''PrunePacketHistory expects an existing acknowledgement at '' @ CHR 0x27 # ap @ [CHR 0x27]))
     else
     bindE (siblings_then_set sha rp [] tree) (\<lambda>(ss1, tree1).
     bindE (siblings_then_set sha ap [] tree1) (\<lambda>(ss2, tree2).
     bindE (getRoot sha tree2) (\<lambda>(r, tree3).
     Inr (\<lparr>newRoot = r, speculativeTree = tree3, pruneReceiptSiblings = ss1, pruneAcknowledgementSiblings = ss2\<rparr>, m')))))"

end
