(* ===== verification/State_Root_Replay.thy ===== *)
theory State_Root_Replay
  imports State_Root
begin

section \<open>The computed roots are the roots the validator expects\<close>

text \<open>
  For every \<open>computeRootWith...\<close> function that returns a witness: if the in-memory tree is the
  tree the old root commits to, the function succeeds, leaves the current tree's contents alone,
  and the validator's root check of the same operation, run on the returned siblings, arrives at
  exactly the returned root. Everything rests on \<open>gw.replay\<close>, the client lemma of the interface
  \<open>commitment_tree\<close>.
\<close>

definition synced :: "hash_fun \<Rightarrow> string set \<Rightarrow> string \<Rightarrow> tree_module \<Rightarrow> bool" where
  "synced sha K oldRoot m =
     (tree_ok sha K (currentTree m) \<and> oldRoot = to_hex (tree_root sha (leaves (currentTree m))) \<and>
      (oldRoot = zeroRoot \<longrightarrow> leaves (currentTree m) = []))"

lemma from_hex_zeroRoot: "from_hex zeroRoot = EMPTY_HASH"
  using from_hex_to_hex [of EMPTY_HASH] to_hex_replicate_zero [of 32] by (simp add: zeroRoot_def EMPTY_HASH_def)

lemma value_or_empty_store:
  "leaves t' = store_leaf p v (leaves t) \<Longrightarrow> value_or_empty t' = (value_or_empty t)(p := v)"
  by (auto simp: value_or_empty_def get_leaf_def gw.lookup_store fun_eq_iff)

lemma value_or_empty_leaves: "leaves t' = leaves t \<Longrightarrow> value_or_empty t' = value_or_empty t"
  by (simp add: value_or_empty_def get_leaf_def fun_eq_iff)

text \<open>
  The three ingredients of every computation: the clone it starts from, a witnessed update, and
  the root at the end, each with what it means for the validator.
\<close>

definition starts :: "hash_fun \<Rightarrow> string set \<Rightarrow> string \<Rightarrow> tree_module \<Rightarrow> merkle_tree \<Rightarrow> tree_module \<Rightarrow> bool" where
  "starts sha K oldRoot m t m' =
     (getClonedTreeFromRoot sha oldRoot m = Inr (t, m') \<and> tree_ok sha K t \<and>
      get_leaf t = get_leaf (currentTree m) \<and> value_or_empty t = value_or_empty (currentTree m) \<and>
      from_hex oldRoot = tree_root sha (leaves t) \<and> leaves (currentTree m') = leaves (currentTree m))"

definition step :: "hash_fun \<Rightarrow> string set \<Rightarrow> string \<Rightarrow> buffer \<Rightarrow> merkle_tree \<Rightarrow> buffer list \<Rightarrow> merkle_tree \<Rightarrow> bool" where
  "step sha K p v t ss t' =
     (siblings_then_set sha p v t = Inr (map to_hex ss, t') \<and> tree_ok sha K t' \<and>
      get_leaf t' = (get_leaf t)(p := (if v = [] then None else Some v)) \<and>
      value_or_empty t' = (value_or_empty t)(p := v) \<and>
      apply_update sha (tree_root sha (leaves t)) (utf8 p) (value_or_empty t p) v ss =
        Inr (tree_root sha (leaves t')))"

definition finishes :: "hash_fun \<Rightarrow> merkle_tree \<Rightarrow> string \<Rightarrow> merkle_tree \<Rightarrow> bool" where
  "finishes sha t r u =
     (getRoot sha t = Inr (r, u) \<and> from_hex r = tree_root sha (leaves t) \<and> leaves u = leaves t)"

lemma starts_ex:
  assumes "synced sha K oldRoot m"
  shows "\<exists>t m'. starts sha K oldRoot m t m'"
proof -
  from assms have ok: "tree_ok sha K (currentTree m)"
    and root: "oldRoot = to_hex (tree_root sha (leaves (currentTree m)))"
    by (auto simp: synced_def)
  show ?thesis
  proof (cases "oldRoot = zeroRoot")
    case True
    then have "leaves (currentTree m) = []" using assms by (simp add: synced_def)
    with True ok have "starts sha K oldRoot m new_tree m"
      by (auto simp: starts_def getClonedTreeFromRoot_def from_hex_zeroRoot tree_root_empty tree_ok_def new_tree_def
          cache_ok_def leaves_wf_def get_leaf_def value_or_empty_def fun_eq_iff)
    then show ?thesis by blast
  next
    case False
    obtain t where t: "getRoot sha (currentTree m) = Inr (oldRoot, t)"
      "leaves t = leaves (currentTree m)" "tree_ok sha K t"
      using gw.root_of_ok [OF ok] root by auto
    have "leaves (clone t) = leaves t" using t(3) by (simp add: leaves_clone tree_ok_def)
    with t False root have "starts sha K oldRoot m (clone t) (m\<lparr>currentTree := t\<rparr>)"
      by (simp add: starts_def getClonedTreeFromRoot_def tree_ok_clone from_hex_to_hex get_leaf_def
          value_or_empty_def fun_eq_iff)
    then show ?thesis by blast
  qed
qed

lemma step_ex:
  assumes "sha256_spec sha" "tree_ok sha K t" "p \<in> K"
    and "commits_value sha (value_or_empty t p)" "commits_value sha v"
  shows "\<exists>ss t'. step sha K p v t ss t'"
proof -
  obtain u where u: "getSiblings sha p t = Inr (tree_siblings sha p (leaves t), u)"
    "leaves u = leaves t" "tree_ok sha K u" using gw.siblings_of_ok [OF assms(2)] by blast
  let ?t = "put_bytes p v u"
  have ls: "leaves ?t = store_leaf p v (leaves t)" by (simp add: gw.put_view u)
  have "siblings_then_set sha p v t = Inr (map to_hex (tree_siblings sha p (leaves t)), ?t)"
    by (simp add: siblings_then_set_def u put_bytes_def)
  moreover have "apply_update sha (tree_root sha (leaves t)) (utf8 p) (value_or_empty t p) v
      (tree_siblings sha p (leaves t)) = Inr (tree_root sha (leaves ?t))"
    unfolding ls by (rule gw.replay [OF assms(1-3) _ assms(4,5)]) (simp add: value_or_empty_def get_leaf_def)
  moreover have "get_leaf ?t = (get_leaf t)(p := (if v = [] then None else Some v))"
    by (simp add: get_leaf_def ls gw.lookup_store fun_eq_iff)
  ultimately have "step sha K p v t (tree_siblings sha p (leaves t)) ?t"
    using gw.ok_put [OF u(3) assms(3)] value_or_empty_store [OF ls] by (simp add: step_def)
  then show ?thesis by blast
qed

lemma finishes_ex: "tree_ok sha K t \<Longrightarrow> \<exists>r u. finishes sha t r u"
  using gw.root_of_ok [of sha K t] by (fastforce simp: finishes_def from_hex_to_hex)

lemma step_finishes: "step sha K p v t ss t' \<Longrightarrow> \<exists>r u. finishes sha t' r u"
  using finishes_ex [of sha K t'] by (simp add: step_def)

lemma step_step:
  assumes "sha256_spec sha" "step sha K p v t ss t1" "q \<in> K"
    and "commits_value sha (value_or_empty t1 q)" "commits_value sha w"
  shows "\<exists>ss t'. step sha K q w t1 ss t'"
  using assms by (intro step_ex) (simp_all add: step_def)

lemmas run_defs = starts_def step_def finishes_def

lemma map_from_to_hex [simp]: "map (from_hex \<circ> to_hex) ss = ss"
  by (simp add: comp_def from_hex_to_hex)

lemma commits_empty [simp]: "commits_value sha []"
  by (simp add: commits_value_def)

lemma absent_value: "get_leaf t p = None \<Longrightarrow> value_or_empty t p = []"
  by (simp add: value_or_empty_def)

lemma client_paths_differ [simp]:
  "clientStatePath c \<noteq> consensusStatePath c h" "consensusStatePath c h \<noteq> clientStatePath c"
  by (simp_all add: path_defs)

lemma channel_paths_differ [simp]:
  "channelEndPath p c \<noteq> nextSequenceSendPath p c" "channelEndPath p c \<noteq> nextSequenceRecvPath p c"
  "channelEndPath p c \<noteq> nextSequenceAckPath p c" "nextSequenceSendPath p c \<noteq> nextSequenceRecvPath p c"
  "nextSequenceSendPath p c \<noteq> nextSequenceAckPath p c" "nextSequenceRecvPath p c \<noteq> nextSequenceAckPath p c"
  "commitmentPath p c n \<noteq> nextSequenceSendPath p c" "commitmentPath p c n \<noteq> nextSequenceAckPath p c"
  "commitmentPath p c n \<noteq> channelEndPath p c" "acknowledgementPath p c n \<noteq> nextSequenceRecvPath p c"
  "acknowledgementPath p c n \<noteq> receiptPath p c n" "receiptPath p c n \<noteq> nextSequenceRecvPath p c"
  by (simp_all add: path_defs)

lemmas channel_paths_differ_sym [simp] = channel_paths_differ [symmetric]

text \<open>The empty module is in sync with the zero root.\<close>

lemma synced_empty:
  "inj_on (keyIndex64 sha) K \<Longrightarrow> leaves (currentTree m) = [] \<Longrightarrow> cache_ok sha (currentTree m) \<Longrightarrow> synced sha K zeroRoot m"
  using to_hex_replicate_zero [of 32]
  by (simp add: synced_def tree_ok_def leaves_wf_def tree_root_empty EMPTY_HASH_def zeroRoot_def)

text \<open>With a hash that is never zero, every non-empty tree is in sync with its root.\<close>

lemma tree_root_nonzero:
  assumes "tree_ok sha K t" "\<And>x. sha x \<noteq> EMPTY_HASH" "leaves t \<noteq> []"
  shows "tree_root sha (leaves t) \<noteq> EMPTY_HASH"
proof -
  obtain k v ls where ls: "leaves t = (k, v) # ls" using assms(3) by (cases "leaves t") auto
  then have ok: "tree_ok sha {k} t" and v: "v \<noteq> []"
    using assms(1) by (auto simp: tree_ok_def leaves_wf_def inj_on_Un)
  have "tree_root sha (leaves t) = climb sha (keyIndex64 sha k) (leafHash sha k v) (tree_siblings sha k (leaves t))"
    using gw.digest_climb [OF ok, of k] ls by simp
  then show ?thesis using climb_nonzero [of sha] leafHash_nonzero [of sha] assms(2) v by simp
qed

lemma synced_root:
  assumes "tree_ok sha K t" "\<And>x. sha x \<noteq> EMPTY_HASH" "leaves t \<noteq> []"
  shows "synced sha K (to_hex (tree_root sha (leaves t))) \<lparr>currentTree = t, cachedKupoService = b, cachedLucidService = c\<rparr>"
proof -
  have "to_hex (tree_root sha (leaves t)) \<noteq> zeroRoot"
    using tree_root_nonzero [OF assms] from_hex_zeroRoot from_hex_to_hex by metis
  with assms(1) show ?thesis by (simp add: synced_def)
qed

lemma cache_ok_new [simp]: "cache_ok sha new_tree" "leaves new_tree = []"
  by (simp_all add: cache_ok_def new_tree_def)

text \<open>
  C13. CreateClient: the root and the two sibling lists that the gateway computes for a new client
  pass the validator's check for CreateClient, and computing them does not change the contents of
  the current tree.
\<close>

theorem create_client_refines_validator:
  assumes "sha256_spec sha"
    and "synced sha {clientStatePath clientId, consensusStatePath clientId h} oldRoot m"
    and "get_leaf (currentTree m) (clientStatePath clientId) = None"
    and "get_leaf (currentTree m) (consensusStatePath clientId h) = None"
    and "commits_value sha clientValue" and "commits_value sha consensusValue"
  shows "\<exists>r m'. computeRootWithCreateClientUpdate sha oldRoot clientId clientValue consensusValue h m = Inr (r, m') \<and>
    create_client_root sha (from_hex oldRoot) clientId h clientValue consensusValue
      (map from_hex (clientStateSiblings r)) (map from_hex (consensusStateSiblings r)) = Inr (from_hex (newRoot r)) \<and>
    leaves (currentTree m') = leaves (currentTree m)"
proof -
  let ?p = "clientStatePath clientId" and ?q = "consensusStatePath clientId h"
  obtain t m' where t: "starts sha {?p, ?q} oldRoot m t m'" using starts_ex [OF assms(2)] by blast
  then have old: "value_or_empty t ?p = []" "value_or_empty t ?q = []"
    using assms(3,4) by (simp_all add: starts_def absent_value)
  obtain s1 t1 where 1: "step sha {?p, ?q} ?p clientValue t s1 t1"
    using step_ex [OF assms(1), of "{?p, ?q}" t ?p clientValue] t old assms(5) by (auto simp: starts_def)
  obtain s2 t2 where 2: "step sha {?p, ?q} ?q consensusValue t1 s2 t2"
    using step_step [OF assms(1) 1, of ?q consensusValue] 1 old assms(6) by (auto simp: step_def)
  obtain r u where "finishes sha t2 r u" using step_finishes [OF 2] by blast
  with t 1 2 old show ?thesis
    by (simp add: computeRootWithCreateClientUpdate_def create_client_root_def run_defs)
qed

theorem create_client_refines_validator_witness:
  "\<exists>r m'. computeRootWithCreateClientUpdate tail_hash zeroRoot ''07-tendermint-0'' [1] [2] ''10''
      \<lparr>currentTree = new_tree, cachedKupoService = True, cachedLucidService = True\<rparr> = Inr (r, m') \<and>
    create_client_root tail_hash (from_hex zeroRoot) ''07-tendermint-0'' ''10'' [1] [2]
      (map from_hex (clientStateSiblings r)) (map from_hex (consensusStateSiblings r)) = Inr (from_hex (newRoot r)) \<and>
    leaves (currentTree m') = []"
proof -
  let ?m = "\<lparr>currentTree = new_tree, cachedKupoService = True, cachedLucidService = True\<rparr>"
  let ?p = "clientStatePath ''07-tendermint-0''" and ?q = "consensusStatePath ''07-tendermint-0'' ''10''"
  have "inj_on (keyIndex64 tail_hash) (set [?p, ?q])"
    by (rule inj_on_keyIndex64_list [OF tail_hash_hash32]) code_simp
  then have sync: "synced tail_hash {?p, ?q} zeroRoot ?m" by (intro synced_empty) simp_all
  show ?thesis
    using create_client_refines_validator [OF tail_hash_spec sync _ _ tail_hash_commits tail_hash_commits, of "[1]" "[2]"]
    by (simp add: get_leaf_def new_tree_def)
qed

subsection \<open>Single updates\<close>

text \<open>
  The functions that touch one key differ only in the key; the three operations below are
  instances of one lemma.
\<close>

lemma single_update:
  assumes "sha256_spec sha" "synced sha {p} oldRoot m"
    and "commits_value sha (value_or_empty (currentTree m) p)" "commits_value sha v"
  shows "\<exists>t m' ss t' r u. starts sha {p} oldRoot m t m' \<and> step sha {p} p v t ss t' \<and> finishes sha t' r u \<and>
    apply_update sha (from_hex oldRoot) (utf8 p) (value_or_empty (currentTree m) p) v ss = Inr (from_hex r)"
proof -
  obtain t m' where t: "starts sha {p} oldRoot m t m'" using starts_ex [OF assms(2)] by blast
  obtain ss t' where s: "step sha {p} p v t ss t'"
    using step_ex [OF assms(1), of "{p}" t p v] t assms(3,4) by (auto simp: starts_def)
  obtain r u where "finishes sha t' r u" using step_finishes [OF s] by blast
  with t s show ?thesis by (fastforce simp: run_defs)
qed

lemma create_connection_refines_validator:
  assumes "sha256_spec sha" "synced sha {connectionPath c} oldRoot m"
    and "get_leaf (currentTree m) (connectionPath c) = None" "commits_value sha v"
  shows "\<exists>r m'. computeRootWithCreateConnectionUpdate sha oldRoot c v m = Inr (r, m') \<and>
    create_connection_root sha (from_hex oldRoot) c v (map from_hex (connectionSiblings r)) = Inr (from_hex (newRoot r)) \<and>
    leaves (currentTree m') = leaves (currentTree m)"
  using single_update [OF assms(1,2) _ assms(4)] absent_value [OF assms(3)]
  by (fastforce simp: computeRootWithCreateConnectionUpdate_def create_connection_root_def run_defs)

lemma bind_port_refines_validator:
  assumes "sha256_spec sha" "synced sha {portPath p} oldRoot m"
    and "get_leaf (currentTree m) (portPath p) = None" "commits_value sha v"
  shows "\<exists>r m'. computeRootWithPortBind sha oldRoot p v m = Inr (r, m') \<and>
    bind_port_root sha (from_hex oldRoot) p v (map from_hex (portSiblings r)) = Inr (from_hex (newRoot r)) \<and>
    leaves (currentTree m') = leaves (currentTree m)"
  using single_update [OF assms(1,2) _ assms(4)] absent_value [OF assms(3)]
  by (fastforce simp: computeRootWithPortBind_def bind_port_root_def run_defs)

lemma update_channel_refines_validator:
  assumes "sha256_spec sha" "synced sha {channelEndPath p c} oldRoot m"
    and "get_leaf (currentTree m) (channelEndPath p c) = Some old" "commits_value sha old" "commits_value sha v"
  shows "\<exists>r m'. computeRootWithUpdateChannelUpdate sha oldRoot p c v m = Inr (r, m') \<and>
    update_channel_root sha (from_hex oldRoot) p c old v (map from_hex (channelSiblings r)) = Inr (from_hex (newRoot r)) \<and>
    leaves (currentTree m') = leaves (currentTree m)"
proof -
  have "value_or_empty (currentTree m) (channelEndPath p c) = old" using assms(3) by (simp add: value_or_empty_def)
  with single_update [OF assms(1,2) _ assms(5)] assms(4) show ?thesis
    by (fastforce simp: computeRootWithUpdateChannelUpdate_def update_channel_root_def run_defs)
qed

subsection \<open>Channels\<close>

text \<open>
  C14. CreateChannel: the root and the four sibling lists (channel end and the three sequence
  counters) that the gateway computes for a new channel pass the validator's check, in the
  validator's order of updates.
\<close>

theorem create_channel_refines_validator:
  assumes "sha256_spec sha"
    and "synced sha {channelEndPath p c, nextSequenceSendPath p c, nextSequenceRecvPath p c, nextSequenceAckPath p c} oldRoot m"
    and "\<And>q. q \<in> {channelEndPath p c, nextSequenceSendPath p c, nextSequenceRecvPath p c, nextSequenceAckPath p c} \<Longrightarrow>
      get_leaf (currentTree m) q = None"
    and "commits_value sha v1" "commits_value sha v2" "commits_value sha v3" "commits_value sha v4"
  shows "\<exists>r m'. computeRootWithCreateChannelUpdate sha oldRoot p c v1 v2 v3 v4 m = Inr (r, m') \<and>
    create_channel_root sha (from_hex oldRoot) p c v1 v2 v3 v4 (map from_hex (channelSiblings r))
      (map from_hex (nextSequenceSendSiblings r)) (map from_hex (nextSequenceRecvSiblings r))
      (map from_hex (nextSequenceAckSiblings r)) = Inr (from_hex (newRoot r)) \<and>
    leaves (currentTree m') = leaves (currentTree m)"
proof -
  let ?p1 = "channelEndPath p c" and ?p2 = "nextSequenceSendPath p c"
    and ?p3 = "nextSequenceRecvPath p c" and ?p4 = "nextSequenceAckPath p c"
  let ?K = "{?p1, ?p2, ?p3, ?p4}"
  obtain t m' where t: "starts sha ?K oldRoot m t m'" using starts_ex [OF assms(2)] by blast
  then have old: "value_or_empty t ?p1 = []" "value_or_empty t ?p2 = []" "value_or_empty t ?p3 = []" "value_or_empty t ?p4 = []"
    using assms(3) by (simp_all add: starts_def absent_value)
  obtain s1 t1 where 1: "step sha ?K ?p1 v1 t s1 t1"
    using step_ex [OF assms(1), of ?K t ?p1 v1] t old assms(4) by (auto simp: starts_def)
  obtain s2 t2 where 2: "step sha ?K ?p2 v2 t1 s2 t2"
    using step_step [OF assms(1) 1, of ?p2 v2] 1 old assms(5) by (auto simp: step_def)
  obtain s3 t3 where 3: "step sha ?K ?p3 v3 t2 s3 t3"
    using step_step [OF assms(1) 2, of ?p3 v3] 1 2 old assms(6) by (auto simp: step_def)
  obtain s4 t4 where 4: "step sha ?K ?p4 v4 t3 s4 t4"
    using step_step [OF assms(1) 3, of ?p4 v4] 1 2 3 old assms(7) by (auto simp: step_def)
  obtain r u where "finishes sha t4 r u" using step_finishes [OF 4] by blast
  with t 1 2 3 4 old show ?thesis
    by (simp add: computeRootWithCreateChannelUpdate_def create_channel_root_def run_defs)
qed

theorem create_channel_refines_validator_witness:
  "\<exists>r m'. computeRootWithCreateChannelUpdate tail_hash zeroRoot ''transfer'' ''channel-0'' [1] [2] [3] [4]
      \<lparr>currentTree = new_tree, cachedKupoService = True, cachedLucidService = True\<rparr> = Inr (r, m') \<and>
    create_channel_root tail_hash (from_hex zeroRoot) ''transfer'' ''channel-0'' [1] [2] [3] [4]
      (map from_hex (channelSiblings r)) (map from_hex (nextSequenceSendSiblings r))
      (map from_hex (nextSequenceRecvSiblings r)) (map from_hex (nextSequenceAckSiblings r)) = Inr (from_hex (newRoot r))"
proof -
  let ?m = "\<lparr>currentTree = new_tree, cachedKupoService = True, cachedLucidService = True\<rparr>"
  let ?p1 = "channelEndPath ''transfer'' ''channel-0''" and ?p2 = "nextSequenceSendPath ''transfer'' ''channel-0''"
    and ?p3 = "nextSequenceRecvPath ''transfer'' ''channel-0''" and ?p4 = "nextSequenceAckPath ''transfer'' ''channel-0''"
  have "inj_on (keyIndex64 tail_hash) (set [?p1, ?p2, ?p3, ?p4])"
    by (rule inj_on_keyIndex64_list [OF tail_hash_hash32]) code_simp
  then have "synced tail_hash {?p1, ?p2, ?p3, ?p4} zeroRoot ?m" by (intro synced_empty) simp_all
  from create_channel_refines_validator [OF tail_hash_spec this _ tail_hash_commits tail_hash_commits
      tail_hash_commits tail_hash_commits, of "[1]" "[2]" "[3]" "[4]"]
  show ?thesis by (auto simp: get_leaf_def)
qed

subsection \<open>Client updates\<close>

lemma consensusStatePath_inj [simp]: "consensusStatePath c h = consensusStatePath c k \<longleftrightarrow> h = k"
  by (simp add: path_defs)

lemma remove_consensus_states_ok:
  assumes "sha256_spec sha" "tree_ok sha K t" "consensusStatePath c ` set hs \<subseteq> K" "distinct hs"
    and "\<And>h. h \<in> set hs \<Longrightarrow> get_leaf t (consensusStatePath c h) \<noteq> None"
    and "\<And>h. h \<in> set hs \<Longrightarrow> commits_value sha (value_or_empty t (consensusStatePath c h))"
  shows "\<exists>sss t'. remove_consensus_states sha c hs t = Inr (map (map to_hex) sss, t') \<and> tree_ok sha K t' \<and>
    (\<forall>p. p \<notin> consensusStatePath c ` set hs \<longrightarrow> get_leaf t' p = get_leaf t p) \<and>
    apply_removed_consensus_state_updates sha (tree_root sha (leaves t)) c
      (map (\<lambda>h. (h, value_or_empty t (consensusStatePath c h))) hs) sss = Inr (tree_root sha (leaves t'))"
  using assms(2-6)
proof (induction hs arbitrary: t)
  case Nil
  then show ?case by (intro exI [of _ "[]"] exI [of _ t]) simp
next
  case (Cons h hs)
  let ?p = "consensusStatePath c h"
  obtain ss t1 where s: "step sha K ?p [] t ss t1"
    using step_ex [OF assms(1) Cons.prems(1), of ?p "[]"] Cons.prems(2,5) by auto
  have same: "get_leaf t1 (consensusStatePath c k) = get_leaf t (consensusStatePath c k)"
    "value_or_empty t1 (consensusStatePath c k) = value_or_empty t (consensusStatePath c k)" if "k \<in> set hs" for k
    using s that Cons.prems(3) by (auto simp: step_def)
  obtain sss t' where IH: "remove_consensus_states sha c hs t1 = Inr (map (map to_hex) sss, t')" "tree_ok sha K t'"
    "\<forall>p. p \<notin> consensusStatePath c ` set hs \<longrightarrow> get_leaf t' p = get_leaf t1 p"
    "apply_removed_consensus_state_updates sha (tree_root sha (leaves t1)) c
      (map (\<lambda>h. (h, value_or_empty t1 (consensusStatePath c h))) hs) sss = Inr (tree_root sha (leaves t'))"
    using Cons.IH [of t1] Cons.prems s same by (auto simp: step_def)
  have vals: "map (\<lambda>h. (h, value_or_empty t1 (consensusStatePath c h))) hs =
      map (\<lambda>h. (h, value_or_empty t (consensusStatePath c h))) hs" using same by simp
  show ?case
    using s IH(1-3) IH(4) [unfolded vals] Cons.prems(4) [of h]
    by (intro exI [of _ "ss # sss"] exI [of _ t']) (auto simp: step_def Let_def)
qed

text \<open>
  C15. UpdateClient: if the client exists, the pruned consensus states exist and the added one does
  not, the computed root and sibling lists pass the validator's check: the client state update,
  then the deletions in order, then the insertion.
\<close>

theorem update_client_refines_validator:
  fixes removed :: "string list" and c h :: string
  defines "K \<equiv> {clientStatePath c, consensusStatePath c h} \<union> consensusStatePath c ` set removed"
  assumes "sha256_spec sha" and "synced sha K oldRoot m" and "distinct removed" and "h \<notin> set removed"
    and "get_leaf (currentTree m) (clientStatePath c) = Some old"
    and "\<And>k. k \<in> set removed \<Longrightarrow> get_leaf (currentTree m) (consensusStatePath c k) = Some (oldConsensus k)"
    and "get_leaf (currentTree m) (consensusStatePath c h) = None"
    and "commits_value sha old" "commits_value sha v" "commits_value sha w"
    and "\<And>k. k \<in> set removed \<Longrightarrow> commits_value sha (oldConsensus k)"
  shows "\<exists>r m'. computeRootWithUpdateClientUpdate sha oldRoot c v removed (Some (h, w)) m = Inr (r, m') \<and>
    update_client_root sha (from_hex oldRoot) c old v (map (\<lambda>k. (k, oldConsensus k)) removed) [(h, w)]
      (map from_hex (clientStateSiblings r)) (map from_hex (consensusStateSiblings r))
      (map (map from_hex) (removedConsensusStateSiblings r)) = Inr (from_hex (newRoot r)) \<and>
    leaves (currentTree m') = leaves (currentTree m)"
proof -
  let ?p = "clientStatePath c" and ?q = "consensusStatePath c h"
  obtain t m' where t: "starts sha K oldRoot m t m'" using starts_ex [OF assms(3)] by blast
  then have old: "get_leaf t ?p = Some old" "value_or_empty t ?p = old" "get_leaf t ?q = None"
    using assms(6,8) by (simp_all add: starts_def value_or_empty_def)
  obtain s1 t1 where 1: "step sha K ?p v t s1 t1"
    using step_ex [OF assms(2), of K t ?p v] t old assms(9,10) by (auto simp: starts_def K_def)
  have cons: "get_leaf t1 (consensusStatePath c k) = Some (oldConsensus k)"
    "value_or_empty t1 (consensusStatePath c k) = oldConsensus k" if "k \<in> set removed" for k
    using 1 t assms(7) [OF that] by (simp_all add: step_def starts_def value_or_empty_def)
  obtain sss t2 where 2: "remove_consensus_states sha c removed t1 = Inr (map (map to_hex) sss, t2)" "tree_ok sha K t2"
    "\<forall>p. p \<notin> consensusStatePath c ` set removed \<longrightarrow> get_leaf t2 p = get_leaf t1 p"
    "apply_removed_consensus_state_updates sha (tree_root sha (leaves t1)) c
      (map (\<lambda>h. (h, value_or_empty t1 (consensusStatePath c h))) removed) sss = Inr (tree_root sha (leaves t2))"
    using remove_consensus_states_ok [OF assms(2), of K t1 c removed] 1 assms(4,12) cons
    by (auto simp: step_def K_def)
  have vals: "map (\<lambda>h. (h, value_or_empty t1 (consensusStatePath c h))) removed = map (\<lambda>k. (k, oldConsensus k)) removed"
    using cons by simp
  have "?q \<notin> consensusStatePath c ` set removed" using assms(5) by auto
  with 2(3) 1 old have q: "get_leaf t2 ?q = None" by (simp add: step_def)
  obtain s3 t3 where 3: "step sha K ?q w t2 s3 t3"
    using step_ex [OF assms(2) 2(2), of ?q w] assms(11) absent_value [OF q] by (auto simp: K_def)
  obtain r u where "finishes sha t3 r u" using step_finishes [OF 3] by blast
  with t 1 2(1) 2(4) [unfolded vals] 3 old q absent_value [OF q] show ?thesis
    by (simp add: computeRootWithUpdateClientUpdate_def update_client_root_def add_consensus_state_def
        run_defs Let_def comp_def from_hex_to_hex)
qed

definition client_tree :: merkle_tree where
  "client_tree = set_leaf (consensusStatePath ''07-tendermint-0'' ''5'') (Bytes [2])
     (set_leaf (clientStatePath ''07-tendermint-0'') (Bytes [1]) new_tree)"

lemma client_tree_leaves: "leaves client_tree =
    [(clientStatePath ''07-tendermint-0'', [1]), (consensusStatePath ''07-tendermint-0'' ''5'', [2])]"
  by (simp add: client_tree_def set_leaf_def new_tree_def)

theorem update_client_refines_validator_witness:
  "\<exists>r m'. computeRootWithUpdateClientUpdate tail_hash (to_hex (tree_root tail_hash (leaves client_tree)))
      ''07-tendermint-0'' [7] [''5''] (Some (''6'', [8]))
      \<lparr>currentTree = client_tree, cachedKupoService = True, cachedLucidService = True\<rparr> = Inr (r, m') \<and>
    update_client_root tail_hash (tree_root tail_hash (leaves client_tree)) ''07-tendermint-0'' [1] [7] [(''5'', [2])] [(''6'', [8])]
      (map from_hex (clientStateSiblings r)) (map from_hex (consensusStateSiblings r))
      (map (map from_hex) (removedConsensusStateSiblings r)) = Inr (from_hex (newRoot r))"
proof -
  let ?c = "''07-tendermint-0''"
  let ?ps = "[clientStatePath ?c, consensusStatePath ?c ''6'', consensusStatePath ?c ''5'']"
  have "inj_on (keyIndex64 tail_hash) (set ?ps)"
    by (rule inj_on_keyIndex64_list [OF tail_hash_hash32]) code_simp
  then have "tree_ok tail_hash (set ?ps) client_tree"
    unfolding client_tree_def by (intro tree_ok_set_leaf tree_ok_new) simp_all
  from synced_root [OF this tail_hash_nonzero]
  have "synced tail_hash ({clientStatePath ?c, consensusStatePath ?c ''6''} \<union> consensusStatePath ?c ` set [''5''])
      (to_hex (tree_root tail_hash (leaves client_tree)))
      \<lparr>currentTree = client_tree, cachedKupoService = True, cachedLucidService = True\<rparr>"
    by (simp add: client_tree_leaves insert_commute)
  from update_client_refines_validator [OF tail_hash_spec this, of "[1]" "\<lambda>_. [2]" "[7]" "[8]"]
  show ?thesis
    by (auto simp: get_leaf_def client_tree_leaves tail_hash_commits from_hex_to_hex)
qed

end
