(* ===== verification/State_Root_Packets.thy ===== *)
theory State_Root_Packets
  imports State_Root_Replay
begin

section \<open>Packet operations and the validator\<close>

text \<open>
  \<open>computeRootWithHandlePacketUpdate\<close> finds out what an operation changed by comparing the
  channel datum before and after; the validator is told the operation by the redeemer. The
  theorems show, for send and prune, that the differences the gateway finds lead to the updates
  the validator applies, in the same order; \<open>Packet_Root\<close> treats receive, acknowledge and timeout.
\<close>

text \<open>A step of the packet update that changes nothing, and one that inserts or deletes a single entry.\<close>

lemma when_changed_False [simp]: "when_changed False f t = Inr ([], t)"
  and when_changed_True [simp]: "when_changed True f t = f t"
  by (simp_all add: when_changed_def)

lemma entries_not_in_self [simp]: "entries_not_in m m = []"
  by (force simp: entries_not_in_def js_has_def filter_empty_conv)

lemma entries_not_in_insert:
  assumes "distinct (map fst out)" "set out = insert (n, v) (set inp)" "\<not> js_has inp n"
  shows "entries_not_in inp out = [(n, v)]" "entries_not_in out inp = []"
proof -
  have "set (entries_not_in inp out) = {(n, v)}"
    using assms(2,3) by (force simp: entries_not_in_def js_has_def)
  moreover have "distinct (entries_not_in inp out)"
    using assms(1) by (simp add: entries_not_in_def distinct_map)
  ultimately show "entries_not_in inp out = [(n, v)]"
    by (cases "entries_not_in inp out" rule: remdups_adj.cases) auto
  show "entries_not_in out inp = []"
    using assms(2) by (force simp: entries_not_in_def js_has_def filter_empty_conv)
qed

lemma no_commitment_update [simp]: "commitment_update sha codec p c m m t = Inr ([], t)"
  and no_receipt_update [simp]: "receipt_update sha codec p c m m t = Inr ([], t)"
  and no_acknowledgement_update [simp]: "acknowledgement_update sha codec p c m m t = Inr ([], t)"
  by (simp_all add: commitment_update_def receipt_update_def acknowledgement_update_def)

lemma insert_commitment:
  assumes "entries_not_in i out = [(n, v)]" "entries_not_in out i = []"
  shows "commitment_update sha codec p c i out t =
      siblings_then_set sha (commitmentPath p c n) (encodePacketStoreValue codec v) t"
    "receipt_update sha codec p c i out t =
      siblings_then_set sha (receiptPath p c n) (encodePacketStoreValue codec v) t"
    "acknowledgement_update sha codec p c i out t =
      siblings_then_set sha (acknowledgementPath p c n) (encodePacketStoreValue codec v) t"
  using assms by (simp_all add: commitment_update_def receipt_update_def acknowledgement_update_def)

lemma delete_commitment:
  assumes "entries_not_in out i = [(n, v)]" "entries_not_in i out = []"
  shows "commitment_update sha codec p c i out t = siblings_then_set sha (commitmentPath p c n) [] t"
  using assms by (simp add: commitment_update_def)

text \<open>
  The channel datum agrees with the tree on the keys an operation reads.
\<close>

definition stores :: "tree_module \<Rightarrow> string \<Rightarrow> buffer \<Rightarrow> bool" where
  "stores m p v = (value_or_empty (currentTree m) p = v)"

text \<open>Data to apply the theorems to: an encoder, a channel and a tree that agree.\<close>

definition toy_codec :: "(unit, unit, unit, unit) codec" where
  "toy_codec = \<lparr>encodeModuleRegistration = \<lambda>_. ''01'', encodeClientStateValue = \<lambda>_. ''02'',
     encodeConsensusStateValue = \<lambda>_. ''03'', encodeConnectionEndValue = \<lambda>_. ''04'',
     encodeChannelEndValue = \<lambda>ch. if ch_state ch = Open then ''05'' else ''06'',
     dataToInteger = \<lambda>n. to_hex [word_of_nat n], dataToBytes = \<lambda>b. if b = [] then ''40'' else b\<rparr>"

definition toy_channel :: "order \<Rightarrow> channel_state \<Rightarrow> channel" where
  "toy_channel ord st = \<lparr>ch_state = st, ordering = ord, counterparty = \<lparr>port_id = ''port'', channel_id = ''channel-9''\<rparr>,
     connection_hops = [''connection-0''], version = ''ics20-1''\<rparr>"

definition toy_state :: channel_datum_state where
  "toy_state = \<lparr>channel = Obj 1 (toy_channel Unordered Open), next_sequence_send = 1, next_sequence_recv = 1,
     next_sequence_ack = 1, packet_commitment = [], packet_receipt = [], packet_acknowledgement = [],
     minimum_receive_proof_height = \<lparr>revisionNumber = 0, revisionHeight = 0\<rparr>,
     maximum_receive_proof_height = \<lparr>revisionNumber = 0, revisionHeight = 0\<rparr>\<rparr>"

definition toy_token :: auth_token where
  "toy_token = \<lparr>policyId = ''00'', name = ''00''\<rparr>"

definition send_tree :: merkle_tree where
  "send_tree = set_leaf (nextSequenceSendPath ''transfer'' ''channel-0'') (Bytes [1]) new_tree"

lemma send_tree_leaves: "leaves send_tree = [(nextSequenceSendPath ''transfer'' ''channel-0'', [1])]"
  by (simp add: send_tree_def set_leaf_def new_tree_def)

text \<open>
  C9. SendPacket: when the output datum advances \<open>next_sequence_send\<close> and adds one commitment,
  the computed root passes the validator's check for SendPacket, and the sibling lists for the
  parts that did not change are empty.
\<close>

theorem send_packet_refines_validator:
  assumes "sha256_spec sha"
    and "synced sha {nextSequenceSendPath p c, commitmentPath p c n} oldRoot m"
    and "out = i\<lparr>next_sequence_send := k, packet_commitment := cs\<rparr>" and "next_sequence_send i \<noteq> k"
    and "distinct (map fst cs)" "set cs = insert (n, bytes) (set (packet_commitment i))" "\<not> js_has (packet_commitment i) n"
    and "stores m (nextSequenceSendPath p c) old" "stores m (commitmentPath p c n) []"
    and "commits_value sha old" "commits_value sha (from_hex (dataToInteger codec k))"
    and "commits_value sha (encodePacketStoreValue codec bytes)"
  shows "\<exists>r m'. computeRootWithHandlePacketUpdate sha codec oldRoot p c
      \<lparr>state = i, port = x, token = tk\<rparr> \<lparr>state = out, port = x, token = tk\<rparr> m = Inr (r, m') \<and>
    send_packet_root sha (from_hex oldRoot) p c n old (from_hex (dataToInteger codec k))
      (encodePacketStoreValue codec bytes) (map from_hex (nextSequenceSendSiblings r))
      (map from_hex (packetCommitmentSiblings r)) = Inr (from_hex (newRoot r)) \<and>
    channelSiblings r = [] \<and> nextSequenceRecvSiblings r = [] \<and> nextSequenceAckSiblings r = [] \<and>
    packetReceiptSiblings r = [] \<and> packetAcknowledgementSiblings r = [] \<and>
    leaves (currentTree m') = leaves (currentTree m)"
proof -
  let ?p = "nextSequenceSendPath p c" and ?q = "commitmentPath p c n"
  let ?v = "from_hex (dataToInteger codec k)" and ?w = "encodePacketStoreValue codec bytes"
  obtain t m' where t: "starts sha {?p, ?q} oldRoot m t m'" using starts_ex [OF assms(2)] by blast
  then have old: "value_or_empty t ?p = old" "value_or_empty t ?q = []"
    using assms(8,9) by (simp_all add: starts_def stores_def)
  obtain s1 t1 where 1: "step sha {?p, ?q} ?p ?v t s1 t1"
    using step_ex [OF assms(1), of "{?p, ?q}" t ?p ?v] t old assms(10,11) by (auto simp: starts_def)
  obtain s2 t2 where 2: "step sha {?p, ?q} ?q ?w t1 s2 t2"
    using step_step [OF assms(1) 1, of ?q ?w] 1 old assms(12) by (auto simp: step_def)
  obtain r u where "finishes sha t2 r u" using step_finishes [OF 2] by blast
  with t 1 2 old assms(4) show ?thesis
    by (simp add: computeRootWithHandlePacketUpdate_def send_packet_root_def run_defs assms(3) same_object_def
        insert_commitment(1) [OF entries_not_in_insert [OF assms(5-7)]])
qed

theorem send_packet_refines_validator_witness:
  "\<exists>r m'. computeRootWithHandlePacketUpdate tail_hash toy_codec (to_hex (tree_root tail_hash (leaves send_tree)))
      ''transfer'' ''channel-0'' \<lparr>state = toy_state, port = [], token = toy_token\<rparr>
      \<lparr>state = toy_state\<lparr>next_sequence_send := 2, packet_commitment := [(1, ''ab'')]\<rparr>, port = [], token = toy_token\<rparr>
      \<lparr>currentTree = send_tree, cachedKupoService = True, cachedLucidService = True\<rparr> = Inr (r, m') \<and>
    send_packet_root tail_hash (tree_root tail_hash (leaves send_tree)) ''transfer'' ''channel-0'' 1 [1] [2] [0xAB]
      (map from_hex (nextSequenceSendSiblings r)) (map from_hex (packetCommitmentSiblings r)) = Inr (from_hex (newRoot r))"
proof -
  let ?p = "nextSequenceSendPath ''transfer'' ''channel-0''" and ?q = "commitmentPath ''transfer'' ''channel-0'' 1"
  let ?m = "\<lparr>currentTree = send_tree, cachedKupoService = True, cachedLucidService = True\<rparr>"
  have "inj_on (keyIndex64 tail_hash) (set [?p, ?q])"
    by (rule inj_on_keyIndex64_list [OF tail_hash_hash32]) code_simp
  then have "tree_ok tail_hash {?p, ?q} send_tree"
    unfolding send_tree_def by (intro tree_ok_set_leaf tree_ok_new) simp_all
  from synced_root [OF this tail_hash_nonzero]
  have "synced tail_hash {?p, ?q} (to_hex (tree_root tail_hash (leaves send_tree))) ?m"
    by (simp add: send_tree_leaves)
  moreover have "from_hex (dataToInteger toy_codec 2) = [2]" "encodePacketStoreValue toy_codec ''ab'' = [0xAB]"
    by code_simp+
  moreover have "stores ?m ?p [1]" "stores ?m ?q []"
    by (simp_all add: stores_def value_or_empty_def get_leaf_def send_tree_leaves)
  ultimately show ?thesis
    using send_packet_refines_validator [OF tail_hash_spec, where out = "toy_state\<lparr>next_sequence_send := 2, packet_commitment := [(1, ''ab'')]\<rparr>"
        and i = toy_state and k = 2 and cs = "[(1, ''ab'')]" and n = 1 and bytes = "''ab''" and old = "[1]" and codec = toy_codec
        and p = "''transfer''" and c = "''channel-0''" and m = ?m]
    by (fastforce simp: tail_hash_commits from_hex_to_hex toy_state_def js_has_def)
qed

subsection \<open>Deletions\<close>

lemma entries_not_in_delete:
  assumes "distinct (map fst inp)" "(n, v) \<in> set inp" "set out = set inp - {(n, v)}"
  shows "entries_not_in out inp = [(n, v)]" "entries_not_in inp out = []"
proof -
  have "set (entries_not_in out inp) = {(n, v)}"
    using assms by (force simp: entries_not_in_def js_has_def dest: eq_key_imp_eq_value)
  moreover have "distinct (entries_not_in out inp)"
    using assms(1) by (simp add: entries_not_in_def distinct_map)
  ultimately show "entries_not_in out inp = [(n, v)]"
    by (cases "entries_not_in out inp" rule: remdups_adj.cases) auto
  show "entries_not_in inp out = []"
    using assms(3) by (force simp: entries_not_in_def js_has_def filter_empty_conv)
qed

text \<open>
  C12. PrunePacketHistory: it succeeds exactly when both the receipt and the acknowledgement are in
  the tree, and then the computed root passes the validator's check for the paired deletion.
\<close>

theorem prune_refines_validator:
  assumes "sha256_spec sha"
    and "synced sha {receiptPath p c n, acknowledgementPath p c n} oldRoot m"
    and "commits_value sha (value_or_empty (currentTree m) (receiptPath p c n))"
    and "commits_value sha (value_or_empty (currentTree m) (acknowledgementPath p c n))"
  shows "(case computeRootWithPrunePacketHistoryUpdate sha oldRoot p c n m of
      Inl e \<Rightarrow> get_leaf (currentTree m) (receiptPath p c n) = None \<or>
        get_leaf (currentTree m) (acknowledgementPath p c n) = None
    | Inr (r, m') \<Rightarrow> \<exists>receipt ack. get_leaf (currentTree m) (receiptPath p c n) = Some receipt \<and>
        get_leaf (currentTree m) (acknowledgementPath p c n) = Some ack \<and>
        prune_packet_root sha (from_hex oldRoot) p c n receipt ack (map from_hex (pruneReceiptSiblings r))
          (map from_hex (pruneAcknowledgementSiblings r)) = Inr (from_hex (newRoot r)) \<and>
        leaves (currentTree m') = leaves (currentTree m))"
proof -
  let ?p = "receiptPath p c n" and ?q = "acknowledgementPath p c n"
  obtain t m' where t: "starts sha {?p, ?q} oldRoot m t m'" using starts_ex [OF assms(2)] by blast
  show ?thesis
  proof (cases "get_leaf t ?p = None \<or> get_leaf t ?q = None")
    case True
    with t show ?thesis by (auto simp: computeRootWithPrunePacketHistoryUpdate_def starts_def Let_def)
  next
    case False
    then obtain a b where ab: "get_leaf t ?p = Some a" "get_leaf t ?q = Some b" by auto
    then have old: "value_or_empty t ?p = a" "value_or_empty t ?q = b" by (simp_all add: value_or_empty_def)
    obtain s1 t1 where 1: "step sha {?p, ?q} ?p [] t s1 t1"
      using step_ex [OF assms(1), of "{?p, ?q}" t ?p "[]"] t assms(3) by (auto simp: starts_def)
    obtain s2 t2 where 2: "step sha {?p, ?q} ?q [] t1 s2 t2"
      using step_step [OF assms(1) 1, of ?q "[]"] 1 t assms(4) by (auto simp: step_def starts_def)
    obtain r u where "finishes sha t2 r u" using step_finishes [OF 2] by blast
    with t 1 2 old ab show ?thesis
      by (simp add: computeRootWithPrunePacketHistoryUpdate_def prune_packet_root_def run_defs Let_def)
  qed
qed

definition history_tree :: merkle_tree where
  "history_tree = set_leaf (acknowledgementPath ''transfer'' ''channel-0'' 4) (Bytes [0xCD])
     (set_leaf (receiptPath ''transfer'' ''channel-0'' 4) (Bytes [0x40]) new_tree)"

lemma history_tree_leaves: "leaves history_tree =
    [(receiptPath ''transfer'' ''channel-0'' 4, [0x40]), (acknowledgementPath ''transfer'' ''channel-0'' 4, [0xCD])]"
  by (simp add: history_tree_def set_leaf_def new_tree_def)

theorem prune_refines_validator_witness:
  "\<exists>r m'. computeRootWithPrunePacketHistoryUpdate tail_hash (to_hex (tree_root tail_hash (leaves history_tree)))
      ''transfer'' ''channel-0'' 4
      \<lparr>currentTree = history_tree, cachedKupoService = True, cachedLucidService = True\<rparr> = Inr (r, m') \<and>
    prune_packet_root tail_hash (tree_root tail_hash (leaves history_tree)) ''transfer'' ''channel-0'' 4 [0x40] [0xCD]
      (map from_hex (pruneReceiptSiblings r)) (map from_hex (pruneAcknowledgementSiblings r)) = Inr (from_hex (newRoot r))"
proof -
  let ?p = "receiptPath ''transfer'' ''channel-0'' 4" and ?q = "acknowledgementPath ''transfer'' ''channel-0'' 4"
  let ?m = "\<lparr>currentTree = history_tree, cachedKupoService = True, cachedLucidService = True\<rparr>"
  have "inj_on (keyIndex64 tail_hash) (set [?p, ?q])"
    by (rule inj_on_keyIndex64_list [OF tail_hash_hash32]) code_simp
  then have "tree_ok tail_hash {?p, ?q} history_tree"
    unfolding history_tree_def by (intro tree_ok_set_leaf tree_ok_new) simp_all
  from synced_root [OF this tail_hash_nonzero]
  have "synced tail_hash {?p, ?q} (to_hex (tree_root tail_hash (leaves history_tree))) ?m" by (simp add: history_tree_leaves)
  from prune_refines_validator [OF tail_hash_spec this tail_hash_commits tail_hash_commits]
  show ?thesis
    by (auto simp: get_leaf_def history_tree_leaves from_hex_to_hex split: sum.splits)
qed

end
