(* ===== verification/Sorted_Map.thy ===== *)
theory Sorted_Map
  imports Prelude
begin

section \<open>Sorted maps\<close>

text \<open>
  The immutable map helpers of \<open>cardano/gateway/src/shared/helpers/helper.ts\<close>, with which packet
  commitments, receipts and acknowledgements are updated, and the two functions of Aiken's
  \<open>pairs\<close> module with which the channel validator computes the map it expects. The theory shows
  that the off-chain helpers produce the very lists the validator computes.
\<close>

subsection \<open>Numeric order\<close>

text \<open>
  \<open>Number(k)\<close> of a bigint is the nearest double, ties to even: exact below \<open>2^53\<close>. Keys are
  packet sequences, 64-bit in the protocol, so no conversion overflows to infinity.
\<close>

fun bit_length :: "nat \<Rightarrow> nat" where
  "bit_length n = (if n = 0 then 0 else Suc (bit_length (n div 2)))"

declare bit_length.simps [simp del]

definition js_Number :: "nat \<Rightarrow> nat" where
  "js_Number n =
     (if n < 2 ^ 53 then n
      else let k = bit_length n - 53; q = n div 2 ^ k; r = n mod 2 ^ k; h = 2 ^ (k - 1)
           in (if r > h \<or> r = h \<and> odd q then q + 1 else q) * 2 ^ k)"

definition stable_sort_by :: "('a \<Rightarrow> nat) \<Rightarrow> bool \<Rightarrow> 'a list \<Rightarrow> 'a list" where
  "stable_sort_by f reverse xs = (if reverse then rev (sort_key f (rev xs)) else sort_key f xs)"

definition sortByNumberKey :: "(nat, 'v) jsmap \<Rightarrow> bool \<Rightarrow> (nat, 'v) jsmap" where
  "sortByNumberKey m reverse = js_map_of (stable_sort_by (\<lambda>(k, v). js_Number k) reverse m)"

definition insertSortMapWithNumberKey :: "(nat, 'v) jsmap \<Rightarrow> nat \<Rightarrow> 'v \<Rightarrow> bool \<Rightarrow> (nat, 'v) jsmap" where
  "insertSortMapWithNumberKey inputMap newKey newValue reverse =
     (let updatedMap = AList.update newKey newValue inputMap in sortByNumberKey updatedMap reverse)"


subsection \<open>Deletion and prepending\<close>

fun findIndex :: "('a \<Rightarrow> bool) \<Rightarrow> 'a list \<Rightarrow> nat option" where
  "findIndex p [] = None"
| "findIndex p (x # xs) = (if p x then Some 0 else map_option Suc (findIndex p xs))"

definition splice1 :: "nat \<Rightarrow> 'a list \<Rightarrow> 'a list" where
  "splice1 i xs = take i xs @ drop (Suc i) xs"

definition deleteSortMap :: "('k, 'v) jsmap \<Rightarrow> 'k \<Rightarrow> ('k \<Rightarrow> 'k \<Rightarrow> int) option \<Rightarrow> ('k, 'v) jsmap" where
  "deleteSortMap sortedMap keyToDelete keyComparator =
     (let matches = (\<lambda>(key, v). case keyComparator of Some cmp \<Rightarrow> cmp key keyToDelete = 0 | None \<Rightarrow> key = keyToDelete);
          entriesArray = (case findIndex matches sortedMap of
             Some i \<Rightarrow> splice1 i sortedMap
           | None \<Rightarrow> sortedMap)
      in js_map_of entriesArray)"

definition deleteKeySortMap :: "('k, 'v) jsmap \<Rightarrow> 'k \<Rightarrow> ('k, 'v) jsmap" where
  "deleteKeySortMap inputMap deleteKey = AList.delete deleteKey inputMap"

definition prependToMap :: "('k, 'v) jsmap \<Rightarrow> 'k \<Rightarrow> 'v \<Rightarrow> ('k, 'v) jsmap" where
  "prependToMap m key val = fold (\<lambda>(k, v). AList.update k v) m [(key, val)]"


subsection \<open>Pairs on chain\<close>

fun insert_by_ascending_key :: "(nat, 'v) jsmap \<Rightarrow> nat \<Rightarrow> 'v \<Rightarrow> (nat, 'v) jsmap" where
  "insert_by_ascending_key [] key val = [(key, val)]"
| "insert_by_ascending_key ((k, v) # rest) key val =
     (if key < k then (key, val) # (k, v) # rest
      else if key = k then (key, val) # rest
      else (k, v) # insert_by_ascending_key rest key val)"

fun delete_first :: "('k, 'v) jsmap \<Rightarrow> 'k \<Rightarrow> ('k, 'v) jsmap" where
  "delete_first [] key = []"
| "delete_first ((k, v) # rest) key = (if k = key then rest else (k, v) # delete_first rest key)"


section \<open>Facts\<close>

definition ascending :: "(nat, 'v) jsmap \<Rightarrow> bool" where
  "ascending m = sorted_wrt (<) (map fst m)"

definition safe_keys :: "(nat, 'v) jsmap \<Rightarrow> bool" where
  "safe_keys m = (\<forall>k \<in> fst ` set m. k < 2 ^ 53)"

lemma ascending_distinct: "ascending m \<Longrightarrow> distinct (map fst m)"
  by (simp add: ascending_def strict_sorted_iff)

lemma js_Number_exact: "n < 2 ^ 53 \<Longrightarrow> js_Number n = n"
  by (simp add: js_Number_def)

lemma keys_update: "fst ` set (AList.update k v m) = insert k (fst ` set m)"
  by (induction m) auto

lemma keys_insert: "fst ` set (insert_by_ascending_key m k v) = insert k (fst ` set m)"
  by (induction m k v rule: insert_by_ascending_key.induct) auto

lemma ascending_insert: "ascending m \<Longrightarrow> ascending (insert_by_ascending_key m k v)"
  unfolding ascending_def
proof (induction m k v rule: insert_by_ascending_key.induct)
  case (2 k v rest key val)
  have "set (map fst (insert_by_ascending_key rest key val)) = insert key (set (map fst rest))"
    using keys_insert [of rest key val] by simp
  with 2 show ?case by auto
qed simp

lemma map_of_insert: "ascending m \<Longrightarrow> map_of (insert_by_ascending_key m k v) = (map_of m)(k \<mapsto> v)"
proof (induction m k v rule: insert_by_ascending_key.induct)
  case (2 k v rest key val)
  have "key < k \<Longrightarrow> map_of ((k, v) # rest) key = None"
    using 2(2) by (force simp: ascending_def map_of_eq_None_iff)
  moreover have "ascending rest" using 2(2) by (simp add: ascending_def)
  ultimately show ?case using 2(1) by (auto simp: fun_eq_iff)
qed simp

lemma ascending_eqI:
  assumes "ascending m" "ascending n" "map_of m = map_of n"
  shows "m = n"
proof -
  have "set m = set n"
    using assms map_of_inject_set [OF ascending_distinct [OF assms(1)] ascending_distinct [OF assms(2)]] by simp
  moreover have "inj_on fst (set m \<union> set n)"
    using ascending_distinct [OF assms(1)] \<open>set m = set n\<close> by (simp add: distinct_map)
  ultimately show ?thesis
    using assms(1,2) ascending_distinct [OF assms(1)] ascending_distinct [OF assms(2)]
    by (intro map_sorted_distinct_set_unique [of fst]) (simp_all add: ascending_def strict_sorted_iff)
qed

lemma sort_key_distinct_keys: "distinct (map fst m) \<Longrightarrow> distinct (map fst (sort_key f m))"
  by (simp add: distinct_map)

lemma map_of_sort_key: "distinct (map fst m) \<Longrightarrow> map_of (sort_key f m) = map_of m"
  by (subst map_of_inject_set) (simp_all add: sort_key_distinct_keys)

lemma sort_key_eqI: "(\<And>x. x \<in> set xs \<Longrightarrow> f x = g x) \<Longrightarrow> sort_key f xs = sort_key g xs"
proof (induction xs)
  case (Cons x xs)
  have "insort_key f x ys = insort_key g x ys" if "set ys \<subseteq> set xs" for ys
    using that Cons.prems by (induction ys) auto
  with Cons show ?case by simp
qed simp

lemma sortByNumberKey_ascending:
  assumes "distinct (map fst m)" "safe_keys m"
  shows "sortByNumberKey m False = sort_key fst m" and "ascending (sort_key fst m)"
proof -
  have "sort_key (\<lambda>(k, v). js_Number k) m = sort_key fst m"
    using assms(2) by (intro sort_key_eqI) (auto simp: safe_keys_def js_Number_exact)
  then show "sortByNumberKey m False = sort_key fst m"
    using assms(1) by (simp add: sortByNumberKey_def stable_sort_by_def js_map_of_distinct sort_key_distinct_keys)
  show "ascending (sort_key fst m)"
    unfolding ascending_def using assms(1) by (simp add: strict_sorted_iff sort_key_distinct_keys)
qed

text \<open>
  The helper that copies, sets and sorts computes what the validator's insertion computes.
\<close>

lemma insert_sort_is_ascending_insert:
  assumes "ascending m" "safe_keys m" "k < 2 ^ 53"
  shows "insertSortMapWithNumberKey m k v False = insert_by_ascending_key m k v"
proof -
  let ?u = "AList.update k v m"
  have d: "distinct (map fst ?u)" by (rule distinct_update [OF ascending_distinct [OF assms(1)]])
  have s: "safe_keys ?u" using assms(2,3) by (auto simp: safe_keys_def keys_update)
  have "map_of (sort_key fst ?u) = map_of (insert_by_ascending_key m k v)"
    by (simp only: map_of_sort_key [OF d] map_of_alist_update map_of_insert [OF assms(1)])
  then have "sort_key fst ?u = insert_by_ascending_key m k v"
    by (rule ascending_eqI [OF sortByNumberKey_ascending(2) [OF d s] ascending_insert [OF assms(1)]])
  then show ?thesis
    by (simp add: insertSortMapWithNumberKey_def sortByNumberKey_ascending(1) [OF d s])
qed

lemma delete_first_eq: "distinct (map fst m) \<Longrightarrow> delete_first m k = AList.delete k m"
proof (induction m k rule: delete_first.induct)
  case (2 k v rest key)
  then show ?case by (cases "k = key") (simp_all add: delete_id)
qed simp

lemma deleteKeySortMap_eq: "distinct (map fst m) \<Longrightarrow> deleteKeySortMap m k = delete_first m k"
  by (simp add: deleteKeySortMap_def delete_first_eq)

lemma splice_findIndex:
  "(case findIndex (\<lambda>(key, v). key = k) m of Some i \<Rightarrow> splice1 i m | None \<Rightarrow> m) = delete_first m k"
proof (induction m)
  case (Cons e m)
  then show ?case by (cases e; cases "findIndex (\<lambda>(key, v). key = k) m") (auto simp: splice1_def)
qed simp

lemma deleteSortMap_eq: "distinct (map fst m) \<Longrightarrow> deleteSortMap m k None = delete_first m k"
proof -
  assume d: "distinct (map fst m)"
  have "distinct (map fst (delete_first m k))" by (simp add: delete_first_eq [OF d] distinct_delete [OF d])
  then show ?thesis using splice_findIndex [of m k] by (simp add: deleteSortMap_def js_map_of_distinct)
qed

lemma prependToMap_new:
  "distinct (map fst m) \<Longrightarrow> \<not> js_has m k \<Longrightarrow> prependToMap m k v = (k, v) # m"
  using js_map_of_distinct_acc [of m "[(k, v)]"] by (simp add: prependToMap_def js_has_def)

lemma delete_first_insert:
  "ascending m \<Longrightarrow> \<not> js_has m k \<Longrightarrow> delete_first (insert_by_ascending_key m k v) k = m"
proof (induction m k v rule: insert_by_ascending_key.induct)
  case (2 k v rest key val)
  then show ?case by (auto simp: ascending_def js_has_def)
qed simp

lemma length_insert_ascending:
  "ascending m \<Longrightarrow> length (insert_by_ascending_key m k v) = (if js_has m k then length m else Suc (length m))"
proof (induction m k v rule: insert_by_ascending_key.induct)
  case (2 k v rest key val)
  then show ?case by (force simp: ascending_def js_has_def)
qed (simp add: js_has_def)

lemma length_delete_first: "js_has m k \<Longrightarrow> Suc (length (delete_first m k)) = length m"
  by (induction m k rule: delete_first.induct) (auto simp: js_has_def)

lemma length_delete_first_le: "length (delete_first m k) \<le> length m"
  by (induction m k rule: delete_first.induct) auto

lemma set_delete_first: "set (delete_first m k) \<subseteq> set m"
  by (induction m k rule: delete_first.induct) auto

lemma ascending_delete: "ascending m \<Longrightarrow> ascending (delete_first m k)"
proof (induction m k rule: delete_first.induct)
  case (2 k v rest key)
  then show ?case using set_delete_first [of rest key] by (auto simp: ascending_def)
qed simp

lemma safe_keys_insert: "safe_keys m \<Longrightarrow> k < 2 ^ 53 \<Longrightarrow> safe_keys (insert_by_ascending_key m k v)"
  by (simp add: safe_keys_def keys_insert)

end
