(* ===== verification/Channel_Validator.thy ===== *)
theory Channel_Validator
  imports Channel_Datum Sorted_Map Ibc_Paths
begin

section \<open>The channel validator\<close>

text \<open>
  The state machine of a channel as the on-chain library enforces it:
  \<open>cardano/onchain/lib/ibc/core/ics-004/channel_datum.ak\<close> gives the datum each operation must
  produce, the validators under \<open>cardano/onchain/validators/spending_channel/\<close> add the guards. A
  validator that returns \<open>False\<close> and one that fails both reject, so both are \<^const>\<open>False\<close> here.
  The proofs about the counterparty chain that the validators check are a parameter of the step
  relation. The theory shows the invariants of every reachable channel and that no packet is
  received twice, although receipts are pruned.
\<close>

subsection \<open>Heights\<close>

datatype cmp_order = Less | Equal | Greater

definition height_compare :: "height \<Rightarrow> height \<Rightarrow> cmp_order" where
  "height_compare h1 h2 =
     (if revisionNumber h1 < revisionNumber h2 then Less
      else if revisionNumber h1 > revisionNumber h2 then Greater
      else if revisionHeight h1 < revisionHeight h2 then Less
      else if revisionHeight h1 > revisionHeight h2 then Greater
      else Equal)"

definition zero_height :: height where
  "zero_height = \<lparr>revisionNumber = 0, revisionHeight = 0\<rparr>"

text \<open>Heights are linearly ordered, by revision first.\<close>

instantiation height_ext :: (linorder) linorder
begin

definition less_eq_height_ext :: "'a height_ext \<Rightarrow> 'a height_ext \<Rightarrow> bool" where
  "less_eq_height_ext a b =
     (revisionNumber a < revisionNumber b \<or> revisionNumber a = revisionNumber b \<and>
       (revisionHeight a < revisionHeight b \<or> revisionHeight a = revisionHeight b \<and> height.more a \<le> height.more b))"

definition less_height_ext :: "'a height_ext \<Rightarrow> 'a height_ext \<Rightarrow> bool" where
  "less_height_ext a b = (a \<le> b \<and> \<not> b \<le> a)"

instance
proof
  fix x y z :: "'a height_ext"
  show "x \<le> y \<Longrightarrow> y \<le> x \<Longrightarrow> x = y"
    by (cases x; cases y) (auto simp: less_eq_height_ext_def)
qed (auto simp: less_eq_height_ext_def less_height_ext_def)

end

lemma height_le_iff:
  "(a :: height) \<le> b \<longleftrightarrow> revisionNumber a < revisionNumber b \<or>
     revisionNumber a = revisionNumber b \<and> revisionHeight a \<le> revisionHeight b"
  by (auto simp: less_eq_height_ext_def)

lemma height_compare_iff:
  "height_compare a b = Less \<longleftrightarrow> a < b" "height_compare a b = Greater \<longleftrightarrow> b < a"
  by (auto simp: height_compare_def less_height_ext_def height_le_iff)


subsection \<open>Identifiers\<close>

definition valid_id_byte :: "byte \<Rightarrow> bool" where
  "valid_id_byte b = (let n = unat b in
     0x61 \<le> n \<and> n \<le> 0x7a \<or> 0x41 \<le> n \<and> n \<le> 0x5a \<or> 0x30 \<le> n \<and> n \<le> 0x39 \<or>
     n \<in> set [0x2e, 0x5f, 0x2b, 0x2d, 0x23, 0x5b, 0x5d, 0x3c, 0x3e])"

definition is_valid_id :: "buffer \<Rightarrow> bool" where
  "is_valid_id bs = foldl (\<lambda>result cur_byte. result \<and> valid_id_byte cur_byte) True bs"

definition trim_space :: "buffer \<Rightarrow> buffer" where
  "trim_space bs = rev (dropWhile (\<lambda>b. b = 0x20) (rev (dropWhile (\<lambda>b. b = 0x20) bs)))"

definition default_identifier_validator :: "buffer \<Rightarrow> nat \<Rightarrow> nat \<Rightarrow> bool" where
  "default_identifier_validator bs lo hi =
     (trim_space bs \<noteq> [] \<and> (lo \<le> length bs \<and> length bs \<le> hi) \<and> is_valid_id bs)"

definition port_identifier_validator :: "buffer \<Rightarrow> bool" where
  "port_identifier_validator bs = default_identifier_validator bs 2 128"

definition channel_identifier_validator :: "buffer \<Rightarrow> bool" where
  "channel_identifier_validator bs = default_identifier_validator bs 8 64"

definition is_valid_port_id :: "buffer \<Rightarrow> bool" where
  "is_valid_port_id bs =
     (if length bs < 2 \<or> length bs > 128 then False
      else foldr (\<lambda>b acc. acc \<and> valid_id_byte b) bs True)"

definition is_uint_string :: "buffer \<Rightarrow> bool" where
  "is_uint_string bs =
     (if bs = [] then False else if bs = utf8 ''0'' then True else if hd bs = 0x30 then False
      else foldr (\<lambda>b acc. acc \<and> 0x30 \<le> unat b \<and> unat b \<le> 0x39) bs True)"

definition is_valid_connection_id :: "buffer \<Rightarrow> bool" where
  "is_valid_connection_id bs =
     (if take 11 bs = utf8 ''connection-'' then is_uint_string (drop 11 bs) else False)"

text \<open>Datum fields are hexadecimal text off chain and bytes on chain.\<close>

definition counterparty_validate_basic :: "channel_counterparty \<Rightarrow> bool" where
  "counterparty_validate_basic c =
     (port_identifier_validator (from_hex (port_id c)) \<and>
      (from_hex (channel_id c) = [] \<or> channel_identifier_validator (from_hex (channel_id c))))"

definition channel_validate_basic :: "channel \<Rightarrow> bool" where
  "channel_validate_basic ch =
     (case connection_hops ch of
        [connection_id] \<Rightarrow>
          (ordering ch = Ordered \<or> ordering ch = Unordered) \<and>
          is_valid_connection_id (from_hex connection_id) \<and>
          counterparty_validate_basic (counterparty ch)
      | _ \<Rightarrow> False)"


subsection \<open>Datum transitions\<close>

text \<open>
  On chain a datum is a value: two data are equal when they agree up to the off-chain identity
  of the channel object.
\<close>

definition datum_view :: "channel_datum \<Rightarrow> channel_datum" where
  "datum_view d = d\<lparr>state := (state d)\<lparr>channel := Obj 0 (contents (channel (state d)))\<rparr>\<rparr>"

definition datum_eq :: "channel_datum \<Rightarrow> channel_datum \<Rightarrow> bool" where
  "datum_eq a b = (datum_view a = datum_view b)"

abbreviation chan :: "channel_datum \<Rightarrow> channel" where
  "chan d \<equiv> contents (channel (state d))"

definition with_channel :: "(channel \<Rightarrow> channel) \<Rightarrow> channel_datum_state \<Rightarrow> channel_datum_state" where
  "with_channel f s = s\<lparr>channel := Obj (addr (channel s)) (f (contents (channel s)))\<rparr>"

definition max_packet_entries_per_channel :: nat where
  "max_packet_entries_per_channel = 64"

definition packet_entry_count :: "channel_datum_state \<Rightarrow> nat" where
  "packet_entry_count s = length (packet_commitment s) + length (packet_receipt s) + length (packet_acknowledgement s)"

definition fresh_channel :: "channel_datum \<Rightarrow> auth_token \<Rightarrow> bool" where
  "fresh_channel d auth_token =
     (channel_validate_basic (chan d) \<and> token d = auth_token \<and>
      next_sequence_send (state d) = 1 \<and> next_sequence_recv (state d) = 1 \<and> next_sequence_ack (state d) = 1 \<and>
      minimum_receive_proof_height (state d) = zero_height \<and> maximum_receive_proof_height (state d) = zero_height \<and>
      packet_commitment (state d) = [] \<and> packet_receipt (state d) = [] \<and> packet_acknowledgement (state d) = [] \<and>
      is_valid_port_id (from_hex (port d)))"

definition validate_chan_open_init :: "channel_datum \<Rightarrow> auth_token \<Rightarrow> bool" where
  "validate_chan_open_init d auth_token =
     (fresh_channel d auth_token \<and> ch_state (chan d) = Init \<and> from_hex (channel_id (counterparty (chan d))) = [])"

definition validate_chan_open_try :: "channel_datum \<Rightarrow> auth_token \<Rightarrow> bool" where
  "validate_chan_open_try d auth_token =
     (fresh_channel d auth_token \<and> ch_state (chan d) = TryOpen \<and> from_hex (channel_id (counterparty (chan d))) \<noteq> [])"

definition validate_chan_open_ack :: "channel_datum \<Rightarrow> channel_datum \<Rightarrow> bool" where
  "validate_chan_open_ack i out =
     (ch_state (chan i) = Init \<and>
      (let cid = channel_id (counterparty (chan out)) in
       channel_identifier_validator (from_hex cid) \<and>
       datum_eq (i\<lparr>state := with_channel (\<lambda>ch. ch\<lparr>ch_state := Open,
         counterparty := (counterparty ch)\<lparr>channel_id := cid\<rparr>\<rparr>) (state i)\<rparr>) out))"

definition validate_chan_open_confirm :: "channel_datum \<Rightarrow> channel_datum \<Rightarrow> bool" where
  "validate_chan_open_confirm i out =
     (ch_state (chan i) = TryOpen \<and>
      datum_eq (i\<lparr>state := with_channel (\<lambda>ch. ch\<lparr>ch_state := Open\<rparr>) (state i)\<rparr>) out)"

definition validate_chan_close_init :: "channel_datum \<Rightarrow> channel_datum \<Rightarrow> bool" where
  "validate_chan_close_init i out = datum_eq (i\<lparr>state := with_channel (\<lambda>ch. ch\<lparr>ch_state := Close\<rparr>) (state i)\<rparr>) out"

definition validate_chan_close_confirm :: "channel_datum \<Rightarrow> channel_datum \<Rightarrow> bool" where
  "validate_chan_close_confirm i out = datum_eq (i\<lparr>state := with_channel (\<lambda>ch. ch\<lparr>ch_state := Close\<rparr>) (state i)\<rparr>) out"

definition validate_recv_packet :: "channel_datum \<Rightarrow> channel_datum \<Rightarrow> nat \<Rightarrow> string \<Rightarrow> height \<Rightarrow> bool" where
  "validate_recv_packet i out seq ack proof_height =
     (let s = state i;
          valid_sequence = (case ordering (chan i) of Ordered \<Rightarrow> seq = next_sequence_recv s | Unordered \<Rightarrow> True | NoneOrder \<Rightarrow> False)
      in case (case ordering (chan i) of
           Ordered \<Rightarrow> Some (packet_receipt s, next_sequence_recv s + 1, 1)
         | Unordered \<Rightarrow> Some ((seq, []) # packet_receipt s, next_sequence_recv s, 2)
         | NoneOrder \<Rightarrow> None) of
           None \<Rightarrow> False
         | Some (expected_packet_receipt, expected_next_sequence_recv, inserted_entries) \<Rightarrow>
             valid_sequence \<and>
             height_compare proof_height (minimum_receive_proof_height s) \<noteq> Less \<and>
             packet_entry_count s + inserted_entries \<le> max_packet_entries_per_channel \<and>
             datum_eq (i\<lparr>state := s\<lparr>next_sequence_recv := expected_next_sequence_recv,
               maximum_receive_proof_height :=
                 (if height_compare proof_height (maximum_receive_proof_height s) = Greater
                  then proof_height else maximum_receive_proof_height s),
               packet_receipt := expected_packet_receipt,
               packet_acknowledgement := insert_by_ascending_key (packet_acknowledgement s) seq ack\<rparr>\<rparr>) out)"

definition validate_prune_packet_history :: "channel_datum \<Rightarrow> channel_datum \<Rightarrow> nat \<Rightarrow> height \<Rightarrow> bool" where
  "validate_prune_packet_history i out seq proof_height =
     (let s = state i in
      ordering (chan i) = Unordered \<and>
      js_has (packet_receipt s) seq \<and>
      js_has (packet_acknowledgement s) seq \<and>
      height_compare proof_height (minimum_receive_proof_height s) \<noteq> Less \<and>
      height_compare proof_height (maximum_receive_proof_height s) \<noteq> Less \<and>
      datum_eq (i\<lparr>state := s\<lparr>minimum_receive_proof_height := proof_height,
        packet_receipt := delete_first (packet_receipt s) seq,
        packet_acknowledgement := delete_first (packet_acknowledgement s) seq\<rparr>\<rparr>) out)"

definition validate_send_packet :: "channel_datum \<Rightarrow> channel_datum \<Rightarrow> nat \<Rightarrow> string \<Rightarrow> bool" where
  "validate_send_packet i out seq commitment =
     (let s = state i in
      packet_entry_count s < max_packet_entries_per_channel \<and>
      datum_eq (i\<lparr>state := s\<lparr>next_sequence_send := next_sequence_send s + 1,
        packet_commitment := insert_by_ascending_key (packet_commitment s) seq commitment\<rparr>\<rparr>) out)"

definition validate_timeout_packet :: "channel_datum \<Rightarrow> channel_datum \<Rightarrow> nat \<Rightarrow> bool" where
  "validate_timeout_packet i out seq =
     (let expected_channel_state = (if ordering (chan i) = Ordered then Close else Open)
      in datum_eq (i\<lparr>state := (with_channel (\<lambda>ch. ch\<lparr>ch_state := expected_channel_state\<rparr>) (state i))\<lparr>
        packet_commitment := delete_first (packet_commitment (state i)) seq\<rparr>\<rparr>) out)"

definition validate_acknowledge_packet :: "channel_datum \<Rightarrow> channel_datum \<Rightarrow> nat \<Rightarrow> bool" where
  "validate_acknowledge_packet i out seq =
     (let s = state i;
          expected_next_seq_ack = (if ordering (chan i) = Ordered then next_sequence_ack s + 1 else next_sequence_ack s)
      in datum_eq (i\<lparr>state := s\<lparr>packet_commitment := delete_first (packet_commitment s) seq,
        next_sequence_ack := expected_next_seq_ack\<rparr>\<rparr>) out)"


subsection \<open>Steps\<close>

datatype channel_op =
    OpenAck | OpenConfirm | CloseInit | CloseConfirm
  | SendPacket nat string
  | RecvPacket nat string height
  | AcknowledgePacket nat
  | TimeoutPacket nat
  | PrunePacketHistory nat height

text \<open>
  \<open>committed n h\<close> says that the counterparty holds the commitment of packet \<open>n\<close> at height \<open>h\<close>:
  what a membership proof establishes, and its negation what a non-membership proof establishes.

  \<open>spending_channel.ak\<close> hands each redeemer to the policy of its operation, and the relation has one
  rule for each. A rule has the part of that policy that concerns the channel datum: the state of
  the channel, the entries of its maps, the sequence and the successor datum. It leaves out what
  concerns the packet and the rest of the transaction: \<open>validate_basic\<close> of the packet, the equality of
  its ports and channels with those of the channel, its timeout (zero height, time not elapsed for
  a receive, elapsed for a timeout), the equality of the stored commitment with that of the packet,
  the proof of the acknowledgement and of the missing receipt, the state of connection and client,
  the module callback and the tokens. So every transition accepted on chain is a step, which is
  what the invariants need, and a step is accepted only if these checks pass as well.
\<close>

inductive channel_step :: "(nat \<Rightarrow> height \<Rightarrow> bool) \<Rightarrow> channel_datum \<Rightarrow> channel_op \<Rightarrow> channel_datum \<Rightarrow> bool"
  for committed where
  open_ack: "validate_chan_open_ack d d' \<Longrightarrow> channel_step committed d OpenAck d'"
| open_confirm: "validate_chan_open_confirm d d' \<Longrightarrow> channel_step committed d OpenConfirm d'"
| close_init: "ch_state (chan d) \<noteq> Close \<Longrightarrow> validate_chan_close_init d d' \<Longrightarrow> channel_step committed d CloseInit d'"
| close_confirm: "ch_state (chan d) \<noteq> Close \<Longrightarrow> validate_chan_close_confirm d d' \<Longrightarrow> channel_step committed d CloseConfirm d'"
| send: "ch_state (chan d) = Open \<Longrightarrow> n = next_sequence_send (state d) \<Longrightarrow> validate_send_packet d d' n c \<Longrightarrow>
    channel_step committed d (SendPacket n c) d'"
| recv: "ch_state (chan d) = Open \<Longrightarrow> committed n h \<Longrightarrow> \<not> js_has (packet_receipt (state d)) n \<Longrightarrow>
    \<not> js_has (packet_acknowledgement (state d)) n \<Longrightarrow> validate_recv_packet d d' n ack h \<Longrightarrow>
    channel_step committed d (RecvPacket n ack h) d'"
| acknowledge: "ch_state (chan d) = Open \<Longrightarrow> js_has (packet_commitment (state d)) n \<Longrightarrow>
    ordering (chan d) \<noteq> Ordered \<or> n = next_sequence_ack (state d) \<Longrightarrow> validate_acknowledge_packet d d' n \<Longrightarrow>
    channel_step committed d (AcknowledgePacket n) d'"
| timeout: "ch_state (chan d) = Open \<Longrightarrow> js_has (packet_commitment (state d)) n \<Longrightarrow> ordering (chan d) \<noteq> NoneOrder \<Longrightarrow>
    validate_timeout_packet d d' n \<Longrightarrow> channel_step committed d (TimeoutPacket n) d'"
| prune: "ch_state (chan d) = Open \<Longrightarrow> \<not> committed n h \<Longrightarrow> validate_prune_packet_history d d' n h \<Longrightarrow>
    channel_step committed d (PrunePacketHistory n h) d'"

text \<open>The history of a channel, latest operation first.\<close>

inductive channel_history :: "(nat \<Rightarrow> height \<Rightarrow> bool) \<Rightarrow> channel_op list \<Rightarrow> channel_datum \<Rightarrow> bool"
  for committed where
  opened: "validate_chan_open_init d tok \<Longrightarrow> channel_history committed [] d"
| tried: "validate_chan_open_try d tok \<Longrightarrow> channel_history committed [] d"
| step: "channel_history committed ops d \<Longrightarrow> channel_step committed d op d' \<Longrightarrow> channel_history committed (op # ops) d'"


section \<open>Properties\<close>

lemma datum_eq_iff:
  "datum_eq a b \<longleftrightarrow>
     port b = port a \<and> token b = token a \<and> chan b = chan a \<and>
     next_sequence_send (state b) = next_sequence_send (state a) \<and>
     next_sequence_recv (state b) = next_sequence_recv (state a) \<and>
     next_sequence_ack (state b) = next_sequence_ack (state a) \<and>
     packet_commitment (state b) = packet_commitment (state a) \<and>
     packet_receipt (state b) = packet_receipt (state a) \<and>
     packet_acknowledgement (state b) = packet_acknowledgement (state a) \<and>
     minimum_receive_proof_height (state b) = minimum_receive_proof_height (state a) \<and>
     maximum_receive_proof_height (state b) = maximum_receive_proof_height (state a)"
  by (cases a; cases b; cases "state a"; cases "state b") (auto simp: datum_eq_def datum_view_def)

lemma datum_eq_refl [simp]: "datum_eq d d"
  by (simp add: datum_eq_def)

lemmas validate_defs = validate_chan_open_ack_def validate_chan_open_confirm_def validate_chan_close_init_def
  validate_chan_close_confirm_def validate_recv_packet_def validate_prune_packet_history_def
  validate_send_packet_def validate_timeout_packet_def validate_acknowledge_packet_def
  with_channel_def datum_eq_iff Let_def height_compare_iff packet_entry_count_def

lemmas opening_defs = validate_chan_open_init_def validate_chan_open_try_def fresh_channel_def
  channel_validate_basic_def


subsection \<open>Invariants of a channel\<close>

definition keys_below :: "nat \<Rightarrow> (nat, 'v) jsmap \<Rightarrow> bool" where
  "keys_below n m = (\<forall>k \<in> fst ` set m. k < n)"

definition channel_inv :: "channel_datum \<Rightarrow> bool" where
  "channel_inv d =
     (let s = state d in
      ascending (packet_commitment s) \<and> ascending (packet_acknowledgement s) \<and> distinct (map fst (packet_receipt s)) \<and>
      packet_entry_count s \<le> max_packet_entries_per_channel \<and>
      keys_below (next_sequence_send s) (packet_commitment s) \<and>
      (ordering (chan d) = Ordered \<or> ordering (chan d) = Unordered))"

lemma keys_below_insert: "keys_below n m \<Longrightarrow> n \<le> n' \<Longrightarrow> k < n' \<Longrightarrow> keys_below n' (insert_by_ascending_key m k v)"
  by (simp only: keys_below_def keys_insert) auto

lemma keys_below_delete: "keys_below n m \<Longrightarrow> keys_below n (delete_first m k)"
  using set_delete_first [of m k] by (auto simp: keys_below_def)

lemma keys_below_Nil [simp]: "keys_below n []"
  by (simp add: keys_below_def)

lemma distinct_delete_first: "distinct (map fst m) \<Longrightarrow> distinct (map fst (delete_first m k))"
  by (simp add: delete_first_eq distinct_delete)

lemma length_insert_ascending_le: "length (insert_by_ascending_key m k v) \<le> Suc (length m)"
  by (induction m k v rule: insert_by_ascending_key.induct) auto

lemma step_ordering:
  assumes "channel_step committed d op d'"
  shows "ordering (chan d') = ordering (chan d)"
  using assms
proof (cases rule: channel_step.cases)
  case open_ack
  let ?ch = "(chan d)\<lparr>ch_state := Open, counterparty := (counterparty (chan d))\<lparr>channel_id := channel_id (counterparty (chan d'))\<rparr>\<rparr>"
  have "chan d' = ?ch" using open_ack by (simp add: validate_defs)
  then have "ordering (chan d') = ordering ?ch" by (rule arg_cong)
  then show ?thesis by simp
qed (auto simp: validate_defs split: order.splits)

lemma channel_inv_step:
  assumes "channel_step committed d op d'" "channel_inv d"
  shows "channel_inv d'"
  using assms
proof (cases rule: channel_step.cases)
  case (send n c)
  then show ?thesis using assms(2) length_insert_ascending_le [of "packet_commitment (state d)" n c]
    by (auto simp: validate_defs channel_inv_def ascending_insert keys_below_insert)
next
  case (recv n h ack)
  then show ?thesis using assms(2) length_insert_ascending_le [of "packet_acknowledgement (state d)" n ack]
    by (auto simp: validate_defs channel_inv_def ascending_insert js_has_def)
next
  case (acknowledge n)
  then show ?thesis
    using assms(2) length_delete_first_le [of "packet_commitment (state d)" n]
    by (auto simp: validate_defs channel_inv_def ascending_delete keys_below_delete)
next
  case (timeout n)
  then show ?thesis
    using assms(2) length_delete_first_le [of "packet_commitment (state d)" n]
    by (auto simp: validate_defs channel_inv_def ascending_delete keys_below_delete)
next
  case (prune n h)
  then show ?thesis
    using assms(2) length_delete_first_le [of "packet_receipt (state d)" n]
      length_delete_first_le [of "packet_acknowledgement (state d)" n]
    by (auto simp: validate_defs channel_inv_def ascending_delete distinct_delete_first)
qed (use step_ordering [OF assms(1)] assms(2) in \<open>auto simp: validate_defs channel_inv_def\<close>)

lemma channel_inv_opening:
  assumes "fresh_channel d tok"
  shows "channel_inv d"
proof -
  from assms have "ordering (chan d) = Ordered \<or> ordering (chan d) = Unordered"
    by (auto simp: fresh_channel_def channel_validate_basic_def split: list.splits)
  with assms show ?thesis by (simp add: fresh_channel_def channel_inv_def ascending_def packet_entry_count_def Let_def)
qed

text \<open>
  C18. Every channel datum the validators let come into being, through any sequence of operations,
  keeps its packet commitments and acknowledgements in strictly ascending sequence order, its
  receipts without duplicates, all commitments below the next send sequence, and at most 64 packet
  entries altogether.
\<close>

theorem channel_invariant:
  assumes "channel_history committed ops d"
  shows "channel_inv d"
  using assms
  by (induction rule: channel_history.induct)
    (auto simp: validate_chan_open_init_def validate_chan_open_try_def intro: channel_inv_opening channel_inv_step)

text \<open>A concrete history: a channel opened by the counterparty receives packet 1 and prunes it.\<close>

definition tried_datum :: channel_datum where
  "tried_datum = \<lparr>state = \<lparr>channel = Obj 0 \<lparr>ch_state = TryOpen, ordering = Unordered,
       counterparty = \<lparr>port_id = ''7472616e73666572'', channel_id = ''6368616e6e656c2d37''\<rparr>,
       connection_hops = [''636f6e6e656374696f6e2d30''], version = ''69637332302d31''\<rparr>,
     next_sequence_send = 1, next_sequence_recv = 1, next_sequence_ack = 1,
     packet_commitment = [], packet_receipt = [], packet_acknowledgement = [],
     minimum_receive_proof_height = zero_height, maximum_receive_proof_height = zero_height\<rparr>,
   port = ''7472616e73666572'', token = \<lparr>policyId = ''aa'', name = ''bb''\<rparr>\<rparr>"

definition open_datum :: channel_datum where
  "open_datum = tried_datum\<lparr>state := with_channel (\<lambda>ch. ch\<lparr>ch_state := Open\<rparr>) (state tried_datum)\<rparr>"

definition received_datum :: channel_datum where
  "received_datum = open_datum\<lparr>state := (state open_datum)\<lparr>packet_receipt := [(1, [])],
     packet_acknowledgement := [(1, ''c0'')], maximum_receive_proof_height := \<lparr>revisionNumber = 0, revisionHeight = 5\<rparr>\<rparr>\<rparr>"

definition pruned_datum :: channel_datum where
  "pruned_datum = received_datum\<lparr>state := (state received_datum)\<lparr>packet_receipt := [],
     packet_acknowledgement := [], minimum_receive_proof_height := \<lparr>revisionNumber = 0, revisionHeight = 9\<rparr>\<rparr>\<rparr>"

definition below_7 :: "nat \<Rightarrow> height \<Rightarrow> bool" where
  "below_7 n h = (revisionNumber h = 0 \<and> revisionHeight h < 7)"

lemma example_history:
  "channel_history below_7 [PrunePacketHistory 1 \<lparr>revisionNumber = 0, revisionHeight = 9\<rparr>,
     RecvPacket 1 ''c0'' \<lparr>revisionNumber = 0, revisionHeight = 5\<rparr>, OpenConfirm] pruned_datum"
proof (intro channel_history.step channel_history.tried)
  show "validate_chan_open_try tried_datum \<lparr>policyId = ''aa'', name = ''bb''\<rparr>" by code_simp
  have "validate_chan_open_confirm tried_datum open_datum" by code_simp
  then show "channel_step below_7 tried_datum OpenConfirm open_datum" by (rule channel_step.open_confirm)
  show "channel_step below_7 open_datum (RecvPacket 1 ''c0'' \<lparr>revisionNumber = 0, revisionHeight = 5\<rparr>) received_datum"
    by (rule channel_step.recv) code_simp+
  show "channel_step below_7 received_datum (PrunePacketHistory 1 \<lparr>revisionNumber = 0, revisionHeight = 9\<rparr>) pruned_datum"
    by (rule channel_step.prune) code_simp+
qed

theorem channel_invariant_witness: "channel_inv pruned_datum"
  by (rule channel_invariant [OF example_history])


subsection \<open>Packets are received once\<close>

fun received :: "channel_op list \<Rightarrow> (nat \<times> height) list" where
  "received [] = []"
| "received (RecvPacket n ack h # ops) = (n, h) # received ops"
| "received (_ # ops) = received ops"

text \<open>
  What is known of the packets received so far: on an ordered channel their sequences are used
  up; on an unordered one each has its receipt, or its commitment has been seen to be gone at a
  height that later proofs must reach.
\<close>

definition delivered :: "(nat \<Rightarrow> height \<Rightarrow> bool) \<Rightarrow> channel_op list \<Rightarrow> channel_datum \<Rightarrow> bool" where
  "delivered committed ops d =
     (if ordering (chan d) = Ordered
      then \<forall>(n, h) \<in> set (received ops). n < next_sequence_recv (state d)
      else \<forall>(n, h) \<in> set (received ops). committed n h \<and> h \<le> maximum_receive_proof_height (state d) \<and>
        (js_has (packet_receipt (state d)) n \<or>
         (\<exists>q. h \<le> q \<and> q \<le> minimum_receive_proof_height (state d) \<and> \<not> committed n q)))"

definition commitments_stay_deleted :: "(nat \<Rightarrow> height \<Rightarrow> bool) \<Rightarrow> bool" where
  "commitments_stay_deleted committed =
     (\<forall>n h q p. h \<le> q \<longrightarrow> q \<le> p \<longrightarrow> committed n h \<longrightarrow> \<not> committed n q \<longrightarrow> \<not> committed n p)"

lemma js_has_delete_other: "js_has m n \<Longrightarrow> n \<noteq> k \<Longrightarrow> js_has (delete_first m k) n"
  by (induction m k rule: delete_first.induct) (auto simp: js_has_def)

lemma delivered_prune:
  assumes "delivered committed ops d" "\<not> committed n h" "validate_prune_packet_history d d' n h"
  shows "delivered committed ops d'"
proof -
  have u: "ordering (chan d) = Unordered" "chan d' = chan d" and mn: "minimum_receive_proof_height (state d) \<le> h"
    and mx: "maximum_receive_proof_height (state d) \<le> h"
    and d': "minimum_receive_proof_height (state d') = h" "maximum_receive_proof_height (state d') = maximum_receive_proof_height (state d)"
      "packet_receipt (state d') = delete_first (packet_receipt (state d)) n"
    using assms(3) by (auto simp: validate_defs)
  have "js_has (packet_receipt (state d')) m \<or> (\<exists>q. g \<le> q \<and> q \<le> h \<and> \<not> committed m q)"
    if "(m, g) \<in> set (received ops)" for m g
  proof -
    from that assms(1) u have g: "g \<le> maximum_receive_proof_height (state d)" and
      c: "js_has (packet_receipt (state d)) m \<or> (\<exists>q. g \<le> q \<and> q \<le> minimum_receive_proof_height (state d) \<and> \<not> committed m q)"
      by (auto simp: delivered_def)
    show ?thesis
    proof (cases "m = n")
      case True
      then show ?thesis using g mx assms(2) order_trans [OF g mx] by blast
    next
      case False
      then show ?thesis using c mn js_has_delete_other [OF _ False] d'(3) order_trans by metis
    qed
  qed
  with assms(1) u d' show ?thesis by (auto simp: delivered_def)
qed

lemma delivered_recv:
  assumes "delivered committed ops d" "committed n h" "validate_recv_packet d d' n ack h"
  shows "delivered committed (RecvPacket n ack h # ops) d'"
proof (cases "ordering (chan d) = Ordered")
  case True
  then show ?thesis using assms by (auto simp: delivered_def validate_defs)
next
  case False
  then have u: "ordering (chan d) = Unordered" using assms(3) by (auto simp: validate_recv_packet_def Let_def split: order.splits)
  have d': "chan d' = chan d" "minimum_receive_proof_height (state d') = minimum_receive_proof_height (state d)"
    "packet_receipt (state d') = (n, []) # packet_receipt (state d)"
    "h \<le> maximum_receive_proof_height (state d')"
    "maximum_receive_proof_height (state d) \<le> maximum_receive_proof_height (state d')"
    using assms(3) u by (auto simp: validate_defs)
  have "g \<le> maximum_receive_proof_height (state d')" if "(m, g) \<in> set (received ops)" for m g
    using that assms(1) u d'(5) by (auto simp: delivered_def)
  with assms(1,2) u d' show ?thesis by (auto simp: delivered_def js_has_def)
qed

lemma recv_is_new:
  assumes "delivered committed ops d" "commitments_stay_deleted committed" "committed n h"
    "\<not> js_has (packet_receipt (state d)) n" "validate_recv_packet d d' n ack h"
  shows "n \<notin> fst ` set (received ops)"
proof
  assume "n \<in> fst ` set (received ops)"
  then obtain g where g: "(n, g) \<in> set (received ops)" by auto
  have le: "minimum_receive_proof_height (state d) \<le> h" using assms(5) by (auto simp: validate_defs split: order.splits)
  show False
  proof (cases "ordering (chan d) = Ordered")
    case True
    then show ?thesis using g assms(1,5) by (auto simp: delivered_def validate_defs)
  next
    case False
    then obtain q where "committed n g" "g \<le> q" "q \<le> minimum_receive_proof_height (state d)" "\<not> committed n q"
      using g assms(1,4) by (auto simp: delivered_def)
    moreover from this le have "q \<le> h" by simp
    ultimately show False using assms(2,3) unfolding commitments_stay_deleted_def by blast
  qed
qed

lemma delivered_step:
  assumes "channel_step committed d op d'" "delivered committed ops d"
  shows "delivered committed (op # ops) d'"
  using assms(1)
proof (cases rule: channel_step.cases)
  case (recv n h ack)
  then show ?thesis using delivered_recv assms(2) by simp
next
  case (prune n h)
  then show ?thesis using delivered_prune [OF assms(2)] by (simp add: delivered_def)
qed (use assms(2) step_ordering [OF assms(1)] in \<open>auto simp: delivered_def validate_defs\<close>)

text \<open>
  C19. Exactly-once delivery: in no history of a channel, whatever the order of receipts, prunings
  and other operations, is the same packet received twice, on ordered and on unordered channels.
  The only thing asked of the counterparty is that a packet commitment that has been deleted does
  not come back.
\<close>

theorem no_packet_received_twice:
  assumes "channel_history committed ops d" and "commitments_stay_deleted committed"
  shows "distinct (map fst (received ops))"
proof -
  have "delivered committed ops d \<and> distinct (map fst (received ops))"
    using assms(1)
  proof (induction rule: channel_history.induct)
    case (step ops d op d')
    have "distinct (map fst (received (op # ops)))"
      using step.hyps(2)
    proof (cases rule: channel_step.cases)
      case (recv n h ack)
      then show ?thesis using recv_is_new [OF _ assms(2), of ops d n h d' ack] step.IH by simp
    qed (use step.IH in simp_all)
    with step delivered_step show ?case by blast
  qed (simp_all add: delivered_def)
  then show ?thesis ..
qed

theorem no_packet_received_twice_witness:
  "distinct (map fst (received [PrunePacketHistory 1 \<lparr>revisionNumber = 0, revisionHeight = 9\<rparr>,
     RecvPacket 1 ''c0'' \<lparr>revisionNumber = 0, revisionHeight = 5\<rparr>, OpenConfirm]))"
proof (rule no_packet_received_twice [OF example_history])
  show "commitments_stay_deleted below_7"
    by (auto simp: commitments_stay_deleted_def below_7_def height_le_iff)
qed

end
