(* ===== verification/Hex.thy ===== *)
theory Hex
  imports Js_Text
begin

section \<open>Hexadecimal codecs of the gateway\<close>

text \<open>
  \<open>cardano/gateway/src/shared/helpers/hex.ts\<close>. The module has two unrelated codecs: the
  permissive \<open>hexToBytes\<close>/\<open>convertHex2String\<close>, which read any text two characters at a time
  with \<open>parseInt\<close>, and the strict \<open>encode\<close>/\<open>decode\<close>, which report malformed input. Both are
  shown to invert the encoder, and the strict one to accept exactly the texts that are
  hexadecimal and of even length. Texts are ASCII where \<open>substr\<close> is applied to them. The hash
  functions of the module only call packages and are not modelled.
\<close>

definition hexTable :: buffer where
  "hexTable = utf8 ''0123456789abcdef''"

definition elem_toString16 :: "int \<Rightarrow> string" where
  "elem_toString16 e =
     (let n = nat \<bar>e\<bar>;
          digits16 = (if n < 16 then [hex_digit n]
            else if n < 256 then [hex_digit (n div 16), hex_digit (n mod 16)]
            else if n < 4096 then [hex_digit (n div 256), hex_digit (n div 16 mod 16), hex_digit (n mod 16)]
            else [hex_digit (n div 4096), hex_digit (n div 256 mod 16), hex_digit (n div 16 mod 16), hex_digit (n mod 16)])
      in if e < 0 then CHR ''-'' # digits16 else digits16)"

definition toHexString :: "int list \<Rightarrow> string" where
  "toHexString byteArray =
     foldl (\<lambda>output elem. output @ (let s = CHR ''0'' # elem_toString16 elem in drop (length s - 2) s)) [] byteArray"

subsection \<open>The permissive reader\<close>

text \<open>\<open>parseInt(s, 16)\<close>: blanks, a sign, an optional \<open>0x\<close>, then the longest run of digits.\<close>

definition parseInt16 :: "string \<Rightarrow> int option" where
  "parseInt16 s =
     (let t = dropWhile (\<lambda>c. c \<in> {CHR 0x20, CHR 0x09, CHR 0x0A, CHR 0x0B, CHR 0x0C, CHR 0x0D}) s;
          neg = (take 1 t = ''-'');
          u = (if take 1 t = ''-'' \<or> take 1 t = ''+'' then drop 1 t else t);
          v = (if take 2 u = ''0x'' \<or> take 2 u = ''0X'' then drop 2 u else u);
          ds = takeWhile is_hex v;
          n = foldl (\<lambda>a c. 16 * a + int (the (hex_val c))) 0 ds
      in if ds = [] then None else Some (if neg then - n else n))"

fun hexToBytes :: "string \<Rightarrow> int option list" where
  "hexToBytes [] = []"
| "hexToBytes [a] = [parseInt16 [a]]"
| "hexToBytes (a # b # rest) = parseInt16 [a, b] # hexToBytes rest"

text \<open>\<open>Buffer.from\<close> of an array of numbers reduces each modulo 256 and turns \<open>NaN\<close> into 0.\<close>

definition buffer_of_numbers :: "int option list \<Rightarrow> buffer" where
  "buffer_of_numbers ns = map (\<lambda>n. case n of Some k \<Rightarrow> word_of_int k | None \<Rightarrow> 0) ns"

definition convertHex2String :: "string \<Rightarrow> string" where
  "convertHex2String hexStr = (if hexStr = [] then [] else utf8_text (buffer_of_numbers (hexToBytes hexStr)))"

definition convertString2Hex :: "string \<Rightarrow> string" where
  "convertString2Hex str = (if str = [] then [] else to_hex (utf8 str))"

subsection \<open>The strict codec\<close>

definition encodedLen :: "nat \<Rightarrow> nat" where
  "encodedLen n = n * 2"

text \<open>
  The loop runs to the length of the output, not of the input: beyond the input it reads
  \<open>undefined\<close>, which shifts to 0, and writes outside the typed array, which has no effect.
\<close>

definition encode_step :: "buffer \<Rightarrow> nat \<Rightarrow> buffer \<Rightarrow> buffer" where
  "encode_step src i dst =
     (let v = (if i < length src then unat (src ! i) else 0)
      in dst[i * 2 := hexTable ! (v div 16), i * 2 + 1 := hexTable ! (v mod 16)])"

definition encode :: "buffer \<Rightarrow> buffer" where
  "encode src =
     (let n = encodedLen (length src) in fold (encode_step src) [0..<n] (replicate n 0))"

definition encodeToString :: "buffer \<Rightarrow> string" where
  "encodeToString src = utf8_text (encode src)"

definition toHex :: "buffer \<Rightarrow> string" where
  "toHex bytes = encodeToString bytes"

definition errLength :: error where
  "errLength = Error ''encoding/hex: odd length hex string''"

definition errInvalidByte :: "byte \<Rightarrow> error" where
  "errInvalidByte b = Error (''encoding/hex: invalid byte: '' @ utf8_text [b])"

definition fromHexChar :: "byte \<Rightarrow> nat result" where
  "fromHexChar b =
     (let n = unat b in
      if 48 \<le> n \<and> n \<le> 57 then Inr (n - 48)
      else if 97 \<le> n \<and> n \<le> 102 then Inr (n - 97 + 10)
      else if 65 \<le> n \<and> n \<le> 70 then Inr (n - 65 + 10)
      else Inl (errInvalidByte b))"

definition decodedLen :: "nat \<Rightarrow> nat" where
  "decodedLen x = x div 2"

fun decode :: "buffer \<Rightarrow> buffer result" where
  "decode [] = Inr []"
| "decode [c] = bindE (fromHexChar c) (\<lambda>_. Inl errLength)"
| "decode (x # y # src) =
     bindE (fromHexChar x) (\<lambda>a.
     bindE (fromHexChar y) (\<lambda>b.
     bindE (decode src) (\<lambda>dst. Inr (word_of_nat (a * 16 + b) # dst))))"

definition decodeString :: "string \<Rightarrow> buffer result" where
  "decodeString s = decode (utf8 s)"

definition fromHex :: "string \<Rightarrow> buffer result" where
  "fromHex hex = (if hex = [] then Inr [] else decodeString hex)"

text \<open>\<open>TextDecoder\<close> drops a leading byte order mark.\<close>

definition text_decoder :: "buffer \<Rightarrow> string" where
  "text_decoder bs = utf8_text (if take 3 bs = [0xEF, 0xBB, 0xBF] then drop 3 bs else bs)"

definition toText :: "string \<Rightarrow> string result" where
  "toText hex = bindE (decode (utf8 hex)) (\<lambda>bs. Inr (text_decoder bs))"

definition fromText :: "string \<Rightarrow> string" where
  "fromText text = toHex (utf8 text)"


section \<open>Properties\<close>

subsection \<open>Auxiliary facts\<close>

lemma hexTable_nth:
  assumes "n < 16"
  shows "hexTable ! n = byte_of_char (hex_digit n)"
proof -
  have digits: "''0123456789abcdef'' = map hex_digit [0..<16]" by code_simp
  have "hexTable ! n = map byte_of_char (map hex_digit [0..<16]) ! n"
    by (simp only: hexTable_def utf8_def digits)
  also have "\<dots> = byte_of_char (hex_digit n)"
    using assms by (subst nth_map, simp, subst nth_map) (simp_all del: upt_rec_numeral)
  finally show ?thesis .
qed

lemma fold_encode_step_length: "length (fold (encode_step src) is dst) = length dst"
  by (induction "is" arbitrary: dst) (simp_all add: encode_step_def Let_def)

lemma encode_prefix:
  assumes "length dst = 2 * length src" "k \<le> length src"
  shows "take (2 * k) (fold (encode_step src) [0..<k] dst) = utf8 (to_hex (take k src))"
  using assms(2)
proof (induction k)
  case (Suc k)
  let ?d = "fold (encode_step src) [0..<k] dst"
  have k: "k < length src" using Suc.prems by simp
  have len: "length ?d = 2 * length src" using assms(1) by (simp add: fold_encode_step_length)
  have "take (2 * Suc k) (encode_step src k ?d) =
      take (2 * k) ?d @ [hexTable ! (unat (src ! k) div 16), hexTable ! (unat (src ! k) mod 16)]"
    using k len by (simp add: encode_step_def Let_def take_Suc_conv_app_nth nth_list_update mult.commute [of k 2])
  then show ?case
    using Suc k by (simp add: take_Suc_conv_app_nth to_hex_def utf8_def hexTable_nth byte_nibbles)
qed (simp add: to_hex_def utf8_def)

lemma encode_step_outside: "length src \<le> i \<Longrightarrow> length dst = 2 * length src \<Longrightarrow> encode_step src i dst = dst"
  by (simp add: encode_step_def Let_def list_update_beyond)

lemma encode_eq: "encode src = utf8 (to_hex src)"
proof -
  let ?n = "length src"
  let ?d = "fold (encode_step src) [0..<?n] (replicate (2 * ?n) 0)"
  have len: "length ?d = 2 * ?n" by (simp add: fold_encode_step_length)
  have "\<forall>i \<in> set is. ?n \<le> i \<Longrightarrow> length d = 2 * ?n \<Longrightarrow> fold (encode_step src) is d = d" for "is" d
    by (induction "is" arbitrary: d) (simp_all add: encode_step_outside)
  from this [of "[?n..<2 * ?n]" ?d] have "fold (encode_step src) [?n..<2 * ?n] ?d = ?d" using len by simp
  moreover have "[0..<2 * ?n] = [0..<?n] @ [?n..<2 * ?n]" using upt_add_eq_append [of 0 ?n ?n] by (simp add: mult_2)
  ultimately have "encode src = ?d"
    by (simp add: encode_def encodedLen_def Let_def mult.commute [of _ 2])
  with encode_prefix [of "replicate (2 * ?n) 0" src ?n] len show ?thesis by simp
qed

lemma ascii_to_hex: "ascii (to_hex bs)"
proof -
  have "(of_char c :: nat) < 128" if "is_lower_hex c" for c using that by (auto simp: is_lower_hex_def Let_def)
  then show ?thesis using to_hex_lower [of bs] by (auto simp: ascii_def list_all_iff)
qed

lemma toHex_eq: "toHex bs = to_hex bs"
  using ascii_well_formed [OF ascii_to_hex] by (simp add: toHex_def encodeToString_def encode_eq well_formed_def)

lemma fromHexChar_val: "fromHexChar (byte_of_char c) =
    (case hex_val c of Some n \<Rightarrow> Inr n | None \<Rightarrow> Inl (errInvalidByte (byte_of_char c)))"
  by (auto simp: fromHexChar_def hex_val_def unat_byte_of_char Let_def)

lemma decode_Inr_iff:
  "decode (utf8 s) = Inr bs \<longleftrightarrow> even (length s) \<and> list_all is_hex s \<and> bs = from_hex s"
proof (induction s arbitrary: bs rule: from_hex.induct)
  case (1 a b cs)
  show ?case
  proof (cases "hex_val a = None \<or> hex_val b = None")
    case True
    then show ?thesis by (auto simp: utf8_def fromHexChar_val is_hex_def bindE_Inr_iff split: option.splits)
  next
    case False
    then obtain x y where "hex_val a = Some x" "hex_val b = Some y" by auto
    with 1 show ?thesis by (auto simp: utf8_def fromHexChar_val is_hex_def bindE_Inr_iff mult.commute)
  qed
qed (auto simp: utf8_def bindE_Inr_iff)

text \<open>
  The strict decoder is total on its domain and on nothing else: \<open>decodeString\<close> succeeds
  exactly on texts of even length that consist of hexadecimal digits of either case, and then
  returns the bytes that \<open>Buffer.from(s, 'hex')\<close> returns.
\<close>

theorem decodeString_accepts_iff:
  "decodeString s = Inr bs \<longleftrightarrow> even (length s) \<and> list_all is_hex s \<and> bs = from_hex s"
  unfolding decodeString_def by (rule decode_Inr_iff)

lemma hex_char_cases:
  assumes "hex_val c = Some n"
  shows "c \<noteq> CHR ''-''" "c \<noteq> CHR ''+''" "c \<noteq> CHR ''x''" "c \<noteq> CHR ''X''"
    "c \<notin> {CHR 0x20, CHR 0x09, CHR 0x0A, CHR 0x0B, CHR 0x0C, CHR 0x0D}"
  using assms by (auto simp: hex_val_def)

lemma parseInt16_pair:
  assumes "hex_val a = Some x" "hex_val b = Some y"
  shows "parseInt16 [a, b] = Some (int (16 * x + y))"
  using hex_char_cases [OF assms(1)] hex_char_cases [OF assms(2)] assms
  by (simp add: parseInt16_def Let_def is_hex_def)

lemma hexToBytes_to_hex: "buffer_of_numbers (hexToBytes (to_hex bs)) = bs"
proof (induction bs)
  case (Cons b bs)
  have "parseInt16 [hex_digit (unat b div 16), hex_digit (unat b mod 16)] =
      Some (int (16 * (unat b div 16) + unat b mod 16))"
    by (rule parseInt16_pair [OF hex_val_digit [OF byte_nibbles(1)] hex_val_digit [OF byte_nibbles(2)]])
  then have "parseInt16 [hex_digit (unat b div 16), hex_digit (unat b mod 16)] = Some (int (unat b))"
    by (simp only: mult_div_mod_eq)
  with Cons show ?case by (simp add: to_hex_def buffer_of_numbers_def)
qed (simp add: to_hex_def buffer_of_numbers_def)

text \<open>
  Round trips of both codecs: the strict decoder inverts \<open>toHex\<close> on every byte string, and the
  permissive reader inverts \<open>convertString2Hex\<close> on every well-formed text.
\<close>

theorem hex_round_trips:
  assumes "well_formed s"
  shows "fromHex (toHex bs) = Inr bs \<and> convertHex2String (convertString2Hex s) = s"
proof
  have "list_all is_hex (to_hex bs)"
  proof -
    have "is_hex c" if "is_lower_hex c" for c
      using that by (auto simp: is_hex_def is_lower_hex_def hex_val_def Let_def)
    then show ?thesis using to_hex_lower [of bs] by (auto simp: list_all_iff)
  qed
  then have "decode (utf8 (to_hex bs)) = Inr bs"
    by (simp add: decode_Inr_iff from_hex_to_hex)
  then show "fromHex (toHex bs) = Inr bs"
    by (auto simp: fromHex_def toHex_eq decodeString_def utf8_def)
  show "convertHex2String (convertString2Hex s) = s"
    using assms hexToBytes_to_hex [of "utf8 s"]
    by (auto simp: convertHex2String_def convertString2Hex_def well_formed_def to_hex_def utf8_def)
qed

theorem hex_round_trips_witness:
  "fromHex (toHex [0, 171, 255]) = Inr [0, 171, 255] \<and>
   convertHex2String (convertString2Hex ''transfer'') = ''transfer''"
  by (rule hex_round_trips) code_simp

end
