(* ===== verification/Packet_Commitment.thy ===== *)
theory Packet_Commitment
  imports Hex Js_Json Channel_Datum Merkle_Hash Witness_Hash
begin

section \<open>Packet and acknowledgement commitments\<close>

text \<open>
  \<open>commitPacket\<close> of \<open>cardano/gateway/src/shared/helpers/commitment.ts\<close> and the acknowledgement
  commitment of \<open>acknowledgement.ts\<close>, next to \<open>commit_packet\<close> and \<open>marshal_json\<close> of the on-chain
  library (\<open>ics-004/types/packet.ak\<close>, \<open>acknowledgement.ak\<close>). The theory shows where the two
  sides agree: on packets whenever the timeouts fit 64 bits, on acknowledgements whenever the
  payload needs no JSON escape. On-chain byte arrays are \<^typ>\<open>buffer\<close>s, and an on-chain failure is
  \<open>None\<close>.
\<close>

record packet =
  sequence :: nat
  source_port :: string
  source_channel :: string
  destination_port :: string
  destination_channel :: string
  data :: string
  timeout_height :: height
  timeout_timestamp :: nat

subsection \<open>Packets\<close>

text \<open>\<open>DataView.setBigUint64\<close> stores the value modulo \<open>2^64\<close>, most significant byte first.\<close>

definition uint64ToBigEndian :: "nat \<Rightarrow> buffer" where
  "uint64ToBigEndian i = map (\<lambda>k. word_of_nat (i mod 2 ^ 64 div 256 ^ k)) [7, 6, 5, 4, 3, 2, 1, 0]"

definition appendBuffer :: "buffer \<Rightarrow> buffer \<Rightarrow> buffer" where
  "appendBuffer buf1 buf2 = buf1 @ buf2"

definition hashSHA256 :: "hash_fun \<Rightarrow> string \<Rightarrow> string result" where
  "hashSHA256 sha d = bindE (fromHex d) (\<lambda>bytes. Inr (to_hex (sha bytes)))"

definition commitPacket :: "hash_fun \<Rightarrow> packet \<Rightarrow> string result" where
  "commitPacket sha p =
     (let timeoutHeight = timeout_height p;
          buf = uint64ToBigEndian (timeout_timestamp p);
          buf = appendBuffer buf (uint64ToBigEndian (revisionNumber timeoutHeight));
          buf = appendBuffer buf (uint64ToBigEndian (revisionHeight timeoutHeight))
      in bindE (fromHex (data p)) (\<lambda>bytes.
         let dataHash = to_hex (sha bytes); bufHex = toHex buf @ dataHash
         in hashSHA256 sha bufHex))"

text \<open>
  On chain: \<open>from_int_big_endian\<close> fails when the number does not fit.
\<close>

definition from_int_big_endian :: "nat \<Rightarrow> nat \<Rightarrow> buffer option" where
  "from_int_big_endian n len =
     (if n < 256 ^ len then Some (map (\<lambda>k. word_of_nat (n div 256 ^ (len - Suc k))) [0..<len]) else None)"

definition commit_packet :: "hash_fun \<Rightarrow> nat \<Rightarrow> height \<Rightarrow> buffer \<Rightarrow> buffer option" where
  "commit_packet sha ts h bytes =
     (case from_int_big_endian ts 8 of None \<Rightarrow> None | Some a \<Rightarrow>
     (case from_int_big_endian (revisionNumber h) 8 of None \<Rightarrow> None | Some b \<Rightarrow>
     (case from_int_big_endian (revisionHeight h) 8 of None \<Rightarrow> None | Some c \<Rightarrow>
        Some (sha (a @ b @ c @ sha bytes)))))"


subsection \<open>Acknowledgements\<close>

datatype acknowledgement_response =
    AcknowledgementResult string
  | AcknowledgementError string

definition extractAcknowledgementValue :: "acknowledgement_response \<Rightarrow> string \<times> string" where
  "extractAcknowledgementValue response =
     (case response of
        AcknowledgementResult r \<Rightarrow> (''result'', convertHex2String r)
      | AcknowledgementError e \<Rightarrow> (''error'', convertHex2String e))"

definition acknowledgementJsonFromResponse :: "acknowledgement_response \<Rightarrow> string" where
  "acknowledgementJsonFromResponse response =
     (let (key, val) = extractAcknowledgementValue response in the (json_text (JObject [(key, JString val)])))"

definition acknowledgementBytesFromResponse :: "acknowledgement_response \<Rightarrow> buffer" where
  "acknowledgementBytesFromResponse response = utf8 (acknowledgementJsonFromResponse response)"

definition acknowledgementHexFromResponse :: "acknowledgement_response \<Rightarrow> string" where
  "acknowledgementHexFromResponse response = toHex (acknowledgementBytesFromResponse response)"

definition acknowledgementCommitmentFromResponse :: "hash_fun \<Rightarrow> acknowledgement_response \<Rightarrow> string result" where
  "acknowledgementCommitmentFromResponse sha response =
     hashSHA256 sha (convertString2Hex (acknowledgementJsonFromResponse response))"

text \<open>On chain the payload is spliced between quotes as it is.\<close>

definition get_json :: "buffer \<Rightarrow> buffer \<Rightarrow> buffer" where
  "get_json key val = utf8 [CHR 0x22] @ key @ utf8 [CHR 0x22] @ utf8 '':'' @ utf8 [CHR 0x22] @ val @ utf8 [CHR 0x22]"

definition marshal_json :: "acknowledgement_response \<Rightarrow> buffer" where
  "marshal_json ack =
     (case ack of
        AcknowledgementResult r \<Rightarrow> utf8 ''{'' @ get_json (utf8 ''result'') (from_hex r) @ utf8 ''}''
      | AcknowledgementError e \<Rightarrow> utf8 ''{'' @ get_json (utf8 ''error'') (from_hex e) @ utf8 ''}'')"

definition commit_acknowledgement :: "hash_fun \<Rightarrow> buffer \<Rightarrow> buffer" where
  "commit_acknowledgement sha bytes = sha bytes"


section \<open>Properties\<close>

lemma fromHex_Inr_iff: "fromHex s = Inr bs \<longleftrightarrow> even (length s) \<and> list_all is_hex s \<and> bs = from_hex s"
  by (cases s) (auto simp: fromHex_def decodeString_def decode_Inr_iff)

lemma is_hex_to_hex: "list_all is_hex (to_hex bs)"
  using to_hex_lower [of bs] by (auto simp: list_all_iff is_lower_hex_imp_is_hex)

lemma fromHex_to_hex [simp]: "fromHex (to_hex bs) = Inr bs"
  by (simp add: fromHex_Inr_iff is_hex_to_hex)

lemma hashSHA256_to_hex [simp]: "hashSHA256 sha (to_hex bs) = Inr (to_hex (sha bs))"
  by (simp add: hashSHA256_def)

lemma fromHex_err: "\<not> (even (length s) \<and> list_all is_hex s) \<Longrightarrow> \<exists>e. fromHex s = Inl e"
  by (metis fromHex_Inr_iff sum.exhaust)

lemma from_int_big_endian_8:
  "from_int_big_endian n 8 = (if n < 2 ^ 64 then Some (uint64ToBigEndian n) else None)"
proof -
  have "[0..<8] = [0, 1, 2, 3, 4, 5, 6, 7]" by code_simp
  then show ?thesis by (simp add: from_int_big_endian_def uint64ToBigEndian_def)
qed

lemma commitPacket_eq:
  assumes "even (length (data p))" "list_all is_hex (data p)"
  shows "commitPacket sha p =
    Inr (to_hex (sha (uint64ToBigEndian (timeout_timestamp p) @ uint64ToBigEndian (revisionNumber (timeout_height p)) @
      uint64ToBigEndian (revisionHeight (timeout_height p)) @ sha (from_hex (data p)))))"
proof -
  let ?buf = "uint64ToBigEndian (timeout_timestamp p) @ uint64ToBigEndian (revisionNumber (timeout_height p)) @
    uint64ToBigEndian (revisionHeight (timeout_height p))"
  have "fromHex (data p) = Inr (from_hex (data p))" using assms by (simp add: fromHex_Inr_iff)
  moreover have "toHex ?buf @ to_hex (sha (from_hex (data p))) = to_hex (?buf @ sha (from_hex (data p)))"
    by (simp add: toHex_eq)
  ultimately show ?thesis
    using hashSHA256_to_hex [of sha "?buf @ sha (from_hex (data p))"]
    by (simp only: commitPacket_def appendBuffer_def Let_def bindE_simps append_assoc)
qed

text \<open>
  C24. Packet commitments agree with the chain and never disagree silently: \<open>commitPacket\<close> throws
  exactly when the packet data is not hexadecimal text; whenever the validator's
  \<open>commit_packet\<close> returns a commitment, the gateway returns the same one; and the validator
  fails exactly when a timeout does not fit 64 bits, the case in which the gateway wraps around.
\<close>

theorem packet_commitment_agrees:
  "((\<exists>e. commitPacket sha p = Inl e) \<longleftrightarrow> \<not> (even (length (data p)) \<and> list_all is_hex (data p))) \<and>
   (even (length (data p)) \<and> list_all is_hex (data p) \<longrightarrow>
     commit_packet sha (timeout_timestamp p) (timeout_height p) (from_hex (data p)) = Some c \<longrightarrow>
     commitPacket sha p = Inr (to_hex c)) \<and>
   (commit_packet sha (timeout_timestamp p) (timeout_height p) (from_hex (data p)) = None \<longleftrightarrow>
     \<not> (timeout_timestamp p < 2 ^ 64 \<and> revisionNumber (timeout_height p) < 2 ^ 64 \<and>
        revisionHeight (timeout_height p) < 2 ^ 64))"
proof (intro conjI impI)
  show "(\<exists>e. commitPacket sha p = Inl e) \<longleftrightarrow> \<not> (even (length (data p)) \<and> list_all is_hex (data p))"
  proof (cases "even (length (data p)) \<and> list_all is_hex (data p)")
    case True
    then show ?thesis by (simp add: commitPacket_eq)
  next
    case False
    from fromHex_err [OF this] show ?thesis using False by (auto simp: commitPacket_def Let_def)
  qed
next
  assume "even (length (data p)) \<and> list_all is_hex (data p)"
    and "commit_packet sha (timeout_timestamp p) (timeout_height p) (from_hex (data p)) = Some c"
  then show "commitPacket sha p = Inr (to_hex c)"
    by (auto simp: commitPacket_eq commit_packet_def from_int_big_endian_8 split: if_splits)
qed (auto simp: commit_packet_def from_int_big_endian_8)

theorem packet_commitment_agrees_witness:
  "commitPacket sum_hash \<lparr>sequence = 1, source_port = [], source_channel = [], destination_port = [],
     destination_channel = [], data = ''7b7D'', timeout_height = \<lparr>revisionNumber = 0, revisionHeight = 7\<rparr>,
     timeout_timestamp = 9\<rparr> =
   Inr (to_hex (the (commit_packet sum_hash 9 \<lparr>revisionNumber = 0, revisionHeight = 7\<rparr> [0x7b, 0x7d])))"
proof -
  let ?p = "\<lparr>sequence = 1, source_port = [], source_channel = [], destination_port = [],
     destination_channel = [], data = ''7b7D'', timeout_height = \<lparr>revisionNumber = 0, revisionHeight = 7\<rparr>,
     timeout_timestamp = 9\<rparr>"
  have d: "even (length ''7b7D'') \<and> list_all is_hex ''7b7D''" and h: "from_hex ''7b7D'' = [0x7b, 0x7d]"
    by code_simp+
  obtain c where c: "commit_packet sum_hash 9 \<lparr>revisionNumber = 0, revisionHeight = 7\<rparr> [0x7b, 0x7d] = Some c"
    by (auto simp: commit_packet_def from_int_big_endian_8)
  have "even (length (data ?p)) \<and> list_all is_hex (data ?p)" by (simp only: packet.select_convs d)
  moreover have "commit_packet sum_hash (timeout_timestamp ?p) (timeout_height ?p) (from_hex (data ?p)) = Some c"
    by (simp only: packet.select_convs h c)
  ultimately have "commitPacket sum_hash ?p = Inr (to_hex c)"
    using packet_commitment_agrees [of sum_hash ?p c] by blast
  then show ?thesis using c by simp
qed


subsection \<open>Acknowledgements\<close>

definition plain_json :: "string \<Rightarrow> bool" where
  "plain_json t = list_all (\<lambda>c. escape_char c = [c]) t"

lemma length_escape_char: "0 < length (escape_char c)" "length (escape_char c) = 1 \<Longrightarrow> escape_char c = [c]"
  by (auto simp: escape_char_def split: if_splits)

lemma length_escaped:
  "length t \<le> length (concat (map escape_char t))"
  "length (concat (map escape_char t)) = length t \<Longrightarrow> plain_json t"
proof -
  have "length t \<le> length (concat (map escape_char t)) \<and>
    (length (concat (map escape_char t)) = length t \<longrightarrow> plain_json t)"
  proof (induction t)
    case (Cons c t)
    have "length (escape_char c) = 1 \<or> length (escape_char c) \<ge> 2" using length_escape_char(1) [of c] by linarith
    with Cons length_escape_char(2) [of c] show ?case by (auto simp: plain_json_def)
  qed (simp add: plain_json_def)
  then show "length t \<le> length (concat (map escape_char t))"
    "length (concat (map escape_char t)) = length t \<Longrightarrow> plain_json t" by simp_all
qed

lemma escaped_eq_iff: "concat (map escape_char t) = t \<longleftrightarrow> plain_json t"
proof
  show "plain_json t" if "concat (map escape_char t) = t" using length_escaped(2) [of t] that by simp
  show "concat (map escape_char t) = t" if "plain_json t" using that by (induction t) (simp_all add: plain_json_def)
qed

lemma convertHex2String_utf8: "well_formed t \<Longrightarrow> convertHex2String (to_hex (utf8 t)) = t"
  using hexToBytes_to_hex [of "utf8 t"] by (cases t) (auto simp: convertHex2String_def well_formed_def utf8_def)

lemma inj_byte_of_char: "inj byte_of_char"
  by (metis char_of_byte_of_char injI)

fun payload :: "acknowledgement_response \<Rightarrow> string" where
  "payload (AcknowledgementResult r) = r"
| "payload (AcknowledgementError e) = e"

lemma ack_json:
  assumes "well_formed t" "payload r = to_hex (utf8 t)"
  shows "acknowledgementBytesFromResponse r = marshal_json r \<longleftrightarrow> plain_json t"
  using assms convertHex2String_utf8 [OF assms(1), unfolded utf8_def]
  by (cases r)
    (simp_all add: acknowledgementBytesFromResponse_def acknowledgementJsonFromResponse_def extractAcknowledgementValue_def
      marshal_json_def get_json_def json_string_def utf8_def escaped_eq_iff [symmetric]
      escape_char_def inj_map_eq_map [OF inj_byte_of_char])

lemma ack_commitment:
  "acknowledgementCommitmentFromResponse sha r = Inr (to_hex (sha (acknowledgementBytesFromResponse r)))"
proof -
  have "convertString2Hex s = to_hex (utf8 s)" for s by (simp add: convertString2Hex_def utf8_def)
  then show ?thesis by (simp add: acknowledgementCommitmentFromResponse_def acknowledgementBytesFromResponse_def)
qed

text \<open>
  C25. Acknowledgement commitments agree exactly on payloads without JSON escapes: the bytes the
  gateway commits for a response are the bytes the validator commits if and only if no character
  of the payload is escaped by \<open>JSON.stringify\<close>. For other payloads (a quote, a backslash or a
  control character in an error text) the two commitments differ unless SHA-256 collides.
\<close>

theorem acknowledgement_commitment_agrees_iff:
  assumes "well_formed t" and "payload r = to_hex (utf8 t)"
    and "inj_on sha {acknowledgementBytesFromResponse r, marshal_json r}"
  shows "acknowledgementCommitmentFromResponse sha r =
      Inr (to_hex (commit_acknowledgement sha (marshal_json r))) \<longleftrightarrow> plain_json t"
proof -
  have "sha (acknowledgementBytesFromResponse r) = sha (marshal_json r) \<longleftrightarrow>
      acknowledgementBytesFromResponse r = marshal_json r"
    using assms(3) by (auto dest: inj_onD)
  then show ?thesis using ack_json [OF assms(1,2)] by (simp add: ack_commitment commit_acknowledgement_def)
qed

theorem acknowledgement_commitment_agrees_iff_witness:
  "acknowledgementCommitmentFromResponse sum_hash (AcknowledgementResult (to_hex (utf8 ''AQ==''))) =
     Inr (to_hex (commit_acknowledgement sum_hash (marshal_json (AcknowledgementResult (to_hex (utf8 ''AQ==''))))))"
proof -
  let ?r = "AcknowledgementResult (to_hex (utf8 ''AQ==''))"
  have w: "well_formed ''AQ==''" and p: "plain_json ''AQ==''" by code_simp+
  have "acknowledgementBytesFromResponse ?r = marshal_json ?r" using ack_json [OF w, of ?r] p by simp
  then have "inj_on sum_hash {acknowledgementBytesFromResponse ?r, marshal_json ?r}"
    by simp
  from acknowledgement_commitment_agrees_iff [OF w _ this] p show ?thesis by simp
qed

end
