(* ===== verification/Host_Packets.thy ===== *)
theory Host_Packets
  imports Host_Validator Channel_Validator Packet_Commitment
begin

section \<open>The handle-packet check of the host state\<close>

text \<open>
  \<open>validate_handle_packet_root\<close> as a whole: given the channel datum in the input and in the output
  and the redeemer of the channel, it checks the datum, picks the keys that the operation changes
  and recomputes the root. \<open>cbor.serialise\<close> is a built-in function of the ledger: it is the record
  \<open>cbor\<close>, one field for each type that is serialised here. Byte arrays of the datum are hexadecimal
  text, as off chain. \<open>SpendHandshake\<close> stands for the four redeemers that are not packet operations; the
  search for the channel's input, output and redeemer in the transaction is not modelled, its
  results are the arguments.
\<close>

record cbor =
  serialise_int :: "nat \<Rightarrow> buffer"
  serialise_bytes :: "string \<Rightarrow> buffer"
  serialise_channel :: "channel \<Rightarrow> buffer"

datatype packet_redeemer =
    SpendSendPacket packet
  | SpendRecvPacket packet height
  | SpendAcknowledgePacket packet
  | SpendTimeoutPacket packet
  | SpendPrunePacketHistory nat
  | SpendHandshake

record packet_siblings =
  sib_channel :: "buffer list"
  sib_next_sequence_send :: "buffer list"
  sib_next_sequence_recv :: "buffer list"
  sib_next_sequence_ack :: "buffer list"
  sib_packet_commitment :: "buffer list"
  sib_packet_receipt :: "buffer list"
  sib_packet_acknowledgement :: "buffer list"

definition channel_id_from_token_name :: "string \<Rightarrow> buffer result" where
  "channel_id_from_token_name token_name =
     bindE (expect (length (from_hex token_name) > 24)) (\<lambda>_. Inr (utf8 ''channel-'' @ drop 24 (from_hex token_name)))"

definition expect_some :: "'a option \<Rightarrow> 'a result" where
  "expect_some x = (case x of Some y \<Rightarrow> Inr y | None \<Rightarrow> Inl (Error ''expect''))"

definition apply_packet_commitment_deletion :: "hash_fun \<Rightarrow> cbor \<Rightarrow> buffer \<Rightarrow> channel_datum \<Rightarrow> buffer \<Rightarrow> buffer \<Rightarrow> nat \<Rightarrow>
    buffer list \<Rightarrow> buffer result" where
  "apply_packet_commitment_deletion sha cb root d pid cid seq siblings =
     bindE (expect_some (map_of (packet_commitment (state d)) seq)) (\<lambda>commitment.
     apply_update sha root (packet_commitment_path pid cid seq) (serialise_bytes cb commitment) [] siblings)"

definition send_packet_branch :: "hash_fun \<Rightarrow> cbor \<Rightarrow> buffer \<Rightarrow> channel_datum \<Rightarrow> channel_datum \<Rightarrow> buffer \<Rightarrow> buffer \<Rightarrow>
    packet \<Rightarrow> packet_siblings \<Rightarrow> buffer result" where
  "send_packet_branch sha cb old_root i out pid cid p sib =
     bindE (expect_some (commit_packet sha (timeout_timestamp p) (timeout_height p) (from_hex (data p)))) (\<lambda>commitment.
     bindE (expect (validate_send_packet i out (sequence p) (to_hex commitment))) (\<lambda>_.
     bindE (apply_update sha old_root (next_sequence_send_path pid cid)
              (serialise_int cb (next_sequence_send (state i))) (serialise_int cb (next_sequence_send (state out)))
              (sib_next_sequence_send sib)) (\<lambda>sequence_root.
     apply_update sha sequence_root (packet_commitment_path pid cid (sequence p)) []
       (serialise_bytes cb (to_hex commitment)) (sib_packet_commitment sib))))"

definition recv_packet_branch :: "hash_fun \<Rightarrow> cbor \<Rightarrow> buffer \<Rightarrow> channel_datum \<Rightarrow> channel_datum \<Rightarrow> buffer \<Rightarrow> buffer \<Rightarrow>
    packet \<Rightarrow> height \<Rightarrow> packet_siblings \<Rightarrow> buffer result" where
  "recv_packet_branch sha cb old_root i out pid cid p proof_height sib =
     (let is_ordered = (ordering (chan i) = Ordered) in
      bindE (expect_some (map_of (packet_acknowledgement (state out)) (sequence p))) (\<lambda>acknowledgement.
      bindE (expect (validate_recv_packet i out (sequence p) acknowledgement proof_height)) (\<lambda>_.
      bindE (if is_ordered
             then apply_update sha old_root (next_sequence_recv_path pid cid)
                    (serialise_int cb (next_sequence_recv (state i))) (serialise_int cb (next_sequence_recv (state out)))
                    (sib_next_sequence_recv sib)
             else Inr old_root) (\<lambda>sequence_root.
      bindE (if is_ordered then Inr sequence_root
             else apply_update sha sequence_root (packet_receipt_path pid cid (sequence p)) []
                    (serialise_bytes cb []) (sib_packet_receipt sib)) (\<lambda>receipt_root.
      apply_update sha receipt_root (packet_acknowledgement_path pid cid (sequence p)) []
        (serialise_bytes cb acknowledgement) (sib_packet_acknowledgement sib))))))"

definition acknowledge_packet_branch :: "hash_fun \<Rightarrow> cbor \<Rightarrow> buffer \<Rightarrow> channel_datum \<Rightarrow> channel_datum \<Rightarrow> buffer \<Rightarrow> buffer \<Rightarrow>
    packet \<Rightarrow> packet_siblings \<Rightarrow> buffer result" where
  "acknowledge_packet_branch sha cb old_root i out pid cid p sib =
     bindE (expect (validate_acknowledge_packet i out (sequence p))) (\<lambda>_.
     bindE (if ordering (chan i) = Ordered
            then apply_update sha old_root (next_sequence_ack_path pid cid)
                   (serialise_int cb (next_sequence_ack (state i))) (serialise_int cb (next_sequence_ack (state out)))
                   (sib_next_sequence_ack sib)
            else Inr old_root) (\<lambda>sequence_root.
     apply_packet_commitment_deletion sha cb sequence_root i pid cid (sequence p) (sib_packet_commitment sib)))"

definition timeout_packet_branch :: "hash_fun \<Rightarrow> cbor \<Rightarrow> buffer \<Rightarrow> channel_datum \<Rightarrow> channel_datum \<Rightarrow> buffer \<Rightarrow> buffer \<Rightarrow>
    packet \<Rightarrow> packet_siblings \<Rightarrow> buffer result" where
  "timeout_packet_branch sha cb old_root i out pid cid p sib =
     bindE (expect (validate_timeout_packet i out (sequence p))) (\<lambda>_.
     bindE (if ordering (chan i) = Ordered
            then apply_update sha old_root (channel_path pid cid)
                   (serialise_channel cb (chan i)) (serialise_channel cb (chan out)) (sib_channel sib)
            else Inr old_root) (\<lambda>channel_root.
     apply_packet_commitment_deletion sha cb channel_root i pid cid (sequence p) (sib_packet_commitment sib)))"

definition prune_packet_branch :: "hash_fun \<Rightarrow> cbor \<Rightarrow> buffer \<Rightarrow> channel_datum \<Rightarrow> buffer \<Rightarrow> buffer \<Rightarrow> nat \<Rightarrow>
    packet_siblings \<Rightarrow> buffer result" where
  "prune_packet_branch sha cb old_root i pid cid seq sib =
     bindE (expect_some (map_of (packet_receipt (state i)) seq)) (\<lambda>receipt.
     bindE (expect_some (map_of (packet_acknowledgement (state i)) seq)) (\<lambda>acknowledgement.
     bindE (apply_update sha old_root (packet_receipt_path pid cid seq) (serialise_bytes cb receipt) []
              (sib_packet_receipt sib)) (\<lambda>receipt_root.
     apply_update sha receipt_root (packet_acknowledgement_path pid cid seq)
       (serialise_bytes cb acknowledgement) [] (sib_packet_acknowledgement sib))))"

definition validate_handle_packet_root :: "hash_fun \<Rightarrow> cbor \<Rightarrow> buffer \<Rightarrow> buffer \<Rightarrow> channel_datum \<Rightarrow> channel_datum \<Rightarrow>
    packet_redeemer \<Rightarrow> packet_siblings \<Rightarrow> bool" where
  "validate_handle_packet_root sha cb old_root new_root i out redeemer sib =
     (let pid = from_hex (port out) in
      bindE (channel_id_from_token_name (name (token out))) (\<lambda>cid.
        case redeemer of
          SpendSendPacket p \<Rightarrow> send_packet_branch sha cb old_root i out pid cid p sib
        | SpendRecvPacket p h \<Rightarrow> recv_packet_branch sha cb old_root i out pid cid p h sib
        | SpendAcknowledgePacket p \<Rightarrow> acknowledge_packet_branch sha cb old_root i out pid cid p sib
        | SpendTimeoutPacket p \<Rightarrow> timeout_packet_branch sha cb old_root i out pid cid p sib
        | SpendPrunePacketHistory n \<Rightarrow> prune_packet_branch sha cb old_root i pid cid n sib
        | SpendHandshake \<Rightarrow> Inl (Error ''fail'')) = Inr new_root)"

end
