(* ===== verification/Msg_Validate.thy ===== *)
theory Msg_Validate
  imports Hex Js_Json Channel_Datum
begin

section \<open>Message validation\<close>

text \<open>
  The request validators of the gateway: \<open>cardano/gateway/src/tx/helper/channel.validate.ts\<close> and
  \<open>packet.validate.ts\<close>, with the conversion of Merkle proofs of
  \<open>shared/helpers/merkle-proof.ts\<close>. Requests are records of the protobuf messages; their 64-bit
  fields are natural numbers, for which \<open>BigInt(x)\<close> and \<open>x || 0\<close> are the number itself. The
  protobuf decoder of proofs is generated code: it is the parameter \<open>protoDecode\<close>, whose error is the
  text of the exception. \<open>validateAndFormatTimeoutPacketParams\<close> applies \<open>JSON.parse\<close> to the packet
  data and is left out.
\<close>

subsection \<open>Proof messages\<close>

record leaf_op_msg =
  lo_hash :: nat
  lo_prehash_key :: nat
  lo_prehash_value :: nat
  lo_length :: nat
  lo_prefix :: buffer

record inner_op_msg =
  io_hash :: nat
  io_prefix :: buffer
  io_suffix :: buffer

record existence_proof_msg =
  ep_key :: buffer
  ep_value :: buffer
  ep_leaf :: "leaf_op_msg option"
  ep_path :: "inner_op_msg list"

record non_existence_proof_msg =
  np_key :: buffer
  np_left :: "existence_proof_msg option"
  np_right :: "existence_proof_msg option"

record commitment_proof_msg =
  cp_exist :: "existence_proof_msg option"
  cp_nonexist :: "non_existence_proof_msg option"
  cp_batch :: bool
  cp_compressed :: bool

record leaf_op =
  l_hash :: nat
  l_prehash_key :: nat
  l_prehash_value :: nat
  l_length :: nat
  l_prefix :: string

record inner_op =
  i_hash :: nat
  i_prefix :: string
  i_suffix :: string

record existence_proof =
  e_key :: string
  e_value :: string
  e_leaf :: leaf_op
  e_path :: "inner_op list"

record non_existence_proof =
  n_key :: string
  n_left :: existence_proof
  n_right :: existence_proof

datatype commitment_proof =
    CommitmentProof_Exist existence_proof
  | CommitmentProof_Nonexist non_existence_proof
  | CommitmentProof_Batch
  | CommitmentProof_Compressed

text \<open>A missing message reads as \<open>undefined\<close> everywhere, which \<open>toHex\<close> maps to the empty text.\<close>

definition initializeExistenceProof :: "existence_proof_msg option \<Rightarrow> existence_proof" where
  "initializeExistenceProof msg =
     (case msg of
        None \<Rightarrow> \<lparr>e_key = [], e_value = [],
          e_leaf = \<lparr>l_hash = 0, l_prehash_key = 0, l_prehash_value = 0, l_length = 0, l_prefix = []\<rparr>, e_path = []\<rparr>
      | Some m \<Rightarrow> \<lparr>e_key = toHex (ep_key m), e_value = toHex (ep_value m),
          e_leaf = (case ep_leaf m of
              None \<Rightarrow> \<lparr>l_hash = 0, l_prehash_key = 0, l_prehash_value = 0, l_length = 0, l_prefix = []\<rparr>
            | Some l \<Rightarrow> \<lparr>l_hash = lo_hash l, l_prehash_key = lo_prehash_key l, l_prehash_value = lo_prehash_value l,
                l_length = lo_length l, l_prefix = toHex (lo_prefix l)\<rparr>),
          e_path = map (\<lambda>innerOp. \<lparr>i_hash = io_hash innerOp, i_prefix = toHex (io_prefix innerOp),
            i_suffix = toHex (io_suffix innerOp)\<rparr>) (ep_path m)\<rparr>)"

definition initializeNonExistProof :: "non_existence_proof_msg \<Rightarrow> non_existence_proof" where
  "initializeNonExistProof msg =
     \<lparr>n_key = toHex (np_key msg), n_left = initializeExistenceProof (np_left msg),
      n_right = initializeExistenceProof (np_right msg)\<rparr>"

text \<open>An entry that is none of the four kinds becomes \<open>undefined\<close>.\<close>

definition initializeMerkleProof :: "commitment_proof_msg list \<Rightarrow> commitment_proof option list" where
  "initializeMerkleProof proofs =
     map (\<lambda>commitmentProof.
       case cp_exist commitmentProof of
         Some e \<Rightarrow> Some (CommitmentProof_Exist (initializeExistenceProof (Some e)))
       | None \<Rightarrow> (case cp_nonexist commitmentProof of
           Some n \<Rightarrow> Some (CommitmentProof_Nonexist (initializeNonExistProof n))
         | None \<Rightarrow>
             if cp_batch commitmentProof then Some CommitmentProof_Batch
             else if cp_compressed commitmentProof then Some CommitmentProof_Compressed
             else None)) proofs"

type_synonym proof_decoder = "buffer \<Rightarrow> string + commitment_proof_msg list"

definition decodeMerkleProof :: "proof_decoder \<Rightarrow> buffer \<Rightarrow> commitment_proof_msg list result" where
  "decodeMerkleProof protoDecode bytes =
     (case protoDecode bytes of
        Inr m \<Rightarrow> Inr m
      | Inl err \<Rightarrow> Inl (GrpcInvalidArgument (''Error decoding merkle proof: '' @ err)))"


subsection \<open>Identifiers\<close>

definition CHANNEL_ID_PREFIX :: string where
  "CHANNEL_ID_PREFIX = ''channel''"

definition has_channel_prefix :: "string \<Rightarrow> bool" where
  "has_channel_prefix s = prefix (CHANNEL_ID_PREFIX @ ''-'') s"

definition isSupportedGatewayPortId :: "string \<Rightarrow> bool" where
  "isSupportedGatewayPortId portId = (portId = ''transfer'' \<or> portId = ''mock'' \<or> portId = ''icqhost'')"

definition channel_prefix_error :: "string \<Rightarrow> error" where
  "channel_prefix_error field =
     GrpcInvalidArgument (''Invalid argument: '' @ [CHR 0x22] @ field @ [CHR 0x22] @ ''. Please use the prefix '' @
       [CHR 0x22] @ CHANNEL_ID_PREFIX @ ''-'' @ [CHR 0x22])"

definition signer_error :: error where
  "signer_error = GrpcInvalidArgument ''Invalid constructed address: Signer is not valid''"

definition quoted :: "string \<Rightarrow> string" where
  "quoted s = [CHR 0x22] @ s @ [CHR 0x22]"

definition channel_sequence_of :: "string \<Rightarrow> string" where
  "channel_sequence_of channelId = replace_all (CHANNEL_ID_PREFIX @ ''-'') [] channelId"

definition height_or_zero :: "height option \<Rightarrow> height" where
  "height_or_zero h = (case h of Some x \<Rightarrow> x | None \<Rightarrow> \<lparr>revisionNumber = 0, revisionHeight = 0\<rparr>)"


subsection \<open>Channel messages\<close>

datatype order_msg = ORDER_NONE_UNSPECIFIED | ORDER_UNORDERED | ORDER_ORDERED | UNRECOGNIZED

record channel_msg =
  cm_ordering :: order_msg
  cm_counterparty :: channel_counterparty
  cm_connection_hops :: "string list"
  cm_version :: string

record msg_channel_open_init =
  oi_port_id :: string
  oi_channel :: channel_msg
  oi_signer :: string

record msg_channel_open_try =
  ot_port_id :: string
  ot_channel :: channel_msg
  ot_counterparty_version :: string
  ot_proof_init :: buffer
  ot_proof_height :: "height option"
  ot_signer :: string

record msg_channel_open_ack =
  oa_channel_id :: "string option"
  oa_counterparty_channel_id :: string
  oa_counterparty_version :: string
  oa_proof_try :: buffer
  oa_proof_height :: "height option"
  oa_signer :: string

record msg_channel_open_confirm =
  oc_channel_id :: "string option"
  oc_proof_ack :: buffer
  oc_proof_height :: "height option"
  oc_signer :: string

record msg_channel_close_init =
  ci_port_id :: string
  ci_channel_id :: string
  ci_signer :: string

record msg_channel_close_confirm =
  cc_port_id :: string
  cc_channel_id :: "string option"
  cc_proof_init :: buffer
  cc_proof_height :: "height option"
  cc_signer :: string

record channel_open_init_operator =
  oio_connectionId :: string
  oio_counterpartyPortId :: string
  oio_ordering :: "order option"
  oio_version :: string
  oio_port_id :: string

record channel_open_try_operator =
  oto_connectionId :: string
  oto_counterparty :: channel_counterparty
  oto_ordering :: order
  oto_version :: string
  oto_port_id :: string
  oto_counterpartyVersion :: string
  oto_proofInit :: "commitment_proof option list"
  oto_proofHeight :: height

record channel_open_ack_operator =
  oao_channelSequence :: string
  oao_counterpartyChannelId :: string
  oao_counterpartyVersion :: string
  oao_proofTry :: "commitment_proof option list"
  oao_proofHeight :: height

record channel_open_confirm_operator =
  oco_channelSequence :: string
  oco_proofAck :: "commitment_proof option list"
  oco_proofHeight :: height

record channel_close_init_operator =
  cio_port_id :: string
  cio_channel_id :: string
  cio_signer :: string

record channel_close_confirm_operator =
  cco_port_id :: string
  cco_channelSequence :: string
  cco_proofInit :: "commitment_proof option list"
  cco_proofHeight :: height

text \<open>The \<open>switch\<close> leaves the variable \<open>undefined\<close> for an unrecognized order.\<close>

fun convert_order :: "order_msg \<Rightarrow> order option" where
  "convert_order ORDER_NONE_UNSPECIFIED = Some NoneOrder"
| "convert_order ORDER_UNORDERED = Some Unordered"
| "convert_order ORDER_ORDERED = Some Ordered"
| "convert_order UNRECOGNIZED = None"

definition validateAndFormatChannelOpenInitParams :: "msg_channel_open_init \<Rightarrow> (string \<times> channel_open_init_operator) result" where
  "validateAndFormatChannelOpenInitParams d =
     bindE (throwIf (oi_signer d = []) signer_error) (\<lambda>_.
     case cm_connection_hops (oi_channel d) of
       [] \<Rightarrow> Inl (GrpcInvalidArgument ''Invalid connection id: Connection Id is not valid'')
     | hop # _ \<Rightarrow> Inr (oi_signer d,
         \<lparr>oio_connectionId = hop, oio_counterpartyPortId = port_id (cm_counterparty (oi_channel d)),
          oio_ordering = convert_order (cm_ordering (oi_channel d)), oio_version = cm_version (oi_channel d),
          oio_port_id = oi_port_id d\<rparr>))"

definition validateAndFormatChannelOpenTryParams :: "proof_decoder \<Rightarrow> msg_channel_open_try \<Rightarrow>
    (string \<times> channel_open_try_operator) result" where
  "validateAndFormatChannelOpenTryParams protoDecode d =
     bindE (throwIf (ot_signer d = []) signer_error) (\<lambda>_.
     case cm_connection_hops (ot_channel d) of
       [] \<Rightarrow> Inl (GrpcInvalidArgument ''Invalid connection id: Connection Id is not valid'')
     | hop # _ \<Rightarrow> bindE (decodeMerkleProof protoDecode (ot_proof_init d)) (\<lambda>decodedProofInitMsg. Inr (ot_signer d,
         \<lparr>oto_connectionId = hop, oto_counterparty = cm_counterparty (ot_channel d), oto_ordering = Unordered,
          oto_version = cm_version (ot_channel d), oto_port_id = ot_port_id d,
          oto_counterpartyVersion = ot_counterparty_version d,
          oto_proofInit = initializeMerkleProof decodedProofInitMsg,
          oto_proofHeight = height_or_zero (ot_proof_height d)\<rparr>)))"

definition with_channel_id :: "string option \<Rightarrow> (string \<Rightarrow> 'a result) \<Rightarrow> 'a result" where
  "with_channel_id cid f =
     (case cid of
        None \<Rightarrow> Inl (channel_prefix_error ''channel_id'')
      | Some c \<Rightarrow> bindE (throwIf (\<not> has_channel_prefix c) (channel_prefix_error ''channel_id'')) (\<lambda>_. f c))"

definition validateAndFormatChannelOpenAckParams :: "proof_decoder \<Rightarrow> msg_channel_open_ack \<Rightarrow>
    (string \<times> channel_open_ack_operator) result" where
  "validateAndFormatChannelOpenAckParams protoDecode d =
     bindE (throwIf (oa_signer d = []) signer_error) (\<lambda>_.
     with_channel_id (oa_channel_id d) (\<lambda>c.
     bindE (decodeMerkleProof protoDecode (oa_proof_try d)) (\<lambda>decodedProofTryMsg. Inr (oa_signer d,
       \<lparr>oao_channelSequence = channel_sequence_of c, oao_counterpartyChannelId = oa_counterparty_channel_id d,
        oao_counterpartyVersion = oa_counterparty_version d, oao_proofTry = initializeMerkleProof decodedProofTryMsg,
        oao_proofHeight = height_or_zero (oa_proof_height d)\<rparr>))))"

definition validateAndFormatChannelOpenConfirmParams :: "proof_decoder \<Rightarrow> msg_channel_open_confirm \<Rightarrow>
    (string \<times> channel_open_confirm_operator) result" where
  "validateAndFormatChannelOpenConfirmParams protoDecode d =
     bindE (throwIf (oc_signer d = []) signer_error) (\<lambda>_.
     with_channel_id (oc_channel_id d) (\<lambda>c.
     bindE (decodeMerkleProof protoDecode (oc_proof_ack d)) (\<lambda>decodedProofTryMsg. Inr (oc_signer d,
       \<lparr>oco_channelSequence = channel_sequence_of c, oco_proofAck = initializeMerkleProof decodedProofTryMsg,
        oco_proofHeight = height_or_zero (oc_proof_height d)\<rparr>))))"

definition validateAndFormatChannelCloseInitParams :: "msg_channel_close_init \<Rightarrow>
    (string \<times> channel_close_init_operator) result" where
  "validateAndFormatChannelCloseInitParams d =
     bindE (throwIf (ci_signer d = []) signer_error) (\<lambda>_. Inr (ci_signer d,
       \<lparr>cio_port_id = ci_port_id d, cio_channel_id = channel_sequence_of (ci_channel_id d), cio_signer = ci_signer d\<rparr>))"

definition validateAndFormatChannelCloseConfirmParams :: "proof_decoder \<Rightarrow> msg_channel_close_confirm \<Rightarrow>
    (string \<times> channel_close_confirm_operator) result" where
  "validateAndFormatChannelCloseConfirmParams protoDecode d =
     bindE (throwIf (cc_signer d = []) signer_error) (\<lambda>_.
     with_channel_id (cc_channel_id d) (\<lambda>c.
     bindE (decodeMerkleProof protoDecode (cc_proof_init d)) (\<lambda>decodedProofInitMsg. Inr (cc_signer d,
       \<lparr>cco_port_id = cc_port_id d, cco_channelSequence = channel_sequence_of c,
        cco_proofInit = initializeMerkleProof decodedProofInitMsg,
        cco_proofHeight = height_or_zero (cc_proof_height d)\<rparr>))))"


subsection \<open>Packet messages\<close>

record packet_msg =
  pm_sequence :: nat
  pm_source_port :: string
  pm_source_channel :: string
  pm_destination_port :: string
  pm_destination_channel :: string
  pm_data :: buffer
  pm_timeout_height :: "height option"
  pm_timeout_timestamp :: "nat option"

record msg_recv_packet =
  rp_packet :: packet_msg
  rp_proof_commitment :: buffer
  rp_proof_height :: "height option"
  rp_signer :: string

record msg_acknowledgement =
  ap_packet :: packet_msg
  ap_acknowledgement :: buffer
  ap_proof_acked :: buffer
  ap_proof_height :: "height option"
  ap_signer :: string

record msg_prune_packet_history =
  pp_signer :: string
  pp_port_id :: string
  pp_channel_id :: "string option"
  pp_sequence :: nat
  pp_proof_height :: "height option"
  pp_proof_commitment_absence :: "buffer option"

record msg_transfer =
  tr_source_port :: string
  tr_source_channel :: string
  tr_denom :: "string option"
  tr_amount :: "string option"
  tr_sender :: string
  tr_receiver :: string
  tr_timeout_height :: "height option"
  tr_timeout_timestamp :: "nat option"
  tr_memo :: string
  tr_signer :: string

record recv_packet_operator =
  rpo_channelId :: string
  rpo_packetSequence :: nat
  rpo_packetData :: string
  rpo_proofCommitment :: "commitment_proof option list"
  rpo_proofHeight :: height
  rpo_timeoutHeight :: height
  rpo_timeoutTimestamp :: nat

record ack_packet_operator =
  apo_channelId :: string
  apo_packetSequence :: nat
  apo_packetData :: string
  apo_proofHeight :: height
  apo_proofAcked :: "commitment_proof option list"
  apo_acknowledgement :: string
  apo_timeoutHeight :: height
  apo_timeoutTimestamp :: nat

record prune_packet_history_operator =
  ppo_portId :: string
  ppo_channelId :: string
  ppo_sequence :: nat
  ppo_proofCommitmentAbsence :: "commitment_proof option list"
  ppo_proofHeight :: height
  ppo_signer :: string

record send_packet_operator =
  sourcePort :: string
  sourceChannel :: string
  token_denom :: string
  token_amount :: int
  sender :: string
  receiver :: string
  signer :: string
  timeoutHeight :: height
  timeoutTimestamp :: nat
  memo :: "string option"

definition validateAndFormatRecvPacketParams :: "proof_decoder \<Rightarrow> msg_recv_packet \<Rightarrow>
    (string \<times> recv_packet_operator) result" where
  "validateAndFormatRecvPacketParams protoDecode d =
     (let p = rp_packet d in
      bindE (throwIf (rp_signer d = []) signer_error) (\<lambda>_.
      bindE (throwIf (\<not> has_channel_prefix (pm_destination_channel p)) (channel_prefix_error ''destination_channel'')) (\<lambda>_.
      bindE (throwIf (\<not> isSupportedGatewayPortId (pm_destination_port p))
        (GrpcInvalidArgument (''Invalid argument: '' @ quoted ''destination_port'' @ '' '' @ pm_destination_port p @ '' not supported''))) (\<lambda>_.
      case pm_timeout_timestamp p of
        None \<Rightarrow> Inl (GrpcInvalidArgument (''Invalid argument: '' @ quoted ''packet.timeout_timestamp'' @ '' is required''))
      | Some ts \<Rightarrow>
          let th = height_or_zero (pm_timeout_height p) in
          bindE (throwIf (revisionHeight th \<noteq> 0 \<or> revisionNumber th \<noteq> 0)
            (GrpcInvalidArgument (''Invalid argument: '' @ quoted ''packet.timeout_height'' @
              '' is not supported for Cardano receive packets; use '' @ quoted ''packet.timeout_timestamp''))) (\<lambda>_.
          bindE (decodeMerkleProof protoDecode (rp_proof_commitment d)) (\<lambda>decodedProofCommitment. Inr (rp_signer d,
            \<lparr>rpo_channelId = pm_destination_channel p, rpo_packetSequence = pm_sequence p, rpo_packetData = toHex (pm_data p),
             rpo_proofCommitment = initializeMerkleProof decodedProofCommitment,
             rpo_proofHeight = height_or_zero (rp_proof_height d),
             rpo_timeoutHeight = th, rpo_timeoutTimestamp = ts\<rparr>)))))))"

definition validateAndFormatAcknowledgementPacketParams :: "proof_decoder \<Rightarrow> msg_acknowledgement \<Rightarrow>
    (string \<times> ack_packet_operator) result" where
  "validateAndFormatAcknowledgementPacketParams protoDecode d =
     (let p = ap_packet d in
      bindE (throwIf (ap_signer d = []) signer_error) (\<lambda>_.
      bindE (throwIf (\<not> has_channel_prefix (pm_source_channel p)) (channel_prefix_error ''source_channel'')) (\<lambda>_.
      bindE (throwIf (\<not> isSupportedGatewayPortId (pm_source_port p))
        (GrpcInvalidArgument (''Invalid argument: '' @ quoted ''source_port'' @ '' '' @ pm_source_port p @ '' not supported''))) (\<lambda>_.
      bindE (decodeMerkleProof protoDecode (ap_proof_acked d)) (\<lambda>decodedProofAcked. Inr (ap_signer d,
        \<lparr>apo_channelId = pm_source_channel p, apo_packetSequence = pm_sequence p, apo_packetData = toHex (pm_data p),
         apo_proofHeight = height_or_zero (ap_proof_height d), apo_proofAcked = initializeMerkleProof decodedProofAcked,
         apo_acknowledgement = toHex (ap_acknowledgement d),
         apo_timeoutHeight = height_or_zero (pm_timeout_height p),
         apo_timeoutTimestamp = (case pm_timeout_timestamp p of Some ts \<Rightarrow> ts | None \<Rightarrow> 0)\<rparr>))))))"

text \<open>The \<open>catch\<close> around the conversions of sequence and height is not reachable for bigints.\<close>

definition validateAndFormatPrunePacketHistoryParams :: "proof_decoder \<Rightarrow> msg_prune_packet_history \<Rightarrow>
    prune_packet_history_operator result" where
  "validateAndFormatPrunePacketHistoryParams protoDecode d =
     bindE (throwIf (pp_signer d = []) (GrpcInvalidArgument (''Invalid argument: '' @ quoted ''signer'' @ '' is required''))) (\<lambda>_.
     bindE (throwIf (pp_port_id d = []) (GrpcInvalidArgument (''Invalid argument: '' @ quoted ''port_id'' @ '' is required''))) (\<lambda>_.
     with_channel_id (pp_channel_id d) (\<lambda>channelId.
     let proofHeight = height_or_zero (pp_proof_height d) in
     bindE (throwIf (pp_sequence d = 0) (GrpcInvalidArgument (''Invalid argument: '' @ quoted ''sequence'' @ '' must be positive''))) (\<lambda>_.
     bindE (throwIf (revisionHeight proofHeight = 0)
       (GrpcInvalidArgument (''Invalid argument: '' @ quoted ''proof_height.revision_height'' @ '' must be positive''))) (\<lambda>_.
     let absence = (case pp_proof_commitment_absence d of Some b \<Rightarrow> b | None \<Rightarrow> []) in
     bindE (throwIf (absence = [])
       (GrpcInvalidArgument (''Invalid argument: '' @ quoted ''proof_commitment_absence'' @ '' is required''))) (\<lambda>_.
     bindE (decodeMerkleProof protoDecode absence) (\<lambda>m. Inr
       \<lparr>ppo_portId = pp_port_id d, ppo_channelId = channelId, ppo_sequence = pp_sequence d,
        ppo_proofCommitmentAbsence = initializeMerkleProof m, ppo_proofHeight = proofHeight, ppo_signer = pp_signer d\<rparr>)))))))"

definition validateAndFormatSendPacketParams :: "msg_transfer \<Rightarrow> send_packet_operator result" where
  "validateAndFormatSendPacketParams d =
     bindE (throwIf (tr_sender d = []) (GrpcInvalidArgument ''Invalid constructed address: sender is not valid'')) (\<lambda>_.
     bindE (throwIf (tr_receiver d = []) (GrpcInvalidArgument ''Invalid constructed address: receiver is not valid'')) (\<lambda>_.
     bindE (throwIf (\<not> has_channel_prefix (tr_source_channel d)) (channel_prefix_error ''source_channel'')) (\<lambda>_.
     bindE (throwIf (tr_signer d = []) (GrpcInvalidArgument ''Invalid constructed address: signer is not valid'')) (\<lambda>_.
     let tokenDenom = (case tr_denom d of Some t \<Rightarrow> js_trim t | None \<Rightarrow> []) in
     bindE (throwIf (tokenDenom = []) (GrpcInvalidArgument (''Invalid argument: '' @ quoted ''token.denom'' @ '' is required''))) (\<lambda>_.
     case tr_amount d of
       None \<Rightarrow> Inl (GrpcInvalidArgument (''Invalid argument: '' @ quoted ''token.amount'' @ '' is required''))
     | Some amount \<Rightarrow>
         (case js_BigInt amount of
            Inl _ \<Rightarrow> Inl (GrpcInvalidArgument (''Invalid argument: '' @ quoted ''token.amount'' @ '' must be an integer string''))
          | Inr tokenAmount \<Rightarrow> Inr
              \<lparr>sourcePort = tr_source_port d, sourceChannel = tr_source_channel d, token_denom = tokenDenom,
               token_amount = tokenAmount, sender = tr_sender d, receiver = tr_receiver d, signer = tr_signer d,
               timeoutHeight = height_or_zero (tr_timeout_height d),
               timeoutTimestamp = (case tr_timeout_timestamp d of Some ts \<Rightarrow> ts | None \<Rightarrow> 0),
               memo = (if tr_memo d = [] then None else Some (tr_memo d))\<rparr>))))))"

end
