(* ===== verification/Packet_Service.thy ===== *)
theory Packet_Service
  imports Channel_Validator Packet_Commitment Msg_Validate
begin

section \<open>Channel updates of the packet service\<close>

text \<open>
  How \<open>cardano/gateway/src/tx/packet.service.ts\<close> checks a packet request against the channel datum
  and computes the updated datum: the guards and the datum of
  \<open>buildUnsignedRecvPacketTx\<close>, \<open>buildUnsignedAcknowlegementPacketTx\<close>,
  \<open>buildUnsignedTimeoutPacketTx\<close>, \<open>buildUnsignedPrunePacketHistoryTx\<close> and of the async-icq send, with
  the capacity checks of \<open>packet.validate.ts\<close> and the height comparisons of
  \<open>packet-history-height.ts\<close> and \<open>height.validate.ts\<close>. The look-ups of UTxOs and datums are services:
  their results (the channel datum, the heights of the client's consensus states) are arguments.
  The theory shows that the updates are the ones the channel validator accepts, and where they
  are not.
\<close>

definition MAX_PACKET_ENTRIES_PER_CHANNEL :: nat where
  "MAX_PACKET_ENTRIES_PER_CHANNEL = 64"

definition packetCapacityExhausted :: "channel_datum \<Rightarrow> error" where
  "packetCapacityExhausted d =
     GrpcFailedPrecondition (''Channel '' @ port d @ '' retained packet state capacity of '' @
       dec_string MAX_PACKET_ENTRIES_PER_CHANNEL @ '' is exhausted'')"

definition packetEntryCount :: "channel_datum \<Rightarrow> nat" where
  "packetEntryCount d =
     length (packet_commitment (state d)) + length (packet_receipt (state d)) + length (packet_acknowledgement (state d))"

definition validateRecvPacketHistoryCapacity :: "channel_datum \<Rightarrow> unit result" where
  "validateRecvPacketHistoryCapacity d =
     (let insertedEntries = (if ordering (chan d) = Unordered then 2 else 1) in
      throwIf (packetEntryCount d + insertedEntries > MAX_PACKET_ENTRIES_PER_CHANNEL) (packetCapacityExhausted d))"

definition validateSendPacketCommitmentCapacity :: "channel_datum \<Rightarrow> unit result" where
  "validateSendPacketCommitmentCapacity d =
     throwIf (packetEntryCount d \<ge> MAX_PACKET_ENTRIES_PER_CHANNEL) (packetCapacityExhausted d)"

definition isHeightAtLeast :: "height \<Rightarrow> height \<Rightarrow> bool" where
  "isHeightAtLeast candidate bound =
     (revisionNumber candidate > revisionNumber bound \<or>
      revisionNumber candidate = revisionNumber bound \<and> revisionHeight candidate \<ge> revisionHeight bound)"

definition maximumHeight :: "height \<Rightarrow> height \<Rightarrow> height" where
  "maximumHeight left right = (if isHeightAtLeast left right then left else right)"

definition isValidProofHeight :: "height list \<Rightarrow> height \<Rightarrow> bool" where
  "isValidProofHeight heights proofHeight =
     list_ex (\<lambda>h. revisionNumber h = revisionNumber proofHeight \<and> revisionHeight h = revisionHeight proofHeight) heights"

definition height_text :: "height \<Rightarrow> string" where
  "height_text h = dec_string (revisionNumber h) @ ''/'' @ dec_string (revisionHeight h)"


subsection \<open>Receive\<close>

definition recv_packet_checks :: "height list \<Rightarrow> recv_packet_operator \<Rightarrow> channel_datum \<Rightarrow> unit result" where
  "recv_packet_checks heightsArray rop d =
     bindE (validateRecvPacketHistoryCapacity d) (\<lambda>_.
     bindE (throwIf (ch_state (chan d) \<noteq> Open) (Error ''SendPacket to channel not in Open state'')) (\<lambda>_.
     bindE (throwIf (ordering (chan d) = Ordered \<and> rpo_packetSequence rop \<noteq> next_sequence_recv (state d))
       (Error ''Invalid recv packet sequence'')) (\<lambda>_.
     bindE (throwIf (\<not> isValidProofHeight heightsArray (rpo_proofHeight rop))
       (GrpcInternal (''Invalid proof height: '' @ height_text (rpo_proofHeight rop)))) (\<lambda>_.
     bindE (throwIf (\<not> isHeightAtLeast (rpo_proofHeight rop) (minimum_receive_proof_height (state d)))
       (GrpcFailedPrecondition (''RecvPacket proof height '' @ height_text (rpo_proofHeight rop) @
          '' is below the channel history floor '' @ height_text (minimum_receive_proof_height (state d))))) (\<lambda>_.
     throwIf (js_has (packet_receipt (state d)) (rpo_packetSequence rop))
       (GrpcInternal (''PacketReceivedException: Packet with sequence '' @ dec_string (rpo_packetSequence rop) @
          '' has recieved'')))))))"

definition recv_packet_of :: "recv_packet_operator \<Rightarrow> channel_datum \<Rightarrow> packet" where
  "recv_packet_of rop d =
     \<lparr>sequence = rpo_packetSequence rop, source_port = port_id (counterparty (chan d)),
      source_channel = channel_id (counterparty (chan d)), destination_port = port d,
      destination_channel = convertString2Hex (rpo_channelId rop), data = rpo_packetData rop,
      timeout_height = rpo_timeoutHeight rop, timeout_timestamp = rpo_timeoutTimestamp rop\<rparr>"

definition recv_updated_datum :: "recv_packet_operator \<Rightarrow> string \<Rightarrow> channel_datum \<Rightarrow> channel_datum" where
  "recv_updated_datum rop ackCommitment d =
     (let s = state d; seq = rpo_packetSequence rop; isOrderedChannel = (ordering (chan d) = Ordered);
          nextSequenceRecv = (if isOrderedChannel then next_sequence_recv s + 1 else next_sequence_recv s);
          packetReceipt = (if isOrderedChannel then packet_receipt s else prependToMap (packet_receipt s) seq [])
      in d\<lparr>state := s\<lparr>next_sequence_recv := nextSequenceRecv,
           maximum_receive_proof_height := maximumHeight (maximum_receive_proof_height s) (rpo_proofHeight rop),
           packet_receipt := packetReceipt,
           packet_acknowledgement := insertSortMapWithNumberKey (packet_acknowledgement s) seq ackCommitment False\<rparr>\<rparr>)"

text \<open>
  The acknowledgement commitment is that of the executor's response on the async-icq port, and the
  commitment of the fixed success acknowledgement for transfers.
\<close>

definition transfer_ack_commitment :: string where
  "transfer_ack_commitment = ''08F7557ED51826FE18D84512BF24EC75001EDBAF2123A477DF72A0A9F3640A7C''"

definition recvPacket :: "height list \<Rightarrow> recv_packet_operator \<Rightarrow> string \<Rightarrow> channel_datum \<Rightarrow>
    (packet \<times> channel_datum) result" where
  "recvPacket heightsArray rop ackCommitment d =
     bindE (recv_packet_checks heightsArray rop d) (\<lambda>_.
     Inr (recv_packet_of rop d, recv_updated_datum rop ackCommitment d))"

definition recvAsyncIcqPacket :: "hash_fun \<Rightarrow> height list \<Rightarrow> recv_packet_operator \<Rightarrow> acknowledgement_response \<Rightarrow>
    channel_datum \<Rightarrow> (packet \<times> channel_datum) result" where
  "recvAsyncIcqPacket sha heightsArray rop response d =
     bindE (acknowledgementCommitmentFromResponse sha response) (\<lambda>ackCommitment. recvPacket heightsArray rop ackCommitment d)"


subsection \<open>Acknowledge and time out\<close>

definition ack_packet_checks :: "height list \<Rightarrow> ack_packet_operator \<Rightarrow> channel_datum \<Rightarrow> unit result" where
  "ack_packet_checks heightsArray aop d =
     bindE (throwIf (ch_state (chan d) \<noteq> Open) (Error ''SendPacket to channel not in Open state'')) (\<lambda>_.
     bindE (throwIf (\<not> isValidProofHeight heightsArray (apo_proofHeight aop))
       (GrpcInternal (''Invalid proof height: '' @ height_text (apo_proofHeight aop)))) (\<lambda>_.
     throwIf (\<not> js_has (packet_commitment (state d)) (apo_packetSequence aop))
       (GrpcInternal (''PacketAcknowledgedException: Packet with sequence '' @ dec_string (apo_packetSequence aop) @
          '' not exists in the packet commitment map''))))"

definition ack_packet_of :: "ack_packet_operator \<Rightarrow> channel_datum \<Rightarrow> packet" where
  "ack_packet_of aop d =
     \<lparr>sequence = apo_packetSequence aop, source_port = port d, source_channel = convertString2Hex (apo_channelId aop),
      destination_port = port_id (counterparty (chan d)), destination_channel = channel_id (counterparty (chan d)),
      data = apo_packetData aop, timeout_height = apo_timeoutHeight aop, timeout_timestamp = apo_timeoutTimestamp aop\<rparr>"

definition ack_updated_datum :: "ack_packet_operator \<Rightarrow> channel_datum \<Rightarrow> channel_datum" where
  "ack_updated_datum aop d =
     d\<lparr>state := (state d)\<lparr>packet_commitment := deleteKeySortMap (packet_commitment (state d)) (apo_packetSequence aop)\<rparr>\<rparr>"

definition acknowledgePacket :: "height list \<Rightarrow> ack_packet_operator \<Rightarrow> channel_datum \<Rightarrow> (packet \<times> channel_datum) result" where
  "acknowledgePacket heightsArray aop d =
     bindE (ack_packet_checks heightsArray aop d) (\<lambda>_. Inr (ack_packet_of aop d, ack_updated_datum aop d))"

definition timeoutPacket :: "height list \<Rightarrow> height \<Rightarrow> packet \<Rightarrow> channel_datum \<Rightarrow> channel_datum result" where
  "timeoutPacket heightsArray proofHeight p d =
     bindE (throwIf (\<not> isValidProofHeight heightsArray proofHeight)
       (GrpcInternal (''Invalid proof height: '' @ height_text proofHeight))) (\<lambda>_.
     Inr (d\<lparr>state := (state d)\<lparr>packet_commitment := deleteSortMap (packet_commitment (state d)) (sequence p) None\<rparr>\<rparr>))"


subsection \<open>Prune\<close>

definition prune_checks :: "prune_packet_history_operator \<Rightarrow> channel_datum \<Rightarrow> unit result" where
  "prune_checks pop d =
     bindE (throwIf (convertHex2String (port d) \<noteq> ppo_portId pop)
       (GrpcFailedPrecondition (''Channel '' @ ppo_channelId pop @ '' belongs to port '' @ convertHex2String (port d) @
          '', not '' @ ppo_portId pop))) (\<lambda>_.
     bindE (throwIf (ordering (chan d) \<noteq> Unordered)
       (GrpcFailedPrecondition ''Packet history pruning is only valid for unordered channels'')) (\<lambda>_.
     bindE (throwIf (\<not> js_has (packet_receipt (state d)) (ppo_sequence pop))
       (GrpcFailedPrecondition (''Packet receipt '' @ dec_string (ppo_sequence pop) @ '' does not exist on '' @ ppo_channelId pop))) (\<lambda>_.
     bindE (throwIf (\<not> js_has (packet_acknowledgement (state d)) (ppo_sequence pop))
       (GrpcFailedPrecondition (''Packet acknowledgement '' @ dec_string (ppo_sequence pop) @ '' does not exist on '' @ ppo_channelId pop))) (\<lambda>_.
     bindE (throwIf (\<not> isHeightAtLeast (ppo_proofHeight pop) (minimum_receive_proof_height (state d)))
       (GrpcFailedPrecondition (''Prune proof height '' @ height_text (ppo_proofHeight pop) @
          '' is below the channel history floor '' @ height_text (minimum_receive_proof_height (state d))))) (\<lambda>_.
     throwIf (\<not> isHeightAtLeast (ppo_proofHeight pop) (maximum_receive_proof_height (state d)))
       (GrpcFailedPrecondition (''Prune proof height '' @ height_text (ppo_proofHeight pop) @
          '' is below the channel receive high-water mark '' @ height_text (maximum_receive_proof_height (state d)))))))))"

definition prune_updated_datum :: "prune_packet_history_operator \<Rightarrow> channel_datum \<Rightarrow> channel_datum" where
  "prune_updated_datum pop d =
     d\<lparr>state := (state d)\<lparr>packet_receipt := deleteKeySortMap (packet_receipt (state d)) (ppo_sequence pop),
        packet_acknowledgement := deleteKeySortMap (packet_acknowledgement (state d)) (ppo_sequence pop),
        minimum_receive_proof_height := ppo_proofHeight pop\<rparr>\<rparr>"

definition prunePacketHistory :: "prune_packet_history_operator \<Rightarrow> channel_datum \<Rightarrow> channel_datum result" where
  "prunePacketHistory pop d = bindE (prune_checks pop d) (\<lambda>_. Inr (prune_updated_datum pop d))"


subsection \<open>Async-icq send\<close>

record send_module_packet_operator =
  smo_sourcePort :: string
  smo_sourceChannel :: string
  smo_packetData :: string
  smo_timeoutHeight :: height
  smo_timeoutTimestamp :: nat

definition ASYNC_ICQ_HOST_PORT :: string where
  "ASYNC_ICQ_HOST_PORT = ''icqhost''"

definition DEFAULT_ASYNC_ICQ_TIMEOUT_HEIGHT_DELTA :: nat where
  "DEFAULT_ASYNC_ICQ_TIMEOUT_HEIGHT_DELTA = 1000"

definition resolvedTimeoutHeight :: "height \<Rightarrow> send_module_packet_operator \<Rightarrow> height" where
  "resolvedTimeoutHeight latestHeight sop =
     (if revisionNumber (smo_timeoutHeight sop) = 0 \<and> revisionHeight (smo_timeoutHeight sop) = 0 \<and> smo_timeoutTimestamp sop = 0
      then \<lparr>revisionNumber = revisionNumber latestHeight,
            revisionHeight = revisionHeight latestHeight + DEFAULT_ASYNC_ICQ_TIMEOUT_HEIGHT_DELTA\<rparr>
      else smo_timeoutHeight sop)"

definition module_packet_of :: "height \<Rightarrow> send_module_packet_operator \<Rightarrow> channel_datum \<Rightarrow> packet" where
  "module_packet_of latestHeight sop d =
     \<lparr>sequence = next_sequence_send (state d), source_port = convertString2Hex (smo_sourcePort sop),
      source_channel = convertString2Hex (smo_sourceChannel sop),
      destination_port = port_id (counterparty (chan d)), destination_channel = channel_id (counterparty (chan d)),
      data = smo_packetData sop, timeout_height = resolvedTimeoutHeight latestHeight sop,
      timeout_timestamp = smo_timeoutTimestamp sop\<rparr>"

definition send_updated_datum :: "nat \<Rightarrow> string \<Rightarrow> channel_datum \<Rightarrow> channel_datum" where
  "send_updated_datum seq packetCommitment d =
     d\<lparr>state := (state d)\<lparr>next_sequence_send := next_sequence_send (state d) + 1,
        packet_commitment := insertSortMapWithNumberKey (packet_commitment (state d)) seq packetCommitment False\<rparr>\<rparr>"

definition sendModulePacket :: "hash_fun \<Rightarrow> height \<Rightarrow> send_module_packet_operator \<Rightarrow> channel_datum \<Rightarrow>
    (packet \<times> channel_datum) result" where
  "sendModulePacket sha latestHeight sop d =
     bindE (throwIf (smo_sourcePort sop \<noteq> ASYNC_ICQ_HOST_PORT)
       (GrpcInvalidArgument (''Invalid argument: '' @ quoted ''source_port'' @ '' '' @ smo_sourcePort sop @
          '' not supported for async-icq send''))) (\<lambda>_.
     bindE (validateSendPacketCommitmentCapacity d) (\<lambda>_.
     let p = module_packet_of latestHeight sop d in
     bindE (commitPacket sha p) (\<lambda>packetCommitment.
     Inr (p, send_updated_datum (sequence p) packetCommitment d))))"


section \<open>Properties\<close>

lemma isHeightAtLeast_iff: "isHeightAtLeast a b \<longleftrightarrow> b \<le> a"
  by (auto simp: isHeightAtLeast_def height_le_iff)

lemma height_compare_le:
  "height_compare a b = Less \<longleftrightarrow> \<not> b \<le> a" "height_compare a b = Greater \<longleftrightarrow> \<not> a \<le> b"
  by (auto simp: height_compare_iff)

lemma maximumHeight_eq: "maximumHeight a b = (if height_compare b a = Greater then b else a)"
  by (simp add: maximumHeight_def isHeightAtLeast_iff height_compare_le)

lemma max_entries_eq: "max_packet_entries_per_channel = MAX_PACKET_ENTRIES_PER_CHANNEL"
  by (simp add: max_packet_entries_per_channel_def MAX_PACKET_ENTRIES_PER_CHANNEL_def)

lemma packetEntryCount_eq: "packetEntryCount d = packet_entry_count (state d)"
  by (simp add: packetEntryCount_def packet_entry_count_def)

text \<open>Sequences below \<open>2^53\<close> sort exactly.\<close>

definition sequences_safe :: "channel_datum \<Rightarrow> bool" where
  "sequences_safe d =
     (safe_keys (packet_commitment (state d)) \<and> safe_keys (packet_acknowledgement (state d)))"

lemma channel_inv_maps:
  assumes "channel_inv d"
  shows "ascending (packet_commitment (state d))" "ascending (packet_acknowledgement (state d))"
    "distinct (map fst (packet_receipt (state d)))" "ordering (chan d) = Ordered \<or> ordering (chan d) = Unordered"
  using assms by (simp_all add: channel_inv_def Let_def)

lemma recv_checks_iff:
  "recv_packet_checks hs rop d = Inr u \<longleftrightarrow>
     packet_entry_count (state d) + (if ordering (chan d) = Unordered then 2 else 1) \<le> max_packet_entries_per_channel \<and>
     ch_state (chan d) = Open \<and> (ordering (chan d) = Ordered \<longrightarrow> rpo_packetSequence rop = next_sequence_recv (state d)) \<and>
     isValidProofHeight hs (rpo_proofHeight rop) \<and> minimum_receive_proof_height (state d) \<le> rpo_proofHeight rop \<and>
     \<not> js_has (packet_receipt (state d)) (rpo_packetSequence rop)"
  by (auto simp: recv_packet_checks_def validateRecvPacketHistoryCapacity_def bindE_Inr_iff isHeightAtLeast_iff
      max_entries_eq packetEntryCount_eq Let_def not_less)

lemma recv_datum_valid:
  assumes "channel_inv d" and "sequences_safe d" and "rpo_packetSequence rop < 2 ^ 53"
    and "recv_packet_checks heights rop d = Inr u"
  shows "validate_recv_packet d (recv_updated_datum rop ackCommitment d) (rpo_packetSequence rop) ackCommitment (rpo_proofHeight rop)"
proof -
  have ins: "insertSortMapWithNumberKey (packet_acknowledgement (state d)) (rpo_packetSequence rop) ackCommitment False =
      insert_by_ascending_key (packet_acknowledgement (state d)) (rpo_packetSequence rop) ackCommitment"
    using assms(2,3) channel_inv_maps [OF assms(1)] by (simp add: insert_sort_is_ascending_insert sequences_safe_def)
  note c = assms(4) [unfolded recv_checks_iff]
  have pre: "prependToMap (packet_receipt (state d)) (rpo_packetSequence rop) [] =
      (rpo_packetSequence rop, []) # packet_receipt (state d)"
    using c channel_inv_maps(3) [OF assms(1)] by (simp add: prependToMap_new)
  show ?thesis
  proof (cases "ordering (chan d) = Ordered")
    case True
    then show ?thesis
      unfolding validate_recv_packet_def recv_updated_datum_def ins maximumHeight_eq Let_def height_compare_le
      using c by simp
  next
    case False
    with channel_inv_maps(4) [OF assms(1)] have "ordering (chan d) = Unordered" by simp
    then show ?thesis
      unfolding validate_recv_packet_def recv_updated_datum_def ins pre maximumHeight_eq Let_def height_compare_le
      using c by simp
  qed
qed

text \<open>
  C20. Receive, at the level of the channel datum: whenever the packet service accepts a receive on a valid channel datum, the datum it
  builds is the one the channel validator demands, so the update is a step of the channel, on
  ordered and unordered channels, given the membership
  proof, that the sequence has no acknowledgement yet and that sequences are below \<open>2 ^ 53\<close>, where
  \<open>Number\<close> is exact.
\<close>

theorem recv_packet_is_channel_step:
  assumes "channel_inv d" and "sequences_safe d" and "rpo_packetSequence rop < 2 ^ 53"
    and "recvPacket heights rop ackCommitment d = Inr (p, d')"
    and "committed (rpo_packetSequence rop) (rpo_proofHeight rop)"
    and "\<not> js_has (packet_acknowledgement (state d)) (rpo_packetSequence rop)"
  shows "channel_step committed d (RecvPacket (rpo_packetSequence rop) ackCommitment (rpo_proofHeight rop)) d'"
proof -
  have d': "d' = recv_updated_datum rop ackCommitment d" and checks: "recv_packet_checks heights rop d = Inr ()"
    using assms(4) by (auto simp: recvPacket_def bindE_Inr_iff)
  show ?thesis
    using recv_datum_valid [OF assms(1-3) checks] checks [unfolded recv_checks_iff] assms(5,6)
    unfolding d' by (intro channel_step.recv) simp_all
qed

text \<open>
  C21. Prune: whenever the packet service accepts a prune request on a valid datum of an open channel, the datum it builds is the one the validator demands, given that the
  counterparty no longer has the commitment at the proof height.
\<close>

theorem prune_is_channel_step:
  assumes "channel_inv d" and "ch_state (chan d) = Open" and "prunePacketHistory pop d = Inr d'"
    and "\<not> committed (ppo_sequence pop) (ppo_proofHeight pop)"
  shows "channel_step committed d (PrunePacketHistory (ppo_sequence pop) (ppo_proofHeight pop)) d'"
proof -
  have d': "d' = prune_updated_datum pop d" and checks: "prune_checks pop d = Inr ()"
    using assms(3) by (auto simp: prunePacketHistory_def bindE_Inr_iff)
  have "validate_prune_packet_history d d' (ppo_sequence pop) (ppo_proofHeight pop)"
    using checks channel_inv_maps(1-3) [OF assms(1)]
    by (auto simp: validate_prune_packet_history_def d' prune_updated_datum_def prune_checks_def bindE_Inr_iff
        isHeightAtLeast_iff height_compare_le deleteKeySortMap_eq ascending_distinct Let_def datum_eq_iff)
  then show ?thesis by (intro channel_step.prune assms(2,4))
qed

text \<open>A request of each kind on the example channel.\<close>

definition example_recv :: recv_packet_operator where
  "example_recv = \<lparr>rpo_channelId = ''channel-0'', rpo_packetSequence = 1, rpo_packetData = ''7b7d'', rpo_proofCommitment = [],
     rpo_proofHeight = \<lparr>revisionNumber = 0, revisionHeight = 5\<rparr>, rpo_timeoutHeight = zero_height, rpo_timeoutTimestamp = 9\<rparr>"

definition example_prune :: prune_packet_history_operator where
  "example_prune = \<lparr>ppo_portId = ''transfer'', ppo_channelId = ''channel-0'', ppo_sequence = 1, ppo_proofCommitmentAbsence = [],
     ppo_proofHeight = \<lparr>revisionNumber = 0, revisionHeight = 9\<rparr>, ppo_signer = ''addr''\<rparr>"

lemma example_invs: "channel_inv open_datum" "channel_inv received_datum" "sequences_safe open_datum"
  by (code_simp, code_simp)
    (simp add: sequences_safe_def safe_keys_def open_datum_def tried_datum_def with_channel_def)

theorem recv_packet_is_channel_step_witness:
  "channel_step below_7 open_datum (RecvPacket 1 ''c0'' \<lparr>revisionNumber = 0, revisionHeight = 5\<rparr>)
     (recv_updated_datum example_recv ''c0'' open_datum)"
proof -
  have "recv_packet_checks [rpo_proofHeight example_recv] example_recv open_datum = Inr ()" by code_simp
  then have "recvPacket [rpo_proofHeight example_recv] example_recv ''c0'' open_datum =
      Inr (recv_packet_of example_recv open_datum, recv_updated_datum example_recv ''c0'' open_datum)"
    by (simp only: recvPacket_def bindE_simps)
  moreover have "below_7 (rpo_packetSequence example_recv) (rpo_proofHeight example_recv)"
    "\<not> js_has (packet_acknowledgement (state open_datum)) (rpo_packetSequence example_recv)" by code_simp+
  moreover have "rpo_packetSequence example_recv < 2 ^ 53" by (simp add: example_recv_def)
  ultimately have "channel_step below_7 open_datum
      (RecvPacket (rpo_packetSequence example_recv) ''c0'' (rpo_proofHeight example_recv))
      (recv_updated_datum example_recv ''c0'' open_datum)"
    using recv_packet_is_channel_step [OF example_invs(1,3)] by blast
  then show ?thesis by (simp add: example_recv_def)
qed

theorem prune_is_channel_step_witness:
  "channel_step below_7 received_datum (PrunePacketHistory 1 \<lparr>revisionNumber = 0, revisionHeight = 9\<rparr>)
     (prune_updated_datum example_prune received_datum)"
proof -
  have "prunePacketHistory example_prune received_datum = Inr (prune_updated_datum example_prune received_datum)"
    "ch_state (chan received_datum) = Open" "\<not> below_7 (ppo_sequence example_prune) (ppo_proofHeight example_prune)"
    by code_simp+
  then have "channel_step below_7 received_datum (PrunePacketHistory (ppo_sequence example_prune) (ppo_proofHeight example_prune))
      (prune_updated_datum example_prune received_datum)"
    using prune_is_channel_step [OF example_invs(2)] by blast
  then show ?thesis by (simp add: example_prune_def)
qed


subsection \<open>Acknowledgements and timeouts\<close>

lemma ack_datum_valid_iff:
  assumes "channel_inv d"
  shows "validate_acknowledge_packet d (ack_updated_datum aop d) (apo_packetSequence aop) \<longleftrightarrow> ordering (chan d) = Unordered"
  using channel_inv_maps(1,4) [OF assms]
  by (auto simp: validate_acknowledge_packet_def ack_updated_datum_def deleteKeySortMap_eq ascending_distinct
      datum_eq_iff Let_def)

text \<open>
  C22. Acknowledgements, at the level of the channel datum: on an unordered channel every accepted acknowledgement is a step of the
  channel. On an ordered channel it never is: the service leaves \<open>next_sequence_ack\<close> unchanged,
  while the validator demands that it advances, so no ordered acknowledgement built by the
  service can be accepted on chain.
\<close>

theorem acknowledge_is_channel_step_iff:
  assumes "channel_inv d" and "acknowledgePacket heights aop d = Inr (p, d')"
  shows "(\<exists>n. channel_step committed d (AcknowledgePacket n) d' \<and> n = apo_packetSequence aop) \<longleftrightarrow> ordering (chan d) = Unordered"
proof -
  have d': "d' = ack_updated_datum aop d" and checks: "ack_packet_checks heights aop d = Inr ()"
    using assms(2) by (auto simp: acknowledgePacket_def bindE_Inr_iff)
  have "ch_state (chan d) = Open" "js_has (packet_commitment (state d)) (apo_packetSequence aop)"
    using checks by (auto simp: ack_packet_checks_def bindE_Inr_iff)
  moreover have "validate_acknowledge_packet d d' (apo_packetSequence aop) \<longleftrightarrow> ordering (chan d) = Unordered"
    unfolding d' by (rule ack_datum_valid_iff [OF assms(1)])
  ultimately show ?thesis by (auto elim: channel_step.cases intro: channel_step.acknowledge)
qed

definition sent_datum :: channel_datum where
  "sent_datum = open_datum\<lparr>state := (state open_datum)\<lparr>next_sequence_send := 2, packet_commitment := [(1, ''ab'')]\<rparr>\<rparr>"

definition example_ack :: ack_packet_operator where
  "example_ack = \<lparr>apo_channelId = ''channel-0'', apo_packetSequence = 1, apo_packetData = ''7b7d'',
     apo_proofHeight = zero_height, apo_proofAcked = [], apo_acknowledgement = ''7b7d'', apo_timeoutHeight = zero_height,
     apo_timeoutTimestamp = 9\<rparr>"

lemma sent_datum_facts: "channel_inv sent_datum" "ordering (chan sent_datum) = Unordered" "ch_state (chan sent_datum) = Open"
  by code_simp+

theorem acknowledge_is_channel_step_iff_witness:
  "channel_step below_7 sent_datum (AcknowledgePacket 1) (ack_updated_datum example_ack sent_datum)"
proof -
  have "acknowledgePacket [zero_height] example_ack sent_datum =
      Inr (ack_packet_of example_ack sent_datum, ack_updated_datum example_ack sent_datum)" by code_simp
  from acknowledge_is_channel_step_iff [OF sent_datum_facts(1) this, of below_7] sent_datum_facts(2)
  show ?thesis by (simp add: example_ack_def)
qed

lemma timeout_datum_valid_iff:
  assumes "channel_inv d" and "timeoutPacket heights proofHeight p d = Inr d'" and "ch_state (chan d) = Open"
  shows "validate_timeout_packet d d' (sequence p) \<longleftrightarrow> ordering (chan d) = Unordered"
proof -
  have d': "d' = d\<lparr>state := (state d)\<lparr>packet_commitment := deleteSortMap (packet_commitment (state d)) (sequence p) None\<rparr>\<rparr>"
    using assms(2) by (auto simp: timeoutPacket_def bindE_Inr_iff)
  have same: "(chan d)\<lparr>ch_state := Open\<rparr> = chan d" using assms(3) by (cases "chan d") simp
  show ?thesis
  proof (cases "ordering (chan d) = Ordered")
    case True
    have "ch_state ((chan d)\<lparr>ch_state := Close\<rparr>) \<noteq> ch_state (chan d)" using assms(3) by simp
    then have "chan d \<noteq> (chan d)\<lparr>ch_state := Close\<rparr>" by metis
    then show ?thesis using True by (simp add: validate_timeout_packet_def d' datum_eq_iff with_channel_def)
  next
    case False
    with channel_inv_maps(4) [OF assms(1)] have "ordering (chan d) = Unordered" by simp
    then show ?thesis using channel_inv_maps(1) [OF assms(1)] same
      by (simp add: validate_timeout_packet_def d' datum_eq_iff with_channel_def deleteSortMap_eq ascending_distinct)
  qed
qed

text \<open>
  C23. Timeouts, at the level of the channel datum: on an open unordered channel with the packet's commitment, the datum of a timeout
  is the one the validator demands. On an ordered channel it never is: the validator closes the
  channel, the service leaves it open.
\<close>

theorem timeout_is_channel_step_iff:
  assumes "channel_inv d" and "timeoutPacket heights proofHeight p d = Inr d'" and "ch_state (chan d) = Open"
    and "js_has (packet_commitment (state d)) (sequence p)"
  shows "channel_step committed d (TimeoutPacket (sequence p)) d' \<longleftrightarrow> ordering (chan d) = Unordered"
  using timeout_datum_valid_iff [OF assms(1-3)] assms(3,4)
  by (auto elim: channel_step.cases intro: channel_step.timeout)

theorem timeout_is_channel_step_iff_witness:
  "\<exists>d'. timeoutPacket [zero_height] zero_height (ack_packet_of example_ack sent_datum) sent_datum = Inr d' \<and>
     channel_step below_7 sent_datum (TimeoutPacket 1) d'"
proof -
  let ?p = "ack_packet_of example_ack sent_datum"
  have "isValidProofHeight [zero_height] zero_height" by code_simp
  then obtain d' where d': "timeoutPacket [zero_height] zero_height ?p sent_datum = Inr d'"
    by (auto simp: timeoutPacket_def)
  have "js_has (packet_commitment (state sent_datum)) (sequence ?p)" "sequence ?p = 1" by code_simp+
  with timeout_is_channel_step_iff [OF sent_datum_facts(1) d' sent_datum_facts(3), of below_7] sent_datum_facts(2) d'
  show ?thesis by simp
qed

end
