(* ===== verification/Packet_Root.thy ===== *)
theory Packet_Root
  imports State_Root_Packets Host_Packets Packet_Service
begin

section \<open>Packet transactions pass the handle-packet check\<close>

text \<open>
  From the request to the root: \<open>packet.service.ts\<close> computes the new channel datum,
  \<open>computeRootWithHandlePacketUpdate\<close> the new root and the siblings, and
  \<open>validate_handle_packet_root\<close> accepts or rejects them. The theorems relate the three, with the
  ordering that the channel has and every field that the service updates.
\<close>

text \<open>
  What the gateway and the ledger have to agree on: both produce the CBOR encoding of a value, the
  port and channel identifiers are those of the datum, and the tree holds what the datum says.
\<close>

definition encodes :: "('reg, 'cs, 'cons, 'conn) codec \<Rightarrow> cbor \<Rightarrow> bool" where
  "encodes codec cb =
     ((\<forall>n. from_hex (dataToInteger codec n) = serialise_int cb n) \<and>
      (\<forall>b. encodePacketStoreValue codec b = serialise_bytes cb b) \<and>
      (\<forall>ch. from_hex (encodeChannelEndValue codec ch) = serialise_channel cb ch))"

definition identifies :: "channel_datum \<Rightarrow> string \<Rightarrow> string \<Rightarrow> bool" where
  "identifies d p c =
     (from_hex (port d) = utf8 p \<and> channel_id_from_token_name (name (token d)) = Inr (utf8 c))"

definition entry_value :: "cbor \<Rightarrow> (nat, string) jsmap \<Rightarrow> nat \<Rightarrow> buffer" where
  "entry_value cb m n = (case map_of m n of None \<Rightarrow> [] | Some v \<Rightarrow> serialise_bytes cb v)"

definition channel_stored :: "cbor \<Rightarrow> tree_module \<Rightarrow> string \<Rightarrow> string \<Rightarrow> channel_datum \<Rightarrow> bool" where
  "channel_stored cb m p c d =
     (stores m (channelEndPath p c) (serialise_channel cb (chan d)) \<and>
      stores m (nextSequenceSendPath p c) (serialise_int cb (next_sequence_send (state d))) \<and>
      stores m (nextSequenceRecvPath p c) (serialise_int cb (next_sequence_recv (state d))) \<and>
      stores m (nextSequenceAckPath p c) (serialise_int cb (next_sequence_ack (state d))) \<and>
      (\<forall>n. stores m (commitmentPath p c n) (entry_value cb (packet_commitment (state d)) n)) \<and>
      (\<forall>n. stores m (receiptPath p c n) (entry_value cb (packet_receipt (state d)) n)) \<and>
      (\<forall>n. stores m (acknowledgementPath p c n) (entry_value cb (packet_acknowledgement (state d)) n)))"

definition redeemer_siblings :: "handle_packet_result \<Rightarrow> packet_siblings" where
  "redeemer_siblings r =
     \<lparr>sib_channel = map from_hex (channelSiblings r), sib_next_sequence_send = map from_hex (nextSequenceSendSiblings r),
      sib_next_sequence_recv = map from_hex (nextSequenceRecvSiblings r),
      sib_next_sequence_ack = map from_hex (nextSequenceAckSiblings r),
      sib_packet_commitment = map from_hex (packetCommitmentSiblings r),
      sib_packet_receipt = map from_hex (packetReceiptSiblings r),
      sib_packet_acknowledgement = map from_hex (packetAcknowledgementSiblings r)\<rparr>"

lemma entry_value_absent: "\<not> js_has m n \<Longrightarrow> entry_value cb m n = []"
  by (force simp: entry_value_def js_has_def split: option.splits dest: map_of_SomeD)


lemma set_insert_ascending:
  "\<not> js_has m k \<Longrightarrow> set (insert_by_ascending_key m k v) = insert (k, v) (set m)"
  by (induction m k v rule: insert_by_ascending_key.induct) (auto simp: js_has_def)

lemma inserted_entry:
  assumes "ascending m" "\<not> js_has m n"
  shows "entries_not_in m (insert_by_ascending_key m n v) = [(n, v)]" "entries_not_in (insert_by_ascending_key m n v) m = []"
  using entries_not_in_insert [OF ascending_distinct [OF ascending_insert [OF assms(1)]] set_insert_ascending [OF assms(2)] assms(2)]
  by simp_all

lemma set_delete_first_entry:
  "distinct (map fst m) \<Longrightarrow> map_of m n = Some v \<Longrightarrow> set (delete_first m n) = set m - {(n, v)}"
  by (induction m n rule: delete_first.induct) (auto dest: map_of_SomeD intro: rev_image_eqI split: if_splits)

lemma deleted_entry:
  assumes "ascending m" "map_of m n = Some v"
  shows "entries_not_in (delete_first m n) m = [(n, v)]" "entries_not_in m (delete_first m n) = []"
  using entries_not_in_delete [OF ascending_distinct [OF assms(1)] map_of_SomeD [OF assms(2)]
      set_delete_first_entry [OF ascending_distinct [OF assms(1)] assms(2)]]
  by simp_all

lemma synced_mono: "synced sha K oldRoot m \<Longrightarrow> L \<subseteq> K \<Longrightarrow> synced sha L oldRoot m"
  by (auto simp: synced_def tree_ok_def intro: inj_on_subset)

subsection \<open>Receive\<close>

lemma recv_root_ordered:
  assumes "sha256_spec sha" "encodes codec cb" "channel_stored cb m p c d"
    and "synced sha {nextSequenceRecvPath p c, acknowledgementPath p c n} oldRoot m"
    and "commits_value sha (serialise_int cb (next_sequence_recv (state d)))"
    and "commits_value sha (serialise_int cb (next_sequence_recv (state d) + 1))"
    and "commits_value sha (serialise_bytes cb ack)"
    and "ascending (packet_acknowledgement (state d))" "\<not> js_has (packet_acknowledgement (state d)) n"
    and d': "state d' = (state d)\<lparr>next_sequence_recv := next_sequence_recv (state d) + 1, maximum_receive_proof_height := h,
      packet_acknowledgement := insert_by_ascending_key (packet_acknowledgement (state d)) n ack\<rparr>"
  shows "\<exists>r m'. computeRootWithHandlePacketUpdate sha codec oldRoot p c d d' m = Inr (r, m') \<and>
    bindE (apply_update sha (from_hex oldRoot) (utf8 (nextSequenceRecvPath p c))
        (serialise_int cb (next_sequence_recv (state d))) (serialise_int cb (next_sequence_recv (state d) + 1))
        (map from_hex (nextSequenceRecvSiblings r)))
      (\<lambda>root. apply_update sha root (utf8 (acknowledgementPath p c n)) [] (serialise_bytes cb ack)
        (map from_hex (packetAcknowledgementSiblings r))) = Inr (from_hex (newRoot r)) \<and>
    leaves (currentTree m') = leaves (currentTree m)"
proof -
  let ?p = "nextSequenceRecvPath p c" and ?q = "acknowledgementPath p c n"
  let ?v = "serialise_int cb (next_sequence_recv (state d) + 1)" and ?w = "serialise_bytes cb ack"
  obtain t m' where t: "starts sha {?p, ?q} oldRoot m t m'" using starts_ex [OF assms(4)] by blast
  then have old: "value_or_empty t ?p = serialise_int cb (next_sequence_recv (state d))" "value_or_empty t ?q = []"
    using assms(3,9) by (simp_all add: starts_def channel_stored_def stores_def entry_value_absent)
  obtain s1 t1 where 1: "step sha {?p, ?q} ?p ?v t s1 t1"
    using step_ex [OF assms(1), of "{?p, ?q}" t ?p ?v] t old assms(5,6) by (auto simp: starts_def)
  obtain s2 t2 where 2: "step sha {?p, ?q} ?q ?w t1 s2 t2"
    using step_step [OF assms(1) 1, of ?q ?w] 1 old assms(7) by (auto simp: step_def)
  obtain r u where "finishes sha t2 r u" using step_finishes [OF 2] by blast
  with t 1 2 old assms(2) show ?thesis
    by (simp add: computeRootWithHandlePacketUpdate_def run_defs d' same_object_def encodes_def
        insert_commitment(3) [OF inserted_entry [OF assms(8,9)]])
qed

lemma recv_root_unordered:
  assumes "sha256_spec sha" "encodes codec cb" "channel_stored cb m p c d"
    and "synced sha {receiptPath p c n, acknowledgementPath p c n} oldRoot m"
    and "commits_value sha (serialise_bytes cb [])" "commits_value sha (serialise_bytes cb ack)"
    and "distinct (map fst (packet_receipt (state d)))" "\<not> js_has (packet_receipt (state d)) n"
    and "ascending (packet_acknowledgement (state d))" "\<not> js_has (packet_acknowledgement (state d)) n"
    and d': "state d' = (state d)\<lparr>maximum_receive_proof_height := h, packet_receipt := (n, []) # packet_receipt (state d),
      packet_acknowledgement := insert_by_ascending_key (packet_acknowledgement (state d)) n ack\<rparr>"
  shows "\<exists>r m'. computeRootWithHandlePacketUpdate sha codec oldRoot p c d d' m = Inr (r, m') \<and>
    bindE (apply_update sha (from_hex oldRoot) (utf8 (receiptPath p c n)) [] (serialise_bytes cb [])
        (map from_hex (packetReceiptSiblings r)))
      (\<lambda>root. apply_update sha root (utf8 (acknowledgementPath p c n)) [] (serialise_bytes cb ack)
        (map from_hex (packetAcknowledgementSiblings r))) = Inr (from_hex (newRoot r)) \<and>
    leaves (currentTree m') = leaves (currentTree m)"
proof -
  let ?p = "receiptPath p c n" and ?q = "acknowledgementPath p c n"
  let ?v = "serialise_bytes cb []" and ?w = "serialise_bytes cb ack"
  obtain t m' where t: "starts sha {?p, ?q} oldRoot m t m'" using starts_ex [OF assms(4)] by blast
  then have old: "value_or_empty t ?p = []" "value_or_empty t ?q = []"
    using assms(3,8,10) by (simp_all add: starts_def channel_stored_def stores_def entry_value_absent)
  obtain s1 t1 where 1: "step sha {?p, ?q} ?p ?v t s1 t1"
    using step_ex [OF assms(1), of "{?p, ?q}" t ?p ?v] t old assms(5) by (auto simp: starts_def)
  obtain s2 t2 where 2: "step sha {?p, ?q} ?q ?w t1 s2 t2"
    using step_step [OF assms(1) 1, of ?q ?w] 1 old assms(6) by (auto simp: step_def)
  obtain r u where "finishes sha t2 r u" using step_finishes [OF 2] by blast
  moreover have "entries_not_in (packet_receipt (state d)) ((n, []) # packet_receipt (state d)) = [(n, [])]"
    "entries_not_in ((n, []) # packet_receipt (state d)) (packet_receipt (state d)) = []"
    using entries_not_in_insert [of "(n, []) # packet_receipt (state d)" n "[]" "packet_receipt (state d)"] assms(7,8)
    by (simp_all add: js_has_def)
  ultimately show ?thesis using t 1 2 old assms(2)
    by (simp add: computeRootWithHandlePacketUpdate_def run_defs d' same_object_def encodes_def insert_commitment(2)
        insert_commitment(3) [OF inserted_entry [OF assms(9,10)]])
qed

subsection \<open>Deletion of a commitment\<close>

lemma deletion_root:
  assumes "sha256_spec sha" "channel_stored cb m p c d" "synced sha {commitmentPath p c n} oldRoot m"
    and "ascending (packet_commitment (state d))" "map_of (packet_commitment (state d)) n = Some v"
    and "commits_value sha (serialise_bytes cb v)"
    and d': "state d' = (state d)\<lparr>packet_commitment := delete_first (packet_commitment (state d)) n\<rparr>"
  shows "\<exists>r m'. computeRootWithHandlePacketUpdate sha codec oldRoot p c d d' m = Inr (r, m') \<and>
    apply_packet_commitment_deletion sha cb (from_hex oldRoot) d (utf8 p) (utf8 c) n
      (map from_hex (packetCommitmentSiblings r)) = Inr (from_hex (newRoot r)) \<and>
    leaves (currentTree m') = leaves (currentTree m)"
proof -
  let ?p = "commitmentPath p c n"
  have old: "value_or_empty (currentTree m) ?p = serialise_bytes cb v"
    using assms(2,5) by (simp add: channel_stored_def stores_def entry_value_def)
  then obtain t m' ss t' r u where "starts sha {?p} oldRoot m t m'" "step sha {?p} ?p [] t ss t'" "finishes sha t' r u"
    "apply_update sha (from_hex oldRoot) (utf8 ?p) (serialise_bytes cb v) [] ss = Inr (from_hex r)"
    using single_update [OF assms(1,3), of "[]"] assms(6) by auto
  then show ?thesis
    by (simp add: computeRootWithHandlePacketUpdate_def run_defs d' same_object_def assms(5) expect_some_def
        apply_packet_commitment_deletion_def delete_commitment [OF deleted_entry [OF assms(4,5)]])
qed


section \<open>Requests to the packet service\<close>

text \<open>
  C10. RecvPacket: whenever the packet service accepts a receive request, on an ordered or an
  unordered channel, the gateway's root computation on the old and the new datum succeeds, and its
  root and siblings pass the whole handle-packet check of the host state, which includes that the
  new datum (counter, receipt, acknowledgement and the receive high-water mark) is the one a
  receive must produce. The tree holds what the datum says, the gateway and the ledger agree on
  the CBOR encoding, and the sequence has no acknowledgement yet.
\<close>

theorem recv_packet_passes_host_check:
  fixes rop :: recv_packet_operator
  defines "n \<equiv> rpo_packetSequence rop"
  assumes "sha256_spec sha" "encodes codec cb" "identifies d p c" "channel_stored cb m p c d"
    and "synced sha {nextSequenceRecvPath p c, receiptPath p c n, acknowledgementPath p c n} oldRoot m"
    and "commits_value sha (serialise_int cb (next_sequence_recv (state d)))"
    and "commits_value sha (serialise_int cb (next_sequence_recv (state d) + 1))"
    and "commits_value sha (serialise_bytes cb [])" "commits_value sha (serialise_bytes cb ack)"
    and "channel_inv d" "sequences_safe d" "n < 2 ^ 53" "\<not> js_has (packet_acknowledgement (state d)) n"
    and "recvPacket heights rop ack d = Inr (pk, d')"
  shows "\<exists>r m'. computeRootWithHandlePacketUpdate sha codec oldRoot p c d d' m = Inr (r, m') \<and>
    validate_handle_packet_root sha cb (from_hex oldRoot) (from_hex (newRoot r)) d d'
      (SpendRecvPacket pk (rpo_proofHeight rop)) (redeemer_siblings r) \<and>
    leaves (currentTree m') = leaves (currentTree m)"
proof -
  have d': "d' = recv_updated_datum rop ack d" and pk: "sequence pk = n"
    and checks: "recv_packet_checks heights rop d = Inr ()"
    using assms(15) by (auto simp: recvPacket_def bindE_Inr_iff recv_packet_of_def n_def)
  note maps = channel_inv_maps [OF assms(11)]
  have ins: "insertSortMapWithNumberKey (packet_acknowledgement (state d)) n ack False =
      insert_by_ascending_key (packet_acknowledgement (state d)) n ack"
    using assms(12,13) maps by (simp add: insert_sort_is_ascending_insert sequences_safe_def)
  have new: "\<not> js_has (packet_receipt (state d)) n" using checks by (simp add: recv_checks_iff n_def)
  have valid: "validate_recv_packet d d' n ack (rpo_proofHeight rop)"
    using recv_datum_valid [OF assms(11,12) _ checks] assms(13) by (simp add: d' n_def)
  have ids: "port d' = port d" "token d' = token d" by (simp_all add: d' recv_updated_datum_def Let_def)
  have ack: "map_of (packet_acknowledgement (state d')) n = Some ack"
    using maps ins by (simp add: d' recv_updated_datum_def Let_def n_def [symmetric] map_of_insert)
  have sync: "synced sha {nextSequenceRecvPath p c, acknowledgementPath p c n} oldRoot m"
    "synced sha {receiptPath p c n, acknowledgementPath p c n} oldRoot m"
    by (rule synced_mono [OF assms(6)], blast)+
  show ?thesis
  proof (cases "ordering (chan d) = Ordered")
    case True
    have st: "state d' = (state d)\<lparr>next_sequence_recv := next_sequence_recv (state d) + 1,
        maximum_receive_proof_height := maximumHeight (maximum_receive_proof_height (state d)) (rpo_proofHeight rop),
        packet_acknowledgement := insert_by_ascending_key (packet_acknowledgement (state d)) n ack\<rparr>"
      using True ins by (simp add: d' recv_updated_datum_def Let_def n_def [symmetric])
    show ?thesis
      using recv_root_ordered [OF assms(2,3,5) sync(1) assms(7,8,10) maps(2) assms(14) st] True valid ids ack assms(4)
      by (auto simp: validate_handle_packet_root_def recv_packet_branch_def identifies_def redeemer_siblings_def
          expect_some_def expect_def pk st Let_def)
  next
    case False
    have st: "state d' = (state d)\<lparr>
        maximum_receive_proof_height := maximumHeight (maximum_receive_proof_height (state d)) (rpo_proofHeight rop),
        packet_receipt := (n, []) # packet_receipt (state d),
        packet_acknowledgement := insert_by_ascending_key (packet_acknowledgement (state d)) n ack\<rparr>"
      using False ins prependToMap_new [OF maps(3) new] by (simp add: d' recv_updated_datum_def Let_def n_def [symmetric])
    show ?thesis
      using recv_root_unordered [OF assms(2,3,5) sync(2) assms(9,10) maps(3) new maps(2) assms(14) st] False valid ids ack assms(4)
      by (auto simp: validate_handle_packet_root_def recv_packet_branch_def identifies_def redeemer_siblings_def
          expect_some_def expect_def pk Let_def)
  qed
qed

text \<open>
  C11. AcknowledgePacket: whenever the packet service accepts an acknowledgement, the root
  computation succeeds, and the handle-packet check accepts its result exactly on unordered
  channels. The ordering is the channel's own: on an ordered channel the service does not advance
  \<open>next_sequence_ack\<close>, so \<open>validate_acknowledge_packet\<close> fails.
\<close>

theorem acknowledge_packet_host_check_iff:
  assumes "sha256_spec sha" "identifies d p c" "channel_stored cb m p c d"
    and "synced sha {commitmentPath p c (apo_packetSequence aop)} oldRoot m"
    and "commits_value sha (entry_value cb (packet_commitment (state d)) (apo_packetSequence aop))"
    and "channel_inv d" "acknowledgePacket heights aop d = Inr (pk, d')"
  shows "\<exists>r m'. computeRootWithHandlePacketUpdate sha codec oldRoot p c d d' m = Inr (r, m') \<and>
    (validate_handle_packet_root sha cb (from_hex oldRoot) (from_hex (newRoot r)) d d'
       (SpendAcknowledgePacket pk) (redeemer_siblings r) \<longleftrightarrow> ordering (chan d) = Unordered) \<and>
    leaves (currentTree m') = leaves (currentTree m)"
proof -
  let ?n = "apo_packetSequence aop"
  note maps = channel_inv_maps [OF assms(6)]
  have d': "d' = ack_updated_datum aop d" and pk: "sequence pk = ?n" and "js_has (packet_commitment (state d)) ?n"
    using assms(7) by (auto simp: acknowledgePacket_def bindE_Inr_iff ack_packet_of_def ack_packet_checks_def)
  then obtain v where v: "map_of (packet_commitment (state d)) ?n = Some v" by (auto simp: js_has_iff)
  have st: "state d' = (state d)\<lparr>packet_commitment := delete_first (packet_commitment (state d)) ?n\<rparr>"
    using maps(1) by (simp add: d' ack_updated_datum_def deleteKeySortMap_eq ascending_distinct)
  have ids: "port d' = port d" "token d' = token d" by (simp_all add: d' ack_updated_datum_def)
  have "commits_value sha (serialise_bytes cb v)" using assms(5) v by (simp add: entry_value_def)
  from deletion_root [OF assms(1,3,4) maps(1) v this st, of codec]
  show ?thesis
    using ack_datum_valid_iff [OF assms(6), of aop] ids assms(2)
    by (auto simp: validate_handle_packet_root_def acknowledge_packet_branch_def identifies_def redeemer_siblings_def
        expect_def throwIf_eval pk d' Let_def)
qed

text \<open>Timeouts likewise: the check closes an ordered channel, the service leaves it open.\<close>

theorem timeout_packet_host_check_iff:
  assumes "sha256_spec sha" "identifies d p c" "channel_stored cb m p c d"
    and "synced sha {commitmentPath p c (sequence pk)} oldRoot m"
    and "commits_value sha (entry_value cb (packet_commitment (state d)) (sequence pk))"
    and "channel_inv d" "ch_state (chan d) = Open" "js_has (packet_commitment (state d)) (sequence pk)"
    and "timeoutPacket heights proofHeight pk d = Inr d'"
  shows "\<exists>r m'. computeRootWithHandlePacketUpdate sha codec oldRoot p c d d' m = Inr (r, m') \<and>
    (validate_handle_packet_root sha cb (from_hex oldRoot) (from_hex (newRoot r)) d d'
       (SpendTimeoutPacket pk) (redeemer_siblings r) \<longleftrightarrow> ordering (chan d) = Unordered) \<and>
    leaves (currentTree m') = leaves (currentTree m)"
proof -
  let ?n = "sequence pk"
  note maps = channel_inv_maps [OF assms(6)]
  obtain v where v: "map_of (packet_commitment (state d)) ?n = Some v" using assms(8) by (auto simp: js_has_iff)
  have d': "d' = d\<lparr>state := (state d)\<lparr>packet_commitment := delete_first (packet_commitment (state d)) ?n\<rparr>\<rparr>"
    using assms(9) maps(1) by (auto simp: timeoutPacket_def bindE_Inr_iff deleteSortMap_eq ascending_distinct)
  then have st: "state d' = (state d)\<lparr>packet_commitment := delete_first (packet_commitment (state d)) ?n\<rparr>" by simp
  have ids: "port d' = port d" "token d' = token d" by (simp_all add: d')
  have "commits_value sha (serialise_bytes cb v)" using assms(5) v by (simp add: entry_value_def)
  from deletion_root [OF assms(1,3,4) maps(1) v this st, of codec]
  show ?thesis
    using timeout_datum_valid_iff [OF assms(6,9,7)] ids assms(2)
    by (auto simp: validate_handle_packet_root_def timeout_packet_branch_def identifies_def redeemer_siblings_def
        expect_def throwIf_eval Let_def)
qed


section \<open>Requests on a concrete channel\<close>

text \<open>Channel 0 of the transfer port, with either ordering, before and after a packet is sent.\<close>

definition toy_cbor :: cbor where
  "toy_cbor = \<lparr>serialise_int = \<lambda>n. [word_of_nat n], serialise_bytes = \<lambda>b. from_hex (if b = [] then ''40'' else b),
     serialise_channel = \<lambda>ch. from_hex (if ch_state ch = Open then ''05'' else ''06'')\<rparr>"

definition channel_0 :: "order \<Rightarrow> channel_datum" where
  "channel_0 ord = open_datum\<lparr>state := with_channel (\<lambda>ch. ch\<lparr>ordering := ord\<rparr>) (state open_datum),
     token := \<lparr>policyId = ''aa'', name = replicate 48 (CHR ''0'') @ ''30''\<rparr>\<rparr>"

definition channel_0_sent :: "order \<Rightarrow> channel_datum" where
  "channel_0_sent ord = (channel_0 ord)\<lparr>state := (state (channel_0 ord))\<lparr>next_sequence_send := 2, packet_commitment := [(1, ''ab'')]\<rparr>\<rparr>"

definition channel_0_tree :: "byte \<Rightarrow> merkle_tree" where
  "channel_0_tree k =
     set_leaf (nextSequenceAckPath ''transfer'' ''channel-0'') (Bytes [1])
      (set_leaf (nextSequenceRecvPath ''transfer'' ''channel-0'') (Bytes [1])
      (set_leaf (nextSequenceSendPath ''transfer'' ''channel-0'') (Bytes [k])
      (set_leaf (channelEndPath ''transfer'' ''channel-0'') (Bytes [5]) new_tree)))"

definition channel_0_sent_tree :: merkle_tree where
  "channel_0_sent_tree = set_leaf (commitmentPath ''transfer'' ''channel-0'' 1) (Bytes [0xAB]) (channel_0_tree 2)"

abbreviation module_of :: "merkle_tree \<Rightarrow> tree_module" where
  "module_of t \<equiv> \<lparr>currentTree = t, cachedKupoService = True, cachedLucidService = True\<rparr>"

lemma toy_encodes: "encodes toy_codec toy_cbor"
  by (simp only: encodes_def toy_codec_def toy_cbor_def encodePacketStoreValue_def codec.select_convs cbor.select_convs
      from_hex_to_hex simp_thms)

lemma packet_path_differ:
  "commitmentPath p c n \<noteq> nextSequenceRecvPath p c" "receiptPath p c n \<noteq> channelEndPath p c"
  "receiptPath p c n \<noteq> nextSequenceSendPath p c" "receiptPath p c n \<noteq> nextSequenceAckPath p c"
  "receiptPath p c n \<noteq> commitmentPath p c k" "acknowledgementPath p c n \<noteq> channelEndPath p c"
  "acknowledgementPath p c n \<noteq> nextSequenceSendPath p c" "acknowledgementPath p c n \<noteq> nextSequenceAckPath p c"
  "acknowledgementPath p c n \<noteq> commitmentPath p c k" "commitmentPath p c n = commitmentPath p c k \<longleftrightarrow> n = k"
  by (simp_all add: path_defs suffix_defs dec_string_inj)

lemma channel_0_leaves:
  "leaves (channel_0_tree k) = [(channelEndPath ''transfer'' ''channel-0'', [5]), (nextSequenceSendPath ''transfer'' ''channel-0'', [k]),
     (nextSequenceRecvPath ''transfer'' ''channel-0'', [1]), (nextSequenceAckPath ''transfer'' ''channel-0'', [1])]"
  "leaves channel_0_sent_tree = leaves (channel_0_tree 2) @ [(commitmentPath ''transfer'' ''channel-0'' 1, [0xAB])]"
  by (simp_all add: channel_0_tree_def channel_0_sent_tree_def set_leaf_def new_tree_def Let_def packet_path_differ
      packet_path_differ [symmetric])

lemma channel_0_identifies:
  "identifies (channel_0 ord) ''transfer'' ''channel-0''" "identifies (channel_0_sent ord) ''transfer'' ''channel-0''"
proof -
  have "from_hex ''7472616e73666572'' = utf8 ''transfer''"
    "channel_id_from_token_name (replicate 48 (CHR ''0'') @ ''30'') = Inr (utf8 ''channel-0'')" by code_simp+
  then show "identifies (channel_0 ord) ''transfer'' ''channel-0''" "identifies (channel_0_sent ord) ''transfer'' ''channel-0''"
    by (simp_all add: identifies_def channel_0_def channel_0_sent_def open_datum_def tried_datum_def with_channel_def)
qed

lemma toy_values: "from_hex ''05'' = [5]" "from_hex ''ab'' = [0xAB]"
  by code_simp+

lemma channel_0_stored:
  "channel_stored toy_cbor (module_of (channel_0_tree 1)) ''transfer'' ''channel-0'' (channel_0 ord)"
  "channel_stored toy_cbor (module_of channel_0_sent_tree) ''transfer'' ''channel-0'' (channel_0_sent ord)"
  by (simp_all add: channel_stored_def stores_def value_or_empty_def get_leaf_def channel_0_leaves entry_value_def toy_values
      toy_cbor_def channel_0_def channel_0_sent_def open_datum_def tried_datum_def with_channel_def
      packet_path_differ packet_path_differ [symmetric] del: from_hex.simps)

lemma channel_0_inv:
  assumes "ord = Ordered \<or> ord = Unordered"
  shows "channel_inv (channel_0 ord)" "channel_inv (channel_0_sent ord)" "sequences_safe (channel_0 ord)"
  using assms
  by (auto simp: channel_inv_def channel_0_def channel_0_sent_def open_datum_def tried_datum_def with_channel_def
      ascending_def packet_entry_count_def max_packet_entries_per_channel_def keys_below_def sequences_safe_def safe_keys_def)

lemma channel_0_synced:
  fixes p c :: string
  defines "p \<equiv> ''transfer''" and "c \<equiv> ''channel-0''"
  defines "ps \<equiv> [channelEndPath p c, nextSequenceSendPath p c, nextSequenceRecvPath p c, nextSequenceAckPath p c,
    receiptPath p c 1, acknowledgementPath p c 1, commitmentPath p c 1]"
  shows "synced tail_hash (set ps) (to_hex (tree_root tail_hash (leaves (channel_0_tree k)))) (module_of (channel_0_tree k))"
    "synced tail_hash (set ps) (to_hex (tree_root tail_hash (leaves channel_0_sent_tree))) (module_of channel_0_sent_tree)"
proof -
  have inj: "inj_on (keyIndex64 tail_hash) (set ps)"
    unfolding ps_def p_def c_def by (rule inj_on_keyIndex64_list [OF tail_hash_hash32]) code_simp
  have ok: "tree_ok tail_hash (set ps) (channel_0_tree k)" for k
    using inj unfolding channel_0_tree_def ps_def p_def c_def by (intro tree_ok_set_leaf tree_ok_new) simp_all
  then have ok': "tree_ok tail_hash (set ps) channel_0_sent_tree"
    unfolding channel_0_sent_tree_def by (intro tree_ok_set_leaf) (simp_all add: ps_def p_def c_def)
  show "synced tail_hash (set ps) (to_hex (tree_root tail_hash (leaves (channel_0_tree k)))) (module_of (channel_0_tree k))"
    by (rule synced_root [OF ok tail_hash_nonzero]) (simp add: channel_0_leaves)
  show "synced tail_hash (set ps) (to_hex (tree_root tail_hash (leaves channel_0_sent_tree))) (module_of channel_0_sent_tree)"
    by (rule synced_root [OF ok' tail_hash_nonzero]) (simp add: channel_0_leaves)
qed

lemma channel_0_recv:
  assumes "ord = Ordered \<or> ord = Unordered"
  shows "recvPacket [rpo_proofHeight example_recv] example_recv ''c0'' (channel_0 ord) =
    Inr (recv_packet_of example_recv (channel_0 ord), recv_updated_datum example_recv ''c0'' (channel_0 ord))"
proof -
  have "recv_packet_checks [rpo_proofHeight example_recv] example_recv (channel_0 ord) = Inr ()"
    using assms by (auto simp: recv_checks_iff channel_0_def open_datum_def tried_datum_def with_channel_def example_recv_def
        packet_entry_count_def max_packet_entries_per_channel_def isValidProofHeight_def js_has_def height_le_iff zero_height_def)
  then show ?thesis by (simp only: recvPacket_def bindE_simps)
qed


lemma channel_0_ack:
  "acknowledgePacket [zero_height] example_ack (channel_0_sent ord) =
    Inr (ack_packet_of example_ack (channel_0_sent ord), ack_updated_datum example_ack (channel_0_sent ord))"
  by (simp add: acknowledgePacket_def ack_packet_checks_def channel_0_sent_def channel_0_def open_datum_def tried_datum_def
      with_channel_def example_ack_def isValidProofHeight_def js_has_def zero_height_def)

lemma channel_0_no_ack: "\<not> js_has (packet_acknowledgement (state (channel_0 ord))) n"
  by (simp add: channel_0_def open_datum_def tried_datum_def with_channel_def js_has_def)

lemma channel_0_ordering: "ordering (chan (channel_0_sent ord)) = ord"
  by (simp add: channel_0_sent_def channel_0_def with_channel_def)

theorem recv_packet_passes_host_check_witness:
  "(\<exists>r m'. computeRootWithHandlePacketUpdate tail_hash toy_codec (to_hex (tree_root tail_hash (leaves (channel_0_tree 1))))
      ''transfer'' ''channel-0'' (channel_0 Ordered) (recv_updated_datum example_recv ''c0'' (channel_0 Ordered))
      (module_of (channel_0_tree 1)) = Inr (r, m') \<and>
    validate_handle_packet_root tail_hash toy_cbor (tree_root tail_hash (leaves (channel_0_tree 1))) (from_hex (newRoot r))
      (channel_0 Ordered) (recv_updated_datum example_recv ''c0'' (channel_0 Ordered))
      (SpendRecvPacket (recv_packet_of example_recv (channel_0 Ordered)) (rpo_proofHeight example_recv)) (redeemer_siblings r)) \<and>
   (\<exists>r m'. computeRootWithHandlePacketUpdate tail_hash toy_codec (to_hex (tree_root tail_hash (leaves (channel_0_tree 1))))
      ''transfer'' ''channel-0'' (channel_0 Unordered) (recv_updated_datum example_recv ''c0'' (channel_0 Unordered))
      (module_of (channel_0_tree 1)) = Inr (r, m') \<and>
    validate_handle_packet_root tail_hash toy_cbor (tree_root tail_hash (leaves (channel_0_tree 1))) (from_hex (newRoot r))
      (channel_0 Unordered) (recv_updated_datum example_recv ''c0'' (channel_0 Unordered))
      (SpendRecvPacket (recv_packet_of example_recv (channel_0 Unordered)) (rpo_proofHeight example_recv)) (redeemer_siblings r))"
proof -
  have n: "rpo_packetSequence example_recv = 1" by (simp add: example_recv_def)
  have sync: "synced tail_hash {nextSequenceRecvPath ''transfer'' ''channel-0'',
      receiptPath ''transfer'' ''channel-0'' (rpo_packetSequence example_recv),
      acknowledgementPath ''transfer'' ''channel-0'' (rpo_packetSequence example_recv)}
      (to_hex (tree_root tail_hash (leaves (channel_0_tree 1)))) (module_of (channel_0_tree 1))"
    unfolding n by (rule synced_mono [OF channel_0_synced(1)]) simp
  have small: "rpo_packetSequence example_recv < 2 ^ 53" by (simp add: n)
  note recv = recv_packet_passes_host_check [OF tail_hash_spec toy_encodes channel_0_identifies(1) channel_0_stored(1) sync
      tail_hash_commits tail_hash_commits tail_hash_commits tail_hash_commits channel_0_inv(1) channel_0_inv(3) small
      channel_0_no_ack channel_0_recv, unfolded from_hex_to_hex]
  show ?thesis using recv [of Ordered] recv [of Unordered] by blast
qed

theorem acknowledge_packet_host_check_iff_witness:
  "(\<exists>r m'. computeRootWithHandlePacketUpdate tail_hash toy_codec (to_hex (tree_root tail_hash (leaves channel_0_sent_tree)))
      ''transfer'' ''channel-0'' (channel_0_sent Unordered) (ack_updated_datum example_ack (channel_0_sent Unordered))
      (module_of channel_0_sent_tree) = Inr (r, m') \<and>
    validate_handle_packet_root tail_hash toy_cbor (tree_root tail_hash (leaves channel_0_sent_tree)) (from_hex (newRoot r))
      (channel_0_sent Unordered) (ack_updated_datum example_ack (channel_0_sent Unordered))
      (SpendAcknowledgePacket (ack_packet_of example_ack (channel_0_sent Unordered))) (redeemer_siblings r)) \<and>
   (\<exists>r m'. computeRootWithHandlePacketUpdate tail_hash toy_codec (to_hex (tree_root tail_hash (leaves channel_0_sent_tree)))
      ''transfer'' ''channel-0'' (channel_0_sent Ordered) (ack_updated_datum example_ack (channel_0_sent Ordered))
      (module_of channel_0_sent_tree) = Inr (r, m') \<and>
    \<not> validate_handle_packet_root tail_hash toy_cbor (tree_root tail_hash (leaves channel_0_sent_tree)) (from_hex (newRoot r))
      (channel_0_sent Ordered) (ack_updated_datum example_ack (channel_0_sent Ordered))
      (SpendAcknowledgePacket (ack_packet_of example_ack (channel_0_sent Ordered))) (redeemer_siblings r))"
proof -
  have sync: "synced tail_hash {commitmentPath ''transfer'' ''channel-0'' (apo_packetSequence example_ack)}
      (to_hex (tree_root tail_hash (leaves channel_0_sent_tree))) (module_of channel_0_sent_tree)"
    by (rule synced_mono [OF channel_0_synced(2)]) (simp add: example_ack_def)
  note ack = acknowledge_packet_host_check_iff [OF tail_hash_spec channel_0_identifies(2) channel_0_stored(2) sync
      tail_hash_commits channel_0_inv(2) channel_0_ack, of _ toy_codec, unfolded from_hex_to_hex channel_0_ordering]
  show ?thesis using ack [of Unordered] ack [of Ordered] by (simp only: order.distinct simp_thms) blast
qed

end
