(* ===== verification/State_Rebuild.thy ===== *)
theory State_Rebuild
  imports State_Root_Replay Hex
begin

section \<open>Rebuilding the tree from the chain\<close>

text \<open>
  \<open>rebuildTreeFromChain\<close> and \<open>alignTreeWithChain\<close> of
  \<open>cardano/gateway/src/shared/helpers/ibc-state-root.ts\<close>. The UTxO queries of Kupo, the host state
  look-up and the datum decoder are services: their results are the arguments of the model
  (\<open>chain_view\<close>) and the decoders are its parameters. What the module does with them, down to the
  parsing of token names, is modelled; the theory shows that a rebuild never installs a tree whose
  root differs from the root on chain, and that it restores the committed contents.
\<close>

record chain_utxo =
  utxo_datum :: "string option"
  utxo_units :: "string list"

text \<open>
  Consensus states arrive as a \<open>Map\<close> whose keys are height objects or as one with textual keys
  (or a plain object); a client may have none.
\<close>

datatype 'cons consensus_states = ByHeight "(height \<times> 'cons) list" | ByText "(string \<times> 'cons) list" | NoStates

record ('cs, 'cons) client_view =
  clientState :: 'cs
  consensusStates :: "'cons consensus_states"

record 'reg host_view =
  ibc_state_root :: string
  bound_port :: "(string \<times> 'reg) list option"

record ('reg, 'cs, 'cons, 'conn) decoders =
  decodeHost :: "string \<Rightarrow> 'reg host_view result"
  decodeClient :: "string \<Rightarrow> ('cs, 'cons) client_view result"
  decodeConnection :: "string \<Rightarrow> 'conn result"
  decodeChannel :: "string \<Rightarrow> channel_datum result"

record chain_view =
  hostStateDatum :: "string option"
  clientUtxos :: "chain_utxo list"
  connectionUtxos :: "chain_utxo list"
  channelUtxos :: "chain_utxo list"

definition datum_text :: "chain_utxo \<Rightarrow> string option" where
  "datum_text u = (case utxo_datum u of Some d \<Rightarrow> if d = [] then None else Some d | None \<Rightarrow> None)"

definition first_unit :: "chain_utxo \<Rightarrow> string option" where
  "first_unit u = find (\<lambda>unit. unit \<noteq> ''lovelace'') (utxo_units u)"

definition port_entries :: "('reg, 'cs, 'cons, 'conn) codec \<Rightarrow> 'reg host_view \<Rightarrow> (string \<times> buffer) list" where
  "port_entries codec host =
     map (\<lambda>(portIdHex, registration).
        (portPath (convertHex2String portIdHex), from_hex (encodeModuleRegistration codec registration)))
       (case bound_port host of Some ps \<Rightarrow> ps | None \<Rightarrow> [])"

definition consensus_entries :: "('reg, 'cs, 'cons, 'conn) codec \<Rightarrow> string \<Rightarrow> 'cons consensus_states \<Rightarrow>
    (string \<times> buffer) list" where
  "consensus_entries codec clientId states =
     (let entries = (case states of
            ByHeight es \<Rightarrow> map (\<lambda>(h, c). (dec_string (revisionHeight h), c)) es
          | ByText es \<Rightarrow> es
          | NoStates \<Rightarrow> [])
      in map (\<lambda>(heightStr, c). (consensusStatePath clientId heightStr, from_hex (encodeConsensusStateValue codec c))) entries)"

definition client_entries :: "('reg, 'cs, 'cons, 'conn) decoders \<Rightarrow> ('reg, 'cs, 'cons, 'conn) codec \<Rightarrow> chain_utxo \<Rightarrow>
    (string \<times> buffer) list result" where
  "client_entries dec codec u =
     (case datum_text u of
        None \<Rightarrow> Inr []
      | Some d \<Rightarrow> bindE (decodeClient dec d) (\<lambda>clientDatum.
          case first_unit u of
            None \<Rightarrow> Inr []
          | Some clientUnit \<Rightarrow>
              if clientUnit = [] \<or> length clientUnit < 56 + 48 + 2 then Inr []
              else let tokenName = drop 56 clientUnit; postfixHex = drop 48 tokenName in
                bindE (js_BigInt (utf8_text (from_hex postfixHex))) (\<lambda>clientSequence.
                let clientId = ''07-tendermint-'' @ int_string clientSequence in
                Inr ((clientStatePath clientId, from_hex (encodeClientStateValue codec (clientState clientDatum))) #
                     consensus_entries codec clientId (consensusStates clientDatum)))))"

text \<open>The identifier suffix of a connection or channel token, or \<open>None\<close> where the loop skips it.\<close>

definition token_sequence :: "chain_utxo \<Rightarrow> string option" where
  "token_sequence u =
     (case first_unit u of
        None \<Rightarrow> None
      | Some unit \<Rightarrow>
          if unit = [] \<or> length unit \<le> 56 then None
          else let tokenNameHex = drop 56 unit in
            if length tokenNameHex < 48 + 2 then None
            else let seqStr = utf8_text (from_hex (drop 48 tokenNameHex)) in
              if digits seqStr then Some seqStr else None)"

definition connection_entries :: "('reg, 'cs, 'cons, 'conn) decoders \<Rightarrow> ('reg, 'cs, 'cons, 'conn) codec \<Rightarrow> chain_utxo \<Rightarrow>
    (string \<times> buffer) list result" where
  "connection_entries dec codec u =
     (case datum_text u of
        None \<Rightarrow> Inr []
      | Some d \<Rightarrow> bindE (decodeConnection dec d) (\<lambda>connectionEnd.
          case token_sequence u of
            None \<Rightarrow> Inr []
          | Some seqStr \<Rightarrow>
              Inr [(connectionPath (''connection-'' @ seqStr), from_hex (encodeConnectionEndValue codec connectionEnd))]))"

definition packet_entries :: "('reg, 'cs, 'cons, 'conn) codec \<Rightarrow> (nat \<Rightarrow> string) \<Rightarrow> (nat, string) jsmap \<Rightarrow> (string \<times> buffer) list" where
  "packet_entries codec path m = map (\<lambda>(sequence, bytesHex). (path sequence, from_hex (dataToBytes codec bytesHex))) m"

definition channel_datum_entries :: "('reg, 'cs, 'cons, 'conn) codec \<Rightarrow> string \<Rightarrow> channel_datum \<Rightarrow> (string \<times> buffer) list" where
  "channel_datum_entries codec channelId d =
     (let portHex = port d;
          portId = (if portHex = [] then ''transfer'' else utf8_text (from_hex portHex));
          s = state d
      in [(channelEndPath portId channelId, from_hex (encodeChannelEndValue codec (contents (channel s)))),
          (nextSequenceSendPath portId channelId, from_hex (dataToInteger codec (next_sequence_send s))),
          (nextSequenceRecvPath portId channelId, from_hex (dataToInteger codec (next_sequence_recv s))),
          (nextSequenceAckPath portId channelId, from_hex (dataToInteger codec (next_sequence_ack s)))] @
         packet_entries codec (commitmentPath portId channelId) (packet_commitment s) @
         packet_entries codec (receiptPath portId channelId) (packet_receipt s) @
         packet_entries codec (acknowledgementPath portId channelId) (packet_acknowledgement s))"

definition channel_entries :: "('reg, 'cs, 'cons, 'conn) decoders \<Rightarrow> ('reg, 'cs, 'cons, 'conn) codec \<Rightarrow> chain_utxo \<Rightarrow>
    (string \<times> buffer) list result" where
  "channel_entries dec codec u =
     (case datum_text u of
        None \<Rightarrow> Inr []
      | Some d \<Rightarrow> bindE (decodeChannel dec d) (\<lambda>channelDatum.
          case token_sequence u of
            None \<Rightarrow> Inr []
          | Some seqStr \<Rightarrow> Inr (channel_datum_entries codec (''channel-'' @ seqStr) channelDatum)))"

definition set_all :: "(string \<times> buffer) list \<Rightarrow> merkle_tree \<Rightarrow> merkle_tree" where
  "set_all es t = fold (\<lambda>(k, v). set_leaf k (Bytes v)) es t"

definition add_utxos :: "(chain_utxo \<Rightarrow> (string \<times> buffer) list result) \<Rightarrow> chain_utxo list \<Rightarrow> merkle_tree \<Rightarrow> merkle_tree result" where
  "add_utxos entries us t = foldE (\<lambda>u t. bindE (entries u) (\<lambda>es. Inr (set_all es t))) us t"

definition root_mismatch :: "string \<Rightarrow> string \<Rightarrow> error" where
  "root_mismatch expectedRoot computedRoot =
     Error (''Tree rebuild FAILED: Root mismatch!'' @ [CHR 0x0A] @ ''  Expected: '' @ expectedRoot @
       [CHR 0x0A] @ ''  Computed: '' @ computedRoot @ [CHR 0x0A] @
       ''This indicates stale Kupo data or datum decoding error.'')"

text \<open>The \<open>try\<close> block: build, compare with the root on chain.\<close>

definition rebuild_body :: "hash_fun \<Rightarrow> ('reg, 'cs, 'cons, 'conn) decoders \<Rightarrow> ('reg, 'cs, 'cons, 'conn) codec \<Rightarrow>
    'reg host_view \<Rightarrow> chain_view \<Rightarrow> (merkle_tree \<times> string) result" where
  "rebuild_body sha dec codec host chain =
     (let tree0 = set_all (port_entries codec host) new_tree in
      bindE (add_utxos (client_entries dec codec) (clientUtxos chain) tree0) (\<lambda>tree1.
      bindE (add_utxos (connection_entries dec codec) (connectionUtxos chain) tree1) (\<lambda>tree2.
      bindE (add_utxos (channel_entries dec codec) (channelUtxos chain) tree2) (\<lambda>tree3.
      bindE (getRoot sha tree3) (\<lambda>(computedRoot, tree).
      if computedRoot \<noteq> ibc_state_root host
      then Inl (root_mismatch (ibc_state_root host) computedRoot)
      else Inr (tree, computedRoot))))))"

fun message :: "error \<Rightarrow> string" where
  "message (Error s) = s"
| "message (GrpcInvalidArgument s) = s"
| "message (GrpcFailedPrecondition s) = s"
| "message (GrpcNotFound s) = s"
| "message (GrpcInternal s) = s"

definition rebuildTreeFromChain :: "hash_fun \<Rightarrow> ('reg, 'cs, 'cons, 'conn) decoders \<Rightarrow> ('reg, 'cs, 'cons, 'conn) codec \<Rightarrow>
    chain_view \<Rightarrow> tree_module \<Rightarrow> ((merkle_tree \<times> string) \<times> tree_module) result" where
  "rebuildTreeFromChain sha dec codec chain m =
     (case hostStateDatum chain of
        None \<Rightarrow> Inl (Error ''HostState UTXO has no datum - STT architecture integrity compromised'')
      | Some d \<Rightarrow>
          if d = [] then Inl (Error ''HostState UTXO has no datum - STT architecture integrity compromised'')
          else bindE (decodeHost dec d) (\<lambda>host.
            case rebuild_body sha dec codec host chain of
              Inl e \<Rightarrow> Inl (Error (''Tree rebuild failed: '' @ message e))
            | Inr (tree, r) \<Rightarrow> Inr ((tree, r), m\<lparr>currentTree := tree\<rparr>)))"

definition alignTreeWithChain :: "hash_fun \<Rightarrow> ('reg, 'cs, 'cons, 'conn) decoders \<Rightarrow> ('reg, 'cs, 'cons, 'conn) codec \<Rightarrow>
    chain_view \<Rightarrow> tree_module \<Rightarrow> (string \<times> tree_module) result" where
  "alignTreeWithChain sha dec codec chain m =
     (if \<not> cachedKupoService m \<or> \<not> cachedLucidService m
      then Inl (Error ''Tree services not initialized. Call initTreeServices() on Gateway startup.'')
      else bindE (rebuildTreeFromChain sha dec codec chain m) (\<lambda>((tree, r), m'). Inr (r, m')))"

definition getCurrentTree :: "tree_module \<Rightarrow> merkle_tree" where
  "getCurrentTree m = currentTree m"

definition setCurrentTree :: "merkle_tree \<Rightarrow> tree_module \<Rightarrow> tree_module" where
  "setCurrentTree tree m = m\<lparr>currentTree := tree\<rparr>"

definition getCurrentRoot :: "hash_fun \<Rightarrow> tree_module \<Rightarrow> (string \<times> tree_module) result" where
  "getCurrentRoot sha m = bindE (getRoot sha (currentTree m)) (\<lambda>(r, t). Inr (r, m\<lparr>currentTree := t\<rparr>))"

definition resetTreeState :: "tree_module \<Rightarrow> tree_module" where
  "resetTreeState m = m\<lparr>currentTree := new_tree\<rparr>"


section \<open>Properties\<close>

lemma set_all_append: "set_all (xs @ ys) t = set_all ys (set_all xs t)"
  by (simp add: set_all_def)

lemma add_utxos_mapE: "add_utxos f us t = bindE (mapE f us) (\<lambda>ess. Inr (set_all (concat ess) t))"
proof (induction us arbitrary: t)
  case Nil
  then show ?case by (simp add: add_utxos_def set_all_def)
next
  case (Cons u us)
  have "add_utxos f (u # us) t = bindE (f u) (\<lambda>es. add_utxos f us (set_all es t))"
    by (cases "f u") (simp_all add: add_utxos_def)
  also have "\<dots> = bindE (mapE f (u # us)) (\<lambda>ess. Inr (set_all (concat ess) t))"
    by (cases "f u"; cases "mapE f us") (simp_all add: Cons.IH set_all_append)
  finally show ?case .
qed

text \<open>All the entries a rebuild writes, in order, and the map they amount to.\<close>

definition chain_entries :: "('reg, 'cs, 'cons, 'conn) decoders \<Rightarrow> ('reg, 'cs, 'cons, 'conn) codec \<Rightarrow>
    'reg host_view \<Rightarrow> chain_view \<Rightarrow> (string \<times> buffer) list result" where
  "chain_entries dec codec host chain =
     bindE (mapE (client_entries dec codec) (clientUtxos chain)) (\<lambda>clients.
     bindE (mapE (connection_entries dec codec) (connectionUtxos chain)) (\<lambda>connections.
     bindE (mapE (channel_entries dec codec) (channelUtxos chain)) (\<lambda>channels.
     Inr (port_entries codec host @ concat clients @ concat connections @ concat channels))))"

definition entries_map :: "(string \<times> buffer) list \<Rightarrow> string \<Rightarrow> buffer option" where
  "entries_map es = fold (\<lambda>(k, v) f. f(k := (if v = [] then None else Some v))) es (\<lambda>_. None)"

lemma set_all_props:
  "leaves_wf (leaves t) \<Longrightarrow> dirty t \<Longrightarrow>
   leaves_wf (leaves (set_all es t)) \<and> dirty (set_all es t) \<and>
   get_leaf (set_all es t) = fold (\<lambda>(k, v) f. f(k := (if v = [] then None else Some v))) es (get_leaf t)"
proof (induction es arbitrary: t)
  case Nil
  then show ?case by (simp add: set_all_def)
next
  case (Cons e es)
  obtain k v where e: "e = (k, v)" by (cases e)
  have "leaves_wf (leaves (set_leaf k (Bytes v) t))" by (rule leaves_wf_set_leaf [OF Cons.prems(1)])
  moreover have "dirty (set_leaf k (Bytes v) t)" by (simp add: set_leaf_def Let_def)
  moreover have "get_leaf (set_leaf k (Bytes v) t) = (get_leaf t)(k := (if v = [] then None else Some v))"
    by (cases "v = []") (simp_all add: get_set_leaf)
  ultimately show ?case using Cons.IH [of "set_leaf k (Bytes v) t"] e by (simp add: set_all_def)
qed

lemma set_all_new:
  "leaves_wf (leaves (set_all es new_tree))" "dirty (set_all es new_tree)"
  "get_leaf (set_all es new_tree) = entries_map es"
proof -
  have "leaves_wf (leaves new_tree)" "dirty new_tree" "get_leaf new_tree = (\<lambda>_. None)"
    by (simp_all add: new_tree_def leaves_wf_def get_leaf_def fun_eq_iff)
  with set_all_props [of new_tree es] show "leaves_wf (leaves (set_all es new_tree))" "dirty (set_all es new_tree)"
    "get_leaf (set_all es new_tree) = entries_map es" by (simp_all add: entries_map_def)
qed

lemma rebuild_body_entries:
  "rebuild_body sha dec codec host chain = bindE (chain_entries dec codec host chain) (\<lambda>es.
     bindE (getRoot sha (set_all es new_tree)) (\<lambda>(computedRoot, tree).
      if computedRoot \<noteq> ibc_state_root host
      then Inl (root_mismatch (ibc_state_root host) computedRoot)
      else Inr (tree, computedRoot)))"
  by (cases "mapE (client_entries dec codec) (clientUtxos chain)";
      cases "mapE (connection_entries dec codec) (connectionUtxos chain)";
      cases "mapE (channel_entries dec codec) (channelUtxos chain)")
    (simp_all add: rebuild_body_def chain_entries_def add_utxos_mapE set_all_append Let_def)

lemma getRoot_again: "getRoot sha t = Inr (r, u) \<Longrightarrow> getRoot sha u = Inr (r, u)"
  by (auto simp: getRoot_def ensureRebuilt_def bindE_Inr_iff Let_def split: if_splits)

lemma rebuild_body_Inr:
  assumes "rebuild_body sha dec codec host chain = Inr (tree, r)"
  shows "r = ibc_state_root host" "getRoot sha tree = Inr (r, tree)"
proof -
  from assms obtain es p where p: "getRoot sha (set_all es new_tree) = Inr p"
    "(case p of (computedRoot, tree) \<Rightarrow> if computedRoot \<noteq> ibc_state_root host
       then Inl (root_mismatch (ibc_state_root host) computedRoot)
       else Inr (tree, computedRoot)) = Inr (tree, r)"
    unfolding rebuild_body_entries bindE_Inr_iff by blast
  obtain c u where cu: "p = (c, u)" by (cases p)
  with p(2) have "c = ibc_state_root host" "c = r" "u = tree" by (simp_all split: if_splits)
  then show "r = ibc_state_root host" and "getRoot sha tree = Inr (r, tree)"
    using getRoot_again [OF p(1) [unfolded cu]] by simp_all
qed

text \<open>
  C16. A rebuild never installs a wrong tree: if it returns, the root it returns is the root in the
  host state datum, the installed tree is the returned one and has that root.
\<close>

theorem rebuild_installs_committed_root:
  assumes "rebuildTreeFromChain sha dec codec chain m = Inr ((tree, r), m')"
  shows "\<exists>d host. hostStateDatum chain = Some d \<and> decodeHost dec d = Inr host \<and> r = ibc_state_root host \<and>
    m' = m\<lparr>currentTree := tree\<rparr> \<and> getRoot sha tree = Inr (r, tree)"
proof -
  obtain d where d: "hostStateDatum chain = Some d" "d \<noteq> []"
    using assms by (auto simp: rebuildTreeFromChain_def split: option.splits if_splits)
  then obtain host where host: "decodeHost dec d = Inr host"
    using assms by (auto simp: rebuildTreeFromChain_def bindE_Inr_iff)
  then have "(case rebuild_body sha dec codec host chain of
        Inl e \<Rightarrow> Inl (Error (''Tree rebuild failed: '' @ message e))
      | Inr (tree, r) \<Rightarrow> Inr ((tree, r), m\<lparr>currentTree := tree\<rparr>)) = Inr ((tree, r), m')"
    using assms d by (simp only: rebuildTreeFromChain_def option.case if_False bindE_simps)
  then have body: "rebuild_body sha dec codec host chain = Inr (tree, r)" and m': "m' = m\<lparr>currentTree := tree\<rparr>"
    by (simp_all split: sum.splits prod.splits)
  from rebuild_body_Inr [OF body] d host m' show ?thesis by simp
qed

text \<open>Concrete decoders and encoders to apply the theorems to.\<close>

definition port_host :: "string \<Rightarrow> unit host_view" where
  "port_host r = \<lparr>ibc_state_root = r, bound_port = Some [(''69636131'', ())]\<rparr>"

lemma port_host_root: "ibc_state_root (port_host r) = r"
  by (simp add: port_host_def)

definition port_decoders :: "string \<Rightarrow> (unit, unit, unit, unit) decoders" where
  "port_decoders r = \<lparr>decodeHost = \<lambda>_. Inr (port_host r), decodeClient = \<lambda>_. Inl (Error []),
     decodeConnection = \<lambda>_. Inl (Error []), decodeChannel = \<lambda>_. Inl (Error [])\<rparr>"

definition unit_codec :: "(unit, unit, unit, unit) codec" where
  "unit_codec = \<lparr>encodeModuleRegistration = \<lambda>_. ''01'', encodeClientStateValue = \<lambda>_. ''02'',
     encodeConsensusStateValue = \<lambda>_. ''03'', encodeConnectionEndValue = \<lambda>_. ''04'', encodeChannelEndValue = \<lambda>_. ''05'',
     dataToInteger = \<lambda>n. to_hex [word_of_nat n], dataToBytes = \<lambda>b. b\<rparr>"

definition port_chain :: chain_view where
  "port_chain = \<lparr>hostStateDatum = Some ''d8'', clientUtxos = [], connectionUtxos = [], channelUtxos = []\<rparr>"

definition port_tree :: merkle_tree where
  "port_tree = set_leaf ''ports/ica1'' (Bytes [1]) new_tree"

lemma port_tree_ok: "tree_ok tail_hash {} port_tree"
proof -
  have "tree_ok tail_hash {''ports/ica1''} new_tree" by (rule tree_ok_new) (auto intro: inj_onI)
  then have "tree_ok tail_hash {''ports/ica1''} port_tree"
    unfolding port_tree_def by (rule tree_ok_set_leaf) (rule singletonI)
  then show ?thesis by (rule tree_ok_mono) (rule empty_subsetI)
qed

lemma port_chain_entries: "chain_entries (port_decoders r) unit_codec (port_host r) port_chain = Inr [(''ports/ica1'', [1])]"
proof -
  have "portPath (convertHex2String ''69636131'') = ''ports/ica1''" "from_hex ''01'' = [1]" by code_simp+
  then show ?thesis by (simp add: chain_entries_def port_chain_def port_entries_def port_host_def unit_codec_def)
qed

lemma port_rebuild:
  "\<exists>tree. rebuildTreeFromChain tail_hash (port_decoders (to_hex (tree_root tail_hash (leaves port_tree)))) unit_codec port_chain m =
     Inr ((tree, to_hex (tree_root tail_hash (leaves port_tree))), m\<lparr>currentTree := tree\<rparr>)"
proof -
  let ?r = "to_hex (tree_root tail_hash (leaves port_tree))"
  have "set_all [(''ports/ica1'', [1])] new_tree = port_tree" by (simp add: set_all_def port_tree_def)
  then obtain u where "rebuild_body tail_hash (port_decoders ?r) unit_codec (port_host ?r) port_chain = Inr (u, ?r)"
    using gw.root_of_ok [OF port_tree_ok]
    by (auto simp: rebuild_body_entries port_chain_entries port_host_root)
  moreover have "hostStateDatum port_chain = Some ''d8''" "decodeHost (port_decoders ?r) ''d8'' = Inr (port_host ?r)"
    by (simp_all add: port_chain_def port_decoders_def)
  ultimately show ?thesis by (simp add: rebuildTreeFromChain_def)
qed

theorem rebuild_installs_committed_root_witness:
  "\<exists>tree. rebuildTreeFromChain tail_hash (port_decoders (to_hex (tree_root tail_hash (leaves port_tree)))) unit_codec port_chain
      \<lparr>currentTree = new_tree, cachedKupoService = True, cachedLucidService = True\<rparr> =
     Inr ((tree, to_hex (tree_root tail_hash (leaves port_tree))),
       \<lparr>currentTree = tree, cachedKupoService = True, cachedLucidService = True\<rparr>) \<and>
    getRoot tail_hash tree = Inr (to_hex (tree_root tail_hash (leaves port_tree)), tree)"
  using port_rebuild [of "\<lparr>currentTree = new_tree, cachedKupoService = True, cachedLucidService = True\<rparr>"]
  by (auto dest: rebuild_installs_committed_root)

lemma rebuild_entries:
  assumes "hostStateDatum chain = Some d" "d \<noteq> []" "decodeHost dec d = Inr host"
    and "chain_entries dec codec host chain = Inr es"
    and "tree_ok sha {} t" "get_leaf t = entries_map es" "ibc_state_root host = to_hex (tree_root sha (leaves t))"
  shows "\<exists>tree m'. rebuildTreeFromChain sha dec codec chain m = Inr ((tree, ibc_state_root host), m') \<and>
    get_leaf (currentTree m') = get_leaf t \<and> tree_ok sha {} (currentTree m')"
proof -
  let ?t = "set_all es new_tree"
  have same: "map_of (leaves ?t) = map_of (leaves t)"
    using set_all_new(3) [of es] assms(6) by (simp add: get_leaf_def fun_eq_iff)
  then have keys: "fst ` set (leaves ?t) = fst ` set (leaves t)" by (metis dom_map_of_conv_image_fst)
  have ok: "tree_ok sha {} ?t"
    using assms(5) keys set_all_new [of es] by (simp add: tree_ok_def cache_ok_def)
  obtain u where u: "getRoot sha ?t = Inr (to_hex (tree_root sha (leaves ?t)), u)" "leaves u = leaves ?t" "tree_ok sha {} u"
    using gw.root_of_ok [OF ok] by blast
  have "tree_root sha (leaves ?t) = tree_root sha (leaves t)"
    using ok assms(5) same by (intro tree_root_map_of) (auto simp: tree_ok_def)
  with u assms(1-4,7) same show ?thesis
    by (simp add: rebuildTreeFromChain_def rebuild_body_entries get_leaf_def fun_eq_iff)
qed

section \<open>The committed state\<close>

text \<open>
  What the chain commits to, independently of how the gateway reads it: the IBC objects with their
  identifiers, and the entry that each of them has in the commitment tree. A chain presents a
  state when each object has its UTxO: one authentication token, whose name ends in the object's
  number (56 digits of policy, 48 digits of base name and prefix, the decimal number), and a datum
  that decodes to the object.
\<close>

record ('reg, 'cs, 'cons, 'conn) ibc_state =
  st_ports :: "(string \<times> 'reg) list"
  st_clients :: "(nat \<times> 'cs \<times> (height \<times> 'cons) list) list"
  st_connections :: "(nat \<times> 'conn) list"
  st_channels :: "(nat \<times> string \<times> channel_datum) list"

definition committed_channel :: "('reg, 'cs, 'cons, 'conn) codec \<Rightarrow> string \<Rightarrow> string \<Rightarrow> channel_datum \<Rightarrow> (string \<times> buffer) set" where
  "committed_channel codec p c d =
     {(channelEndPath p c, from_hex (encodeChannelEndValue codec (contents (channel (state d))))),
      (nextSequenceSendPath p c, from_hex (dataToInteger codec (next_sequence_send (state d)))),
      (nextSequenceRecvPath p c, from_hex (dataToInteger codec (next_sequence_recv (state d)))),
      (nextSequenceAckPath p c, from_hex (dataToInteger codec (next_sequence_ack (state d))))} \<union>
     {(commitmentPath p c n, from_hex (dataToBytes codec b)) | n b. (n, b) \<in> set (packet_commitment (state d))} \<union>
     {(receiptPath p c n, from_hex (dataToBytes codec b)) | n b. (n, b) \<in> set (packet_receipt (state d))} \<union>
     {(acknowledgementPath p c n, from_hex (dataToBytes codec b)) | n b. (n, b) \<in> set (packet_acknowledgement (state d))}"

definition committed_entries :: "('reg, 'cs, 'cons, 'conn) codec \<Rightarrow> ('reg, 'cs, 'cons, 'conn) ibc_state \<Rightarrow> (string \<times> buffer) set" where
  "committed_entries codec S =
     {(portPath p, from_hex (encodeModuleRegistration codec r)) | p r. (p, r) \<in> set (st_ports S)} \<union>
     {(clientStatePath (''07-tendermint-'' @ dec_string n), from_hex (encodeClientStateValue codec cs)) | n cs es.
        (n, cs, es) \<in> set (st_clients S)} \<union>
     {(consensusStatePath (''07-tendermint-'' @ dec_string n) (dec_string (revisionHeight h)), from_hex (encodeConsensusStateValue codec x)) |
        n cs es h x. (n, cs, es) \<in> set (st_clients S) \<and> (h, x) \<in> set es} \<union>
     {(connectionPath (''connection-'' @ dec_string n), from_hex (encodeConnectionEndValue codec e)) | n e.
        (n, e) \<in> set (st_connections S)} \<union>
     (\<Union>(n, p, d) \<in> set (st_channels S). committed_channel codec p (''channel-'' @ dec_string n) d)"

definition auth_unit :: "nat \<Rightarrow> string \<Rightarrow> bool" where
  "auth_unit n unit =
     (\<exists>policy base. length policy = 56 \<and> length base = 48 \<and> unit = policy @ base @ to_hex (utf8 (dec_string n)))"

definition carries :: "chain_utxo \<Rightarrow> nat \<Rightarrow> string \<Rightarrow> bool" where
  "carries u n d =
     (utxo_datum u = Some d \<and> d \<noteq> [] \<and> (\<exists>unit. auth_unit n unit \<and> filter (\<lambda>x. x \<noteq> ''lovelace'') (utxo_units u) = [unit]))"

definition presents :: "('reg, 'cs, 'cons, 'conn) decoders \<Rightarrow> 'reg host_view \<Rightarrow> chain_view \<Rightarrow>
    ('reg, 'cs, 'cons, 'conn) ibc_state \<Rightarrow> bool" where
  "presents dec host chain S =
     (bound_port host = Some (map (\<lambda>(p, r). (to_hex (utf8 p), r)) (st_ports S)) \<and> (\<forall>(p, r) \<in> set (st_ports S). well_formed p) \<and>
      list_all2 (\<lambda>u (n, cs, es). \<exists>d. carries u n d \<and>
        decodeClient dec d = Inr \<lparr>clientState = cs, consensusStates = ByHeight es\<rparr>) (clientUtxos chain) (st_clients S) \<and>
      list_all2 (\<lambda>u (n, e). \<exists>d. carries u n d \<and> decodeConnection dec d = Inr e) (connectionUtxos chain) (st_connections S) \<and>
      list_all2 (\<lambda>u (n, p, cd). \<exists>d. carries u n d \<and> decodeChannel dec d = Inr cd \<and>
        port cd = to_hex (utf8 p) \<and> p \<noteq> [] \<and> well_formed p) (channelUtxos chain) (st_channels S))"


subsection \<open>Reading the state\<close>

lemma digit_no_space: "is_digit c \<Longrightarrow> no_space c"
  by (auto simp: is_digit_def no_space_def Let_def)

lemma js_BigInt_dec_string: "js_BigInt (dec_string n) = Inr (int n)"
proof -
  let ?s = "dec_string n"
  have d: "list_all is_digit ?s" "?s \<noteq> []" using dec_string_digits [of n] by (simp_all add: digits_def)
  have trim: "js_trim ?s = ?s" using d(1) d(2) by (intro js_trim_id) (auto simp: list_all_iff digit_no_space)
  have "list_all is_lower_hex (take 2 ?s)"
    using d(1) by (auto simp: list_all_iff is_digit_def is_lower_hex_def Let_def dest: in_set_takeD)
  then have low: "to_lower (take 2 ?s) = take 2 ?s" by (rule to_lower_hex)
  have "x \<noteq> CHR ''x'' \<and> x \<noteq> CHR ''o'' \<and> x \<noteq> CHR ''b''" if "x \<in> set (take 2 ?s)" for x
    using that d(1) by (auto simp: list_all_iff is_digit_def Let_def dest!: in_set_takeD)
  then have "take 2 ?s \<noteq> ''0x''" "take 2 ?s \<noteq> ''0o''" "take 2 ?s \<noteq> ''0b''" by force+
  then show ?thesis using d(2) dec_string_digits [of n] by (simp add: js_BigInt_def trim low Let_def)
qed

lemma text_of_hex: "well_formed s \<Longrightarrow> utf8_text (from_hex (to_hex (utf8 s))) = s"
  by (simp add: from_hex_to_hex well_formed_def)

lemma hex_text_empty: "to_hex (utf8 s) = [] \<longleftrightarrow> s = []"
proof
  assume "to_hex (utf8 s) = []"
  then have "length (to_hex (utf8 s)) = 0" by (simp only: list.size)
  then show "s = []" unfolding length_to_hex by (simp add: utf8_def)
qed (simp add: to_hex_def utf8_def)

lemma convertHex2String_hex: "well_formed s \<Longrightarrow> convertHex2String (to_hex (utf8 s)) = s"
  unfolding convertHex2String_def hex_text_empty hexToBytes_to_hex by (simp add: well_formed_def)

lemma carries_unit:
  assumes "carries u n d"
  shows "datum_text u = Some d"
    "\<exists>unit. first_unit u = Some unit \<and> 56 + 48 + 2 \<le> length unit \<and> drop 48 (drop 56 unit) = to_hex (utf8 (dec_string n))"
proof -
  show "datum_text u = Some d" using assms by (simp add: carries_def datum_text_def)
  obtain unit policy base where u: "filter (\<lambda>x. x \<noteq> ''lovelace'') (utxo_units u) = [unit]" "length policy = 56" "length base = 48"
    "unit = policy @ base @ to_hex (utf8 (dec_string n))" using assms by (auto simp: carries_def auth_unit_def)
  have "find P xs = Some x" if "filter P xs = [x]" for P xs and x :: string
    using that by (induction xs) (auto split: if_splits)
  then have "first_unit u = Some unit" using u(1) by (simp add: first_unit_def)
  moreover have "0 < length (dec_string n)" using dec_string_digits [of n] by (simp add: digits_def)
  ultimately show "\<exists>unit. first_unit u = Some unit \<and> 56 + 48 + 2 \<le> length unit \<and>
      drop 48 (drop 56 unit) = to_hex (utf8 (dec_string n))" using u(2-4) by (auto simp: utf8_def Suc_le_eq)
qed

lemma carries_sequence: "carries u n d \<Longrightarrow> token_sequence u = Some (dec_string n)"
  using carries_unit(2) [of u n d] dec_string_digits [of n] text_of_hex [OF ascii_well_formed [OF ascii_dec_string], of n]
  by (auto simp: token_sequence_def Let_def)

lemma client_entries_presented:
  assumes "carries u n d" "decodeClient dec d = Inr \<lparr>clientState = cs, consensusStates = ByHeight es\<rparr>"
  shows "client_entries dec codec u = Inr ((clientStatePath (''07-tendermint-'' @ dec_string n), from_hex (encodeClientStateValue codec cs)) #
    map (\<lambda>(h, x). (consensusStatePath (''07-tendermint-'' @ dec_string n) (dec_string (revisionHeight h)),
      from_hex (encodeConsensusStateValue codec x))) es)"
proof -
  obtain unit where "first_unit u = Some unit" "56 + 48 + 2 \<le> length unit" "drop 48 (drop 56 unit) = to_hex (utf8 (dec_string n))"
    using carries_unit(2) [OF assms(1)] by blast
  then show ?thesis
    using carries_unit(1) [OF assms(1)] assms(2) text_of_hex [OF ascii_well_formed [OF ascii_dec_string], of n]
    by (auto simp: client_entries_def js_BigInt_dec_string int_string_nat consensus_entries_def Let_def comp_def case_prod_beta)
qed

lemma channel_entries_presented:
  assumes "carries u n d" "decodeChannel dec d = Inr cd" "port cd = to_hex (utf8 p)" "p \<noteq> []" "well_formed p"
  shows "\<exists>es. channel_entries dec codec u = Inr es \<and> set es = committed_channel codec p (''channel-'' @ dec_string n) cd"
proof -
  have "(if port cd = [] then ''transfer'' else utf8_text (from_hex (port cd))) = p"
    unfolding assms(3) hex_text_empty text_of_hex [OF assms(5)] using assms(4) by simp
  then have "channel_entries dec codec u = Inr (channel_datum_entries codec (''channel-'' @ dec_string n) cd)"
    "set (channel_datum_entries codec (''channel-'' @ dec_string n) cd) = committed_channel codec p (''channel-'' @ dec_string n) cd"
    using carries_unit(1) [OF assms(1)] carries_sequence [OF assms(1)] assms(2)
    by (auto simp: channel_entries_def channel_datum_entries_def committed_channel_def packet_entries_def Let_def image_iff)
  then show ?thesis by blast
qed


lemma mapE_presented:
  assumes "list_all2 R us xs" "\<And>u x. R u x \<Longrightarrow> \<exists>es. f u = Inr es \<and> set es = g x"
  shows "\<exists>ess. mapE f us = Inr ess \<and> set (concat ess) = (\<Union>x \<in> set xs. g x)"
  using assms(1)
proof (induction rule: list_all2_induct)
  case (Cons u us x xs)
  obtain es where "f u = Inr es" "set es = g x" using assms(2) [OF Cons.hyps(1)] by blast
  with Cons.IH show ?case by auto
qed simp

lemma clients_presented:
  assumes "presents dec host chain S"
  shows "\<exists>ess. mapE (client_entries dec codec) (clientUtxos chain) = Inr ess \<and> set (concat ess) = (\<Union>(n, cs, es) \<in> set (st_clients S).
    insert (clientStatePath (''07-tendermint-'' @ dec_string n), from_hex (encodeClientStateValue codec cs))
      ((\<lambda>(h, x). (consensusStatePath (''07-tendermint-'' @ dec_string n) (dec_string (revisionHeight h)),
        from_hex (encodeConsensusStateValue codec x))) ` set es))"
proof (rule mapE_presented)
  show "list_all2 (\<lambda>u (n, cs, es). \<exists>d. carries u n d \<and>
      decodeClient dec d = Inr \<lparr>clientState = cs, consensusStates = ByHeight es\<rparr>) (clientUtxos chain) (st_clients S)"
    using assms unfolding presents_def by blast
qed (auto simp: client_entries_presented)

lemma connections_presented:
  assumes "presents dec host chain S"
  shows "\<exists>ess. mapE (connection_entries dec codec) (connectionUtxos chain) = Inr ess \<and> set (concat ess) =
    (\<Union>(n, e) \<in> set (st_connections S). {(connectionPath (''connection-'' @ dec_string n), from_hex (encodeConnectionEndValue codec e))})"
proof (rule mapE_presented)
  show "list_all2 (\<lambda>u (n, e). \<exists>d. carries u n d \<and> decodeConnection dec d = Inr e) (connectionUtxos chain) (st_connections S)"
    using assms unfolding presents_def by blast
qed (auto simp: connection_entries_def carries_unit(1) carries_sequence)

lemma channels_presented:
  assumes "presents dec host chain S"
  shows "\<exists>ess. mapE (channel_entries dec codec) (channelUtxos chain) = Inr ess \<and> set (concat ess) =
    (\<Union>(n, p, d) \<in> set (st_channels S). committed_channel codec p (''channel-'' @ dec_string n) d)"
proof (rule mapE_presented)
  show "list_all2 (\<lambda>u (n, p, cd). \<exists>d. carries u n d \<and> decodeChannel dec d = Inr cd \<and>
      port cd = to_hex (utf8 p) \<and> p \<noteq> [] \<and> well_formed p) (channelUtxos chain) (st_channels S)"
    using assms unfolding presents_def by blast
next
  fix u x
  assume R: "case x of (n, p, cd) \<Rightarrow> \<exists>d. carries u n d \<and> decodeChannel dec d = Inr cd \<and>
      port cd = to_hex (utf8 p) \<and> p \<noteq> [] \<and> well_formed p"
  obtain n p cd where x: "x = (n, p, cd)" by (cases x)
  from R show "\<exists>es. channel_entries dec codec u = Inr es \<and>
      set es = (case x of (n, p, d) \<Rightarrow> committed_channel codec p (''channel-'' @ dec_string n) d)"
    unfolding x prod.case using channel_entries_presented [of u n _ dec cd p codec] by blast
qed

lemma ports_presented:
  assumes "presents dec host chain S"
  shows "set (port_entries codec host) = (\<lambda>(p, r). (portPath p, from_hex (encodeModuleRegistration codec r))) ` set (st_ports S)"
proof -
  have "bound_port host = Some (map (\<lambda>(p, r). (to_hex (utf8 p), r)) (st_ports S))" "\<forall>(p, r) \<in> set (st_ports S). well_formed p"
    using assms unfolding presents_def by blast+
  then have "port_entries codec host = map (\<lambda>(p, r). (portPath p, from_hex (encodeModuleRegistration codec r))) (st_ports S)"
    by (auto simp: port_entries_def convertHex2String_hex)
  then show ?thesis by simp
qed

lemma union_of_clients:
  "{f n cs | n cs es. (n, cs, es) \<in> A} \<union> {g n h x | n cs es h x. (n, cs, es) \<in> A \<and> (h, x) \<in> set es} =
   (\<Union>(n, cs, es) \<in> A. insert (f n cs) ((\<lambda>(h, x). g n h x) ` set es))"
  by (auto simp: image_iff)

lemma union_of_pairs: "{f a b | a b. (a, b) \<in> A} = (\<lambda>(a, b). f a b) ` A" "{f a b | a b. (a, b) \<in> A} = (\<Union>(a, b) \<in> A. {f a b})"
  by (auto simp: image_iff)

lemma committed_entries_eq:
  "committed_entries codec S =
    (\<lambda>(p, r). (portPath p, from_hex (encodeModuleRegistration codec r))) ` set (st_ports S) \<union>
    (\<Union>(n, cs, es) \<in> set (st_clients S).
      insert (clientStatePath (''07-tendermint-'' @ dec_string n), from_hex (encodeClientStateValue codec cs))
        ((\<lambda>(h, x). (consensusStatePath (''07-tendermint-'' @ dec_string n) (dec_string (revisionHeight h)),
          from_hex (encodeConsensusStateValue codec x))) ` set es)) \<union>
    (\<Union>(n, e) \<in> set (st_connections S). {(connectionPath (''connection-'' @ dec_string n), from_hex (encodeConnectionEndValue codec e))}) \<union>
    (\<Union>(n, p, d) \<in> set (st_channels S). committed_channel codec p (''channel-'' @ dec_string n) d)"
proof -
  have cong: "P \<union> C1 \<union> C2 \<union> N \<union> H = P' \<union> C' \<union> N' \<union> H" if "P = P'" "C1 \<union> C2 = C'" "N = N'" for P P' C1 C2 C' N N' H :: "(string \<times> buffer) set"
    using that by blast
  show ?thesis unfolding committed_entries_def by (rule cong [OF union_of_pairs(1) union_of_clients union_of_pairs(2)])
qed

lemma chain_entries_presented:
  assumes "presents dec host chain S"
  shows "\<exists>es. chain_entries dec codec host chain = Inr es \<and> set es = committed_entries codec S"
proof -
  obtain cl cn ch where "mapE (client_entries dec codec) (clientUtxos chain) = Inr cl"
    "mapE (connection_entries dec codec) (connectionUtxos chain) = Inr cn"
    "mapE (channel_entries dec codec) (channelUtxos chain) = Inr ch"
    "set (port_entries codec host @ concat cl @ concat cn @ concat ch) = committed_entries codec S"
    using clients_presented [OF assms, of codec] connections_presented [OF assms, of codec]
      channels_presented [OF assms, of codec] ports_presented [OF assms, of codec]
    unfolding committed_entries_eq set_append Un_assoc by metis
  then show ?thesis by (simp add: chain_entries_def)
qed

lemma entries_map_eq:
  assumes "\<forall>(k, v) \<in> set es. v \<noteq> [] \<and> f k = Some v"
  shows "entries_map es k = (if k \<in> fst ` set es then f k else None)"
proof -
  have "fold (\<lambda>(k, v) f. f(k := (if v = [] then None else Some v))) es g k = (if k \<in> fst ` set es then f k else g k)" for g
    using assms by (induction es arbitrary: g) auto
  then show ?thesis by (simp add: entries_map_def)
qed

text \<open>
  C17. A rebuild loses nothing: if the chain presents a state of ports, clients with their consensus
  states, connections and channels with their packets, and the host state commits to the root of a
  tree that holds exactly the entries of that state, the rebuild succeeds, and the tree it installs
  holds exactly the entries of that state.
\<close>

theorem rebuild_restores_contents:
  assumes "hostStateDatum chain = Some d" "d \<noteq> []" "decodeHost dec d = Inr host" "presents dec host chain S"
    and "tree_ok sha {} t" "\<And>k v. get_leaf t k = Some v \<longleftrightarrow> (k, v) \<in> committed_entries codec S"
    and "ibc_state_root host = to_hex (tree_root sha (leaves t))"
  shows "\<exists>tree m'. rebuildTreeFromChain sha dec codec chain m = Inr ((tree, ibc_state_root host), m') \<and>
    tree_ok sha {} (currentTree m') \<and>
    (\<forall>k v. get_leaf (currentTree m') k = Some v \<longleftrightarrow> (k, v) \<in> committed_entries codec S)"
proof -
  obtain es where es: "chain_entries dec codec host chain = Inr es" "set es = committed_entries codec S"
    using chain_entries_presented [OF assms(4)] by blast
  have leaf: "\<forall>(k, v) \<in> set es. v \<noteq> [] \<and> get_leaf t k = Some v"
    using es(2) assms(5,6) by (fastforce simp: tree_ok_def leaves_wf_def get_leaf_def list_all_iff dest: map_of_SomeD)
  have "get_leaf t k = None" if "k \<notin> fst ` set es" for k
  proof (rule ccontr)
    assume "get_leaf t k \<noteq> None"
    then obtain v where "(k, v) \<in> set es" using es(2) assms(6) by blast
    then show False using that by force
  qed
  then have "get_leaf t = entries_map es" using entries_map_eq [OF leaf] by (simp add: fun_eq_iff)
  from rebuild_entries [OF assms(1-3) es(1) assms(5) this assms(7), of m] obtain tree m' where
    "rebuildTreeFromChain sha dec codec chain m = Inr ((tree, ibc_state_root host), m')"
    "get_leaf (currentTree m') = get_leaf t" "tree_ok sha {} (currentTree m')" by blast
  then show ?thesis using assms(6) by (intro exI [of _ tree] exI [of _ m']) simp
qed


subsection \<open>A chain with one object of each kind\<close>

definition demo_channel :: channel_datum where
  "demo_channel = \<lparr>state = \<lparr>channel = Obj 0 \<lparr>ch_state = Open, ordering = Unordered,
       counterparty = \<lparr>port_id = ''7472616e73666572'', channel_id = ''6368616e6e656c2d37''\<rparr>,
       connection_hops = [''636f6e6e656374696f6e2d30''], version = ''69637332302d31''\<rparr>,
     next_sequence_send = 2, next_sequence_recv = 1, next_sequence_ack = 1,
     packet_commitment = [(1, ''ab'')], packet_receipt = [], packet_acknowledgement = [],
     minimum_receive_proof_height = \<lparr>revisionNumber = 0, revisionHeight = 0\<rparr>,
     maximum_receive_proof_height = \<lparr>revisionNumber = 0, revisionHeight = 0\<rparr>\<rparr>,
   port = to_hex (utf8 ''transfer''), token = \<lparr>policyId = ''aa'', name = ''bb''\<rparr>\<rparr>"

definition demo_state :: "(unit, unit, unit, unit) ibc_state" where
  "demo_state = \<lparr>st_ports = [(''ica1'', ())], st_clients = [(0, (), [(\<lparr>revisionNumber = 0, revisionHeight = 5\<rparr>, ())])],
     st_connections = [(0, ())], st_channels = [(0, ''transfer'', demo_channel)]\<rparr>"

definition demo_unit :: string where
  "demo_unit = replicate 56 (CHR ''a'') @ replicate 48 (CHR ''b'') @ to_hex (utf8 (dec_string 0))"

definition demo_utxo :: chain_utxo where
  "demo_utxo = \<lparr>utxo_datum = Some ''d8'', utxo_units = [''lovelace'', demo_unit]\<rparr>"

definition demo_chain :: chain_view where
  "demo_chain = \<lparr>hostStateDatum = Some ''d8'', clientUtxos = [demo_utxo], connectionUtxos = [demo_utxo], channelUtxos = [demo_utxo]\<rparr>"

definition demo_host :: "string \<Rightarrow> unit host_view" where
  "demo_host r = \<lparr>ibc_state_root = r, bound_port = Some [(to_hex (utf8 ''ica1''), ())]\<rparr>"

definition demo_decoders :: "string \<Rightarrow> (unit, unit, unit, unit) decoders" where
  "demo_decoders r = \<lparr>decodeHost = \<lambda>_. Inr (demo_host r),
     decodeClient = \<lambda>_. Inr \<lparr>clientState = (), consensusStates = ByHeight [(\<lparr>revisionNumber = 0, revisionHeight = 5\<rparr>, ())]\<rparr>,
     decodeConnection = \<lambda>_. Inr (), decodeChannel = \<lambda>_. Inr demo_channel\<rparr>"

definition demo_entries :: "(string \<times> buffer) list" where
  "demo_entries = [(portPath ''ica1'', [1]), (clientStatePath (''07-tendermint-'' @ dec_string 0), [2]),
     (consensusStatePath (''07-tendermint-'' @ dec_string 0) (dec_string 5), [3]), (connectionPath (''connection-'' @ dec_string 0), [4]),
     (channelEndPath ''transfer'' (''channel-'' @ dec_string 0), [5]), (nextSequenceSendPath ''transfer'' (''channel-'' @ dec_string 0), [2]),
     (nextSequenceRecvPath ''transfer'' (''channel-'' @ dec_string 0), [1]), (nextSequenceAckPath ''transfer'' (''channel-'' @ dec_string 0), [1]),
     (commitmentPath ''transfer'' (''channel-'' @ dec_string 0) 1, [0xAB])]"

definition demo_tree :: merkle_tree where
  "demo_tree = set_all demo_entries new_tree"

lemma demo_carries: "carries demo_utxo 0 ''d8''"
proof -
  have "length demo_unit = 56 + (48 + length (to_hex (utf8 (dec_string 0))))"
    unfolding demo_unit_def length_append length_replicate by (rule refl)
  moreover have "length ''lovelace'' = 8" by simp
  ultimately have "length demo_unit \<noteq> length ''lovelace''" by linarith
  then have "demo_unit \<noteq> ''lovelace''" by (rule contrapos_nn) (rule arg_cong [where f = length])
  moreover have "auth_unit 0 demo_unit"
    unfolding auth_unit_def demo_unit_def by (rule exI, rule exI, rule conjI, rule length_replicate, rule conjI, rule length_replicate, rule refl)
  ultimately show ?thesis by (simp add: carries_def demo_utxo_def)
qed

lemma demo_presents: "presents (demo_decoders r) (demo_host r) demo_chain demo_state"
proof -
  have "well_formed ''ica1''" "well_formed ''transfer''" by (rule ascii_well_formed, simp)+
  moreover have "port demo_channel = to_hex (utf8 ''transfer'')" by (simp add: demo_channel_def)
  ultimately show ?thesis using demo_carries
    by (auto simp: presents_def demo_decoders_def demo_host_def demo_chain_def demo_state_def)
qed

lemma unit_codec_values:
  "from_hex (encodeModuleRegistration unit_codec x) = [1]" "from_hex (encodeClientStateValue unit_codec x) = [2]"
  "from_hex (encodeConsensusStateValue unit_codec x) = [3]" "from_hex (encodeConnectionEndValue unit_codec x) = [4]"
  "from_hex (encodeChannelEndValue unit_codec c) = [5]" "from_hex (dataToBytes unit_codec ''ab'') = [0xAB]"
  "from_hex (dataToInteger unit_codec 1) = [1]" "from_hex (dataToInteger unit_codec 2) = [2]"
proof -
  have "from_hex ''01'' = [1]" "from_hex ''02'' = [2]" "from_hex ''03'' = [3]" "from_hex ''04'' = [4]" "from_hex ''05'' = [5]"
    "from_hex ''ab'' = [0xAB]" by code_simp+
  then show "from_hex (encodeModuleRegistration unit_codec x) = [1]" "from_hex (encodeClientStateValue unit_codec x) = [2]"
    "from_hex (encodeConsensusStateValue unit_codec x) = [3]" "from_hex (encodeConnectionEndValue unit_codec x) = [4]"
    "from_hex (encodeChannelEndValue unit_codec c) = [5]" "from_hex (dataToBytes unit_codec ''ab'') = [0xAB]"
    by (simp_all only: unit_codec_def codec.select_convs)
  show "from_hex (dataToInteger unit_codec 1) = [1]" "from_hex (dataToInteger unit_codec 2) = [2]"
    unfolding unit_codec_def codec.select_convs from_hex_to_hex by simp_all
qed

lemma demo_channel_fields:
  "next_sequence_send (state demo_channel) = 2" "next_sequence_recv (state demo_channel) = 1" "next_sequence_ack (state demo_channel) = 1"
  "packet_commitment (state demo_channel) = [(1, ''ab'')]" "packet_receipt (state demo_channel) = []"
  "packet_acknowledgement (state demo_channel) = []"
  by (simp_all add: demo_channel_def)

lemma demo_committed: "committed_entries unit_codec demo_state = set demo_entries"
proof -
  let ?c = "''channel-'' @ dec_string 0"
  have "committed_channel unit_codec ''transfer'' ?c demo_channel = {(channelEndPath ''transfer'' ?c, [5]), (nextSequenceSendPath ''transfer'' ?c, [2]),
      (nextSequenceRecvPath ''transfer'' ?c, [1]), (nextSequenceAckPath ''transfer'' ?c, [1]), (commitmentPath ''transfer'' ?c 1, [0xAB])}"
    unfolding committed_channel_def demo_channel_fields unit_codec_values
    using unit_codec_values(6) by (simp add: insert_commute)
  then show ?thesis
    unfolding committed_entries_eq demo_entries_def demo_state_def
    by (simp add: unit_codec_values insert_commute)
qed

lemma demo_keys: "distinct (map fst demo_entries)" "inj_on (keyIndex64 tail_hash) (set (map fst demo_entries))"
proof -
  show "inj_on (keyIndex64 tail_hash) (set (map fst demo_entries))"
    by (rule inj_on_keyIndex64_list [OF tail_hash_hash32]) code_simp
  show "distinct (map fst demo_entries)" by code_simp
qed

lemma demo_leaf: "get_leaf demo_tree k = Some v \<longleftrightarrow> (k, v) \<in> set demo_entries"
proof -
  have "\<forall>v \<in> snd ` set demo_entries. v \<noteq> []" by (simp add: demo_entries_def)
  then have "\<forall>(k, v) \<in> set demo_entries. v \<noteq> [] \<and> map_of demo_entries k = Some v"
    using map_of_is_SomeI [OF demo_keys(1)] by fastforce
  from entries_map_eq [OF this, of k] have "get_leaf demo_tree k = map_of demo_entries k"
    unfolding demo_tree_def set_all_new(3) using map_of_eq_None_iff [of demo_entries k] by (auto split: if_splits)
  then show ?thesis using map_of_eq_Some_iff [OF demo_keys(1)] by simp
qed

lemma demo_tree_ok: "tree_ok tail_hash {} demo_tree"
proof -
  have "k \<in> set (map fst demo_entries)" if k: "k \<in> fst ` set (leaves demo_tree)" for k
  proof -
    obtain v where "get_leaf demo_tree k = Some v"
      using k map_of_eq_None_iff [of "leaves demo_tree" k] by (cases "map_of (leaves demo_tree) k") (auto simp: get_leaf_def)
    then show ?thesis unfolding demo_leaf by (auto intro: rev_image_eqI)
  qed
  then have "inj_on (keyIndex64 tail_hash) (fst ` set (leaves demo_tree))" by (intro inj_on_subset [OF demo_keys(2)] subsetI)
  then show ?thesis
    using set_all_new(1,2) [of demo_entries] by (simp add: tree_ok_def cache_ok_def demo_tree_def)
qed

theorem rebuild_restores_contents_witness:
  "\<exists>tree m'. rebuildTreeFromChain tail_hash (demo_decoders (to_hex (tree_root tail_hash (leaves demo_tree)))) unit_codec demo_chain
      \<lparr>currentTree = new_tree, cachedKupoService = True, cachedLucidService = True\<rparr> =
      Inr ((tree, to_hex (tree_root tail_hash (leaves demo_tree))), m') \<and>
    (\<forall>k v. get_leaf (currentTree m') k = Some v \<longleftrightarrow> (k, v) \<in> set demo_entries)"
proof -
  let ?r = "to_hex (tree_root tail_hash (leaves demo_tree))"
  have "hostStateDatum demo_chain = Some ''d8''" "''d8'' \<noteq> []" "decodeHost (demo_decoders ?r) ''d8'' = Inr (demo_host ?r)"
    "ibc_state_root (demo_host ?r) = ?r" by (simp_all add: demo_chain_def demo_decoders_def demo_host_def)
  note host = this
  from rebuild_restores_contents [OF host(1-3) demo_presents demo_tree_ok demo_leaf [folded demo_committed] host(4), unfolded host(4) demo_committed]
  show ?thesis by blast
qed

end
