(* ===== verification/Ics20_Packet.thy ===== *)
theory Ics20_Packet
  imports Js_Json
begin

section \<open>ICS-20 packet data\<close>

text \<open>
  \<open>stringifyIcs20PacketData\<close>, which exists twice: in
  \<open>cardano/gateway/src/shared/helpers/helper.ts\<close> and in
  \<open>packages/cardano-ibc-tx-builder/src/index.ts\<close>. Its output is hashed into the packet commitment, so
  the theory shows that both copies produce the same text and that the text determines the
  packet.
\<close>

record ics20_packet =
  ics_denom :: "string option"
  ics_amount :: "string option"
  ics_sender :: "string option"
  ics_receiver :: "string option"
  ics_memo :: "string option"

definition gw_field :: "string \<Rightarrow> string option \<Rightarrow> (string \<times> js_value) list" where
  "gw_field k v = (if v \<noteq> None \<and> v \<noteq> Some [] then [(k, JString (the v))] else [])"

definition gw_stringifyIcs20PacketData :: "ics20_packet \<Rightarrow> string" where
  "gw_stringifyIcs20PacketData p =
     (let ordered = gw_field ''amount'' (ics_amount p) @ gw_field ''denom'' (ics_denom p) @ gw_field ''memo'' (ics_memo p) @
        gw_field ''receiver'' (ics_receiver p) @ gw_field ''sender'' (ics_sender p)
      in the (json_text (JObject ordered)))"

fun truthy_string :: "string option \<Rightarrow> bool" where
  "truthy_string None = False"
| "truthy_string (Some s) = (s \<noteq> [])"

definition tb_field :: "string \<Rightarrow> string option \<Rightarrow> (string \<times> js_value) list" where
  "tb_field k v = (if truthy_string v then [(k, JString (the v))] else [])"

definition stringifyIcs20PacketData :: "ics20_packet \<Rightarrow> string" where
  "stringifyIcs20PacketData p =
     (let ordered = tb_field ''amount'' (ics_amount p) @ tb_field ''denom'' (ics_denom p) @ tb_field ''memo'' (ics_memo p) @
        tb_field ''receiver'' (ics_receiver p) @ tb_field ''sender'' (ics_sender p)
      in the (json_text (JObject ordered)))"


section \<open>Properties\<close>

text \<open>An absent field and an empty one are the same packet.\<close>

definition text_or_empty :: "string option \<Rightarrow> string" where
  "text_or_empty v = (case v of Some s \<Rightarrow> s | None \<Rightarrow> [])"

definition same_packet :: "ics20_packet \<Rightarrow> ics20_packet \<Rightarrow> bool" where
  "same_packet p q =
     (text_or_empty (ics_denom p) = text_or_empty (ics_denom q) \<and> text_or_empty (ics_amount p) = text_or_empty (ics_amount q) \<and>
      text_or_empty (ics_sender p) = text_or_empty (ics_sender q) \<and> text_or_empty (ics_receiver p) = text_or_empty (ics_receiver q) \<and>
      text_or_empty (ics_memo p) = text_or_empty (ics_memo q))"

lemma escape_char_not_quote: "escape_char c = x # xs \<Longrightarrow> x \<noteq> CHR 0x22"
  by (auto simp: escape_char_def split: if_splits)

lemma escape_char_nonempty: "escape_char c \<noteq> []"
  by (simp add: escape_char_def)

lemma escaped_prefix_free:
  "concat (map escape_char s) @ CHR 0x22 # u = concat (map escape_char t) @ CHR 0x22 # v \<Longrightarrow> s = t \<and> u = v"
proof (induction s arbitrary: t)
  case Nil
  show ?case
  proof (cases t)
    case (Cons c t')
    obtain x xs where "escape_char c = x # xs" using escape_char_nonempty [of c] by (cases "escape_char c") auto
    with Nil Cons escape_char_not_quote [of c x xs] show ?thesis by simp
  qed (use Nil in simp)
next
  case (Cons c s)
  show ?case
  proof (cases t)
    case Nil
    obtain x xs where "escape_char c = x # xs" using escape_char_nonempty [of c] by (cases "escape_char c") auto
    with Nil Cons escape_char_not_quote [of c x xs] show ?thesis by simp
  next
    case (Cons d t')
    with Cons.prems escape_char_prefix_free [of c "concat (map escape_char s) @ CHR 0x22 # u" d
        "concat (map escape_char t') @ CHR 0x22 # v"] Cons.IH [of t']
    show ?thesis by simp
  qed
qed

lemma json_string_prefix_free: "json_string s @ u = json_string t @ v \<Longrightarrow> s = t \<and> u = v"
  using escaped_prefix_free [of s u t v] by (simp add: json_string_def)

definition fields_text :: "(string \<times> string) list \<Rightarrow> string" where
  "fields_text es = join_with '','' (map (\<lambda>(k, v). json_string k @ '':'' @ json_string v) es)"

lemma fields_text_Cons:
  "fields_text ((k, v) # es) = json_string k @ '':'' @ json_string v @ (if es = [] then [] else '','' @ fields_text es)"
  by (simp add: fields_text_def join_with_Cons)

lemma fields_text_inj: "fields_text es @ ''}'' = fields_text fs @ ''}'' \<Longrightarrow> es = fs"
proof (induction es arbitrary: fs)
  case Nil
  then show ?case by (cases fs) (auto simp: fields_text_def fields_text_Cons json_string_def join_with_Cons)
next
  case (Cons e es)
  obtain k v where e: "e = (k, v)" by (cases e)
  show ?case
  proof (cases fs)
    case Nil
    with Cons.prems e show ?thesis by (simp add: fields_text_def join_with_Cons json_string_def)
  next
    case (Cons f fs')
    obtain k' v' where f: "f = (k', v')" by (cases f)
    let ?r = "\<lambda>es. (if es = [] then [] else '','' @ fields_text es) @ ''}''"
    have "json_string k @ ('':'' @ json_string v @ ?r es) = json_string k' @ ('':'' @ json_string v' @ ?r fs')"
      using Cons.prems Cons e f by (simp only: fields_text_Cons append_assoc)
    from json_string_prefix_free [OF this] have "k = k'" and "json_string v @ ?r es = json_string v' @ ?r fs'"
      by simp_all
    moreover from json_string_prefix_free [OF this(2)] have "v = v'" "?r es = ?r fs'" by simp_all
    moreover from this(2) have "fields_text es @ ''}'' = fields_text fs' @ ''}''"
      by (cases "es = []"; cases "fs' = []") (auto simp: fields_text_def)
    ultimately show ?thesis using Cons.IH Cons e f by simp
  qed
qed

definition opt_field :: "string \<Rightarrow> string option \<Rightarrow> (string \<times> string) list" where
  "opt_field k v = (if truthy_string v then [(k, the v)] else [])"

definition packet_fields :: "ics20_packet \<Rightarrow> (string \<times> string) list" where
  "packet_fields p = opt_field ''amount'' (ics_amount p) @ opt_field ''denom'' (ics_denom p) @ opt_field ''memo'' (ics_memo p) @
     opt_field ''receiver'' (ics_receiver p) @ opt_field ''sender'' (ics_sender p)"

lemma stringify_fields: "stringifyIcs20PacketData p = ''{'' @ fields_text (packet_fields p) @ ''}''"
proof -
  have json: "the (json_text (JObject (map (\<lambda>(k, v). (k, JString v)) es))) = ''{'' @ fields_text es @ ''}''" for es
  proof -
    have "concat (map (\<lambda>(k, v). case json_text v of Some t \<Rightarrow> [json_string k @ '':'' @ t] | None \<Rightarrow> [])
        (map (\<lambda>(k, v). (k, JString v)) es)) = map (\<lambda>(k, v). json_string k @ '':'' @ json_string v) es"
      by (induction es) auto
    then show ?thesis by (simp add: fields_text_def)
  qed
  have "tb_field k v = map (\<lambda>(k, v). (k, JString v)) (opt_field k v)" for k v
    by (simp add: tb_field_def opt_field_def)
  then have "stringifyIcs20PacketData p = the (json_text (JObject (map (\<lambda>(k, v). (k, JString v)) (packet_fields p))))"
    by (simp only: stringifyIcs20PacketData_def packet_fields_def Let_def map_append)
  then show ?thesis by (simp only: json)
qed

lemma truthy_the: "truthy_string v \<Longrightarrow> the v = text_or_empty v" "truthy_string v \<longleftrightarrow> text_or_empty v \<noteq> []"
  by (cases v; simp add: text_or_empty_def)+

lemma opt_field_lookup:
  "map_of fs k = None \<Longrightarrow> text_or_empty (map_of (opt_field k v @ fs) k) = text_or_empty v"
  "text_or_empty (map_of (opt_field k v) k) = text_or_empty v"
  "k \<noteq> j \<Longrightarrow> map_of (opt_field j v @ fs) k = map_of fs k"
  "k \<noteq> j \<Longrightarrow> map_of (opt_field j v) k = None"
  by (cases v; simp add: opt_field_def text_or_empty_def)+

lemma packet_fields_lookup:
  "text_or_empty (map_of (packet_fields p) ''amount'') = text_or_empty (ics_amount p)"
  "text_or_empty (map_of (packet_fields p) ''denom'') = text_or_empty (ics_denom p)"
  "text_or_empty (map_of (packet_fields p) ''memo'') = text_or_empty (ics_memo p)"
  "text_or_empty (map_of (packet_fields p) ''receiver'') = text_or_empty (ics_receiver p)"
  "text_or_empty (map_of (packet_fields p) ''sender'') = text_or_empty (ics_sender p)"
  by (simp_all add: packet_fields_def opt_field_lookup del: map_of_append)

lemma packet_fields_inj:
  assumes "packet_fields p = packet_fields q"
  shows "same_packet p q"
proof -
  note l = packet_fields_lookup [of p, unfolded assms]
  show ?thesis
    unfolding same_packet_def
    by (intro conjI trans [OF l(2) [symmetric] packet_fields_lookup(2)] trans [OF l(1) [symmetric] packet_fields_lookup(1)]
        trans [OF l(5) [symmetric] packet_fields_lookup(5)] trans [OF l(4) [symmetric] packet_fields_lookup(4)]
        trans [OF l(3) [symmetric] packet_fields_lookup(3)])
qed

lemma tb_field_cong: "text_or_empty v = text_or_empty w \<Longrightarrow> tb_field k v = tb_field k w"
  by (simp add: tb_field_def truthy_the)

text \<open>
  C28. The two copies of \<open>stringifyIcs20PacketData\<close> print the same text for every packet, and the
  text determines the packet: two packets with the same text agree in every field (an absent
  field counting as empty), whatever characters the fields contain.
\<close>

theorem ics20_text_determines_packet:
  "gw_stringifyIcs20PacketData p = stringifyIcs20PacketData p \<and>
   (stringifyIcs20PacketData p = stringifyIcs20PacketData q \<longleftrightarrow> same_packet p q)"
proof
  have "gw_field k v = tb_field k v" for k v by (cases v) (simp_all add: gw_field_def tb_field_def)
  then show "gw_stringifyIcs20PacketData p = stringifyIcs20PacketData p"
    by (simp add: gw_stringifyIcs20PacketData_def stringifyIcs20PacketData_def)
  show "stringifyIcs20PacketData p = stringifyIcs20PacketData q \<longleftrightarrow> same_packet p q"
  proof
    assume "stringifyIcs20PacketData p = stringifyIcs20PacketData q"
    then have "fields_text (packet_fields p) @ ''}'' = fields_text (packet_fields q) @ ''}''"
      by (simp only: stringify_fields append_Cons append_Nil list.inject)
    from packet_fields_inj [OF fields_text_inj [OF this]] show "same_packet p q" .
  next
    assume same: "same_packet p q"
    have "tb_field k (ics_denom p) = tb_field k (ics_denom q)" "tb_field k (ics_amount p) = tb_field k (ics_amount q)"
      "tb_field k (ics_sender p) = tb_field k (ics_sender q)" "tb_field k (ics_receiver p) = tb_field k (ics_receiver q)"
      "tb_field k (ics_memo p) = tb_field k (ics_memo q)" for k
      using same unfolding same_packet_def by (blast intro: tb_field_cong)+
    then show "stringifyIcs20PacketData p = stringifyIcs20PacketData q" by (simp only: stringifyIcs20PacketData_def)
  qed
qed

end
