(* ===== verification/Tx_Builder.thy ===== *)
theory Tx_Builder
  imports Packet_Service Ics20_Packet
begin

section \<open>The transaction builder\<close>

text \<open>
  \<open>packages/cardano-ibc-tx-builder/src/index.ts\<close>: \<open>buildUnsignedSendPacketTx\<close> and its helpers. Its
  dependencies (loading the on-chain context, encoding, UTxO look-ups, the escrow shard, the
  construction of the transaction body, the error constructors) are injected in the source too, as
  the record \<open>deps\<close>; they are the parameters of the model, as is the hash blake2b. The theory
  shows that the datum it commits to is the one the channel validator demands, when it refuses to
  build, and which asset it moves for which denomination.
\<close>

definition LOVELACE :: string where
  "LOVELACE = ''lovelace''"

definition CIP67_FT_LABEL_HEX :: string where
  "CIP67_FT_LABEL_HEX = ''0014df10''"

record utxo =
  txHash :: string
  outputIndex :: nat
  assets :: "(string, int) jsmap"
  inline_datum :: "string option"

record deployment =
  sendPacketPolicyId :: string
  mintVoucherScriptHash :: string
  transferEscrowShardPolicyId :: string
  spendChannelAddress :: string
  transferModuleAddress :: string

record send_context =
  channelUtxo :: utxo
  channelDatum :: channel_datum
  connectionUtxo :: utxo
  clientUtxo :: utxo
  transferModuleReferenceUtxo :: utxo
  channelTokenUnit :: string
  channelToken :: auth_token
  ctx_deployment :: deployment

record 'c host_state_update =
  hostStateUtxo :: utxo
  encodedHostStateRedeemer :: string
  encodedUpdatedHostStateDatum :: string
  newRoot :: string
  hsu_commit :: 'c

record denom_trace =
  path :: string
  baseDenom :: string

datatype escrow_shard =
    ExistingShard (shard_module: utxo) utxo (shard_datum: string) (shard_unit: string)
  | MissingShard (shard_module: utxo) (shard_datum: string) (shard_unit: string) "string list" string

record token_packet_data =
  ft_denom :: string
  ft_amount :: string
  ft_sender :: string
  ft_receiver :: string
  ft_memo :: string

datatype encodable =
    SpendChannelSendPacket packet
  | TransferOnSendPacket string string string token_packet_data
  | BurnVoucher string string token_packet_data
  | CreateEscrowShard string string token_packet_data "string list"
  | ChannelValue channel_datum

record burn_tx =
  b_hostStateUtxo :: utxo
  b_channelUTxO :: utxo
  b_connectionUTxO :: utxo
  b_clientUTxO :: utxo
  b_senderVoucherTokenUtxo :: utxo
  b_walletUtxos :: "utxo list"
  b_encodedHostStateRedeemer :: string
  b_encodedUpdatedHostStateDatum :: string
  b_encodedMintVoucherRedeemer :: string
  b_encodedSpendTransferModuleRedeemer :: string
  b_transferModuleReferenceUtxo :: utxo
  b_encodedSpendChannelRedeemer :: string
  b_encodedUpdatedChannelDatum :: string
  b_transferAmount :: int
  b_senderAddress :: string
  b_receiverAddress :: string
  b_constructedAddress :: string
  b_channelTokenUnit :: string
  b_voucherTokenUnit :: string
  b_denomToken :: string
  b_sendPacketPolicyId :: string
  b_channelToken :: auth_token

record escrow_tx =
  e_hostStateUtxo :: utxo
  e_channelUTxO :: utxo
  e_connectionUTxO :: utxo
  e_clientUTxO :: utxo
  e_transferModuleReferenceUtxo :: utxo
  e_encodedHostStateRedeemer :: string
  e_encodedUpdatedHostStateDatum :: string
  e_encodedSpendChannelRedeemer :: string
  e_encodedSpendTransferModuleRedeemer :: string
  e_encodedMintTransferEscrowShardRedeemer :: "string option"
  e_encodedUpdatedChannelDatum :: string
  e_transferAmount :: int
  e_senderAddress :: string
  e_receiverAddress :: string
  e_walletUtxos :: "utxo list"
  e_constructedAddress :: string
  e_spendChannelAddress :: string
  e_channelTokenUnit :: string
  e_transferModuleAddress :: string
  e_denomToken :: string
  e_transferEscrowUtxo :: "utxo option"
  e_encodedUpdatedTransferModuleDatum :: "string option"
  e_encodedTransferEscrowDatum :: string
  e_transferEscrowShardTokenUnit :: string
  e_sendPacketPolicyId :: string
  e_channelToken :: auth_token

record ('c, 't) send_deps =
  loadContext :: "send_packet_operator \<Rightarrow> send_context result"
  buildHostStateUpdate :: "channel_datum \<Rightarrow> channel_datum \<Rightarrow> string \<Rightarrow> 'c host_state_update result"
  resolveIbcDenomHash :: "string \<Rightarrow> denom_trace option result"
  dep_commitPacket :: "packet \<Rightarrow> string result"
  dep_encode :: "encodable \<Rightarrow> string result"
  findUtxoAtWithUnit :: "string \<Rightarrow> string \<Rightarrow> utxo result"
  tryFindUtxosAt :: "string \<Rightarrow> utxo list result"
  findTransferEscrowShard :: "string \<Rightarrow> string \<Rightarrow> string \<Rightarrow> escrow_shard result"
  createUnsignedSendPacketBurnTx :: "burn_tx \<Rightarrow> 't"
  createUnsignedSendPacketEscrowTx :: "escrow_tx \<Rightarrow> 't"
  invalidArgument :: "string \<Rightarrow> error"
  failedPrecondition :: "(string \<Rightarrow> error) option"
  internalError :: "string \<Rightarrow> error"

record ('c, 't) send_result =
  unsignedTx :: 't
  expectedNewRoot :: string
  res_commit :: 'c
  wallet_address :: string
  wallet_utxos :: "utxo list"


subsection \<open>Denominations\<close>

definition normalizeDenomTokenTransfer :: "(string \<Rightarrow> error) \<Rightarrow> string \<Rightarrow> string result" where
  "normalizeDenomTokenTransfer bad denom =
     (let normalizedDenom = js_trim denom in
      if normalizedDenom = [] then Inl (bad (''Invalid argument: '' @ quoted ''token.denom'' @ '' is required''))
      else Inr normalizedDenom)"

datatype denom_direction = AssetToPacket | PacketToAsset

definition mapLovelaceDenom :: "string \<Rightarrow> denom_direction \<Rightarrow> string" where
  "mapLovelaceDenom denom direction =
     (let normalizedDenom = js_trim denom; lowerDenom = to_lower normalizedDenom;
          lovelacePacketDenom = to_hex (utf8 LOVELACE)
      in case direction of
           AssetToPacket \<Rightarrow> if lowerDenom = LOVELACE then lovelacePacketDenom else normalizedDenom
         | PacketToAsset \<Rightarrow> if lowerDenom = lovelacePacketDenom \<or> lowerDenom = LOVELACE then LOVELACE else normalizedDenom)"

definition getDenomPrefix :: "string \<Rightarrow> string \<Rightarrow> string" where
  "getDenomPrefix portId channelId = portId @ ''/'' @ channelId @ ''/''"

definition hasVoucherPrefix :: "string \<Rightarrow> string \<Rightarrow> string \<Rightarrow> bool" where
  "hasVoucherPrefix denom portId channelId = prefix (getDenomPrefix portId channelId) denom"

definition isCardanoTokenUnitDenom :: "string \<Rightarrow> bool" where
  "isCardanoTokenUnitDenom denom = (list_all is_hex denom \<and> 56 \<le> length denom \<and> length denom \<le> 120)"

definition isHexDenom :: "string \<Rightarrow> bool" where
  "isHexDenom denom = (length denom mod 2 = 0 \<and> denom \<noteq> [] \<and> list_all is_hex denom)"

definition convertStringToHex :: "string \<Rightarrow> string" where
  "convertStringToHex s = (if s = [] then [] else to_hex (utf8 s))"

definition tb_insertSortMapWithNumberKey :: "(nat, 'v) jsmap \<Rightarrow> nat \<Rightarrow> 'v \<Rightarrow> (nat, 'v) jsmap" where
  "tb_insertSortMapWithNumberKey inputMap newKey newValue =
     js_map_of (sort_key (\<lambda>(k, v). js_Number k) (AList.update newKey newValue inputMap))"

definition buildVoucherTokenName :: "hash_fun \<Rightarrow> (string \<Rightarrow> error) \<Rightarrow> string \<Rightarrow> string result" where
  "buildVoucherTokenName blake2b_224 bad denom =
     bindE (throwIf (prefix ''ibc/'' denom)
       (bad (''IBC hash denom '' @ denom @ '' must be reverse-resolved before voucher token-name hashing''))) (\<lambda>_.
     bindE (throwIf (isHexDenom denom)
       (bad ''Voucher denom appears to be already hex-encoded; refusing to hash a double-encoded denom'')) (\<lambda>_.
     Inr (CIP67_FT_LABEL_HEX @ to_hex (blake2b_224 (utf8 denom)))))"

definition resolvePacketDenomForSend :: "(string \<Rightarrow> denom_trace option result) \<Rightarrow> (string \<Rightarrow> error) \<Rightarrow> string \<Rightarrow> string result" where
  "resolvePacketDenomForSend resolve bad denom =
     (if \<not> prefix ''ibc/'' denom then Inr denom
      else let denomHash = to_lower (drop 4 denom) in
        bindE (resolve denomHash) (\<lambda>m. case m of
            None \<Rightarrow> Inl (bad (''IBC denom '' @ denom @ '' not found in denom traces; cannot derive voucher token name''))
          | Some t \<Rightarrow> Inr (if path t \<noteq> [] then path t @ ''/'' @ baseDenom t else baseDenom t)))"

definition normalizePacketDenom :: "(string \<Rightarrow> error) \<Rightarrow> string \<Rightarrow> string \<Rightarrow> string \<Rightarrow> string result" where
  "normalizePacketDenom bad denom portId channelId =
     bindE (normalizeDenomTokenTransfer bad denom) (\<lambda>d.
     let normalizedDenom = js_trim d; packetMappedDenom = mapLovelaceDenom normalizedDenom AssetToPacket in
     if packetMappedDenom \<noteq> normalizedDenom then Inr packetMappedDenom
     else if hasVoucherPrefix normalizedDenom portId channelId then Inr normalizedDenom
     else if prefix ''ibc/'' normalizedDenom
       then Inl (bad (''IBC hash denom '' @ normalizedDenom @ '' must be reverse-resolved to a full denom trace before packet normalization''))
     else if isCardanoTokenUnitDenom normalizedDenom then Inr normalizedDenom
     else if isHexDenom normalizedDenom
       then Inl (bad ''Denom appears to be already hex-encoded; refusing to hex-encode twice'')
     else Inr (convertStringToHex normalizedDenom))"


subsection \<open>Wallet assets\<close>

definition add_asset :: "string \<times> int \<Rightarrow> (string, int) jsmap \<Rightarrow> (string, int) jsmap" where
  "add_asset e m = (case e of (assetUnit, amount) \<Rightarrow>
     AList.update assetUnit ((case map_of m assetUnit of Some n \<Rightarrow> n | None \<Rightarrow> 0) + amount) m)"

definition sumAssetsFromUtxos :: "utxo list \<Rightarrow> (string, int) jsmap" where
  "sumAssetsFromUtxos utxos = fold (\<lambda>u. fold add_asset (assets u)) utxos []"

definition tryResolveAssetUnitFromAssets :: "(string, int) jsmap \<Rightarrow> string \<Rightarrow> string option" where
  "tryResolveAssetUnitFromAssets assetMap requestedDenomToken =
     (let normalized = js_trim requestedDenomToken in
      if normalized = [] then None
      else if js_has assetMap normalized then Some normalized
      else let normalizedLower = to_lower normalized in
        find (\<lambda>unit. to_lower unit = normalizedLower) (map fst assetMap))"

definition resolveEscrowDenomToken :: "(string \<Rightarrow> error) \<Rightarrow> string \<Rightarrow> string \<Rightarrow> utxo list \<Rightarrow> string result" where
  "resolveEscrowDenomToken bad inputDenom resolvedDenom senderWalletUtxos =
     (let senderAssets = sumAssetsFromUtxos senderWalletUtxos in
      case tryResolveAssetUnitFromAssets senderAssets inputDenom of
        Some u \<Rightarrow> Inr u
      | None \<Rightarrow> (case tryResolveAssetUnitFromAssets senderAssets resolvedDenom of
          Some u \<Rightarrow> Inr u
        | None \<Rightarrow> Inl (bad (''Escrow asset unit not found in sender wallet UTxOs for denom '' @ inputDenom @
            '' (resolved as '' @ resolvedDenom @ '')''))))"

definition utxo_key :: "utxo \<Rightarrow> string" where
  "utxo_key u = txHash u @ ''#'' @ dec_string (outputIndex u)"

definition dedupe_step :: "utxo \<Rightarrow> (string, utxo) jsmap \<times> string list \<Rightarrow> (string, utxo) jsmap \<times> string list" where
  "dedupe_step u st = (case st of (m, order) \<Rightarrow>
     let key = utxo_key u in
     (AList.update key u m, if js_has m key then order else order @ [key]))"

definition dedupeUtxos :: "utxo list \<Rightarrow> utxo list" where
  "dedupeUtxos utxos =
     (let (m, order) = fold dedupe_step utxos ([], []) in map (\<lambda>key. the (map_of m key)) order)"


subsection \<open>Building the transaction\<close>

definition retained_entries :: "channel_datum \<Rightarrow> nat" where
  "retained_entries d =
     length (packet_commitment (state d)) + length (packet_receipt (state d)) + length (packet_acknowledgement (state d))"

definition capacity_error :: "('c, 't) send_deps \<Rightarrow> send_packet_operator \<Rightarrow> error" where
  "capacity_error deps op =
     (case failedPrecondition deps of Some f \<Rightarrow> f | None \<Rightarrow> invalidArgument deps)
       (''Channel '' @ sourceChannel op @ '' retained packet state capacity of '' @
        dec_string MAX_PACKET_ENTRIES_PER_CHANNEL @ '' is exhausted'')"

definition memo_text :: "send_packet_operator \<Rightarrow> string" where
  "memo_text op = (case memo op of Some m \<Rightarrow> m | None \<Rightarrow> [])"

definition send_packet_of :: "send_packet_operator \<Rightarrow> channel_datum \<Rightarrow> string \<Rightarrow> packet" where
  "send_packet_of op d packetDenom =
     \<lparr>sequence = next_sequence_send (state d), source_port = convertStringToHex (sourcePort op),
      source_channel = convertStringToHex (sourceChannel op), destination_port = port_id (counterparty (chan d)),
      destination_channel = channel_id (counterparty (chan d)),
      data = convertStringToHex (stringifyIcs20PacketData
        \<lparr>ics_denom = Some packetDenom, ics_amount = Some (int_string (token_amount op)), ics_sender = Some (sender op),
         ics_receiver = Some (receiver op), ics_memo = memo op\<rparr>),
      timeout_height = timeoutHeight op, timeout_timestamp = timeoutTimestamp op\<rparr>"

definition token_data_of :: "send_packet_operator \<Rightarrow> string \<Rightarrow> token_packet_data" where
  "token_data_of op packetDenom =
     \<lparr>ft_denom = convertStringToHex packetDenom, ft_amount = convertStringToHex (int_string (token_amount op)),
      ft_sender = convertStringToHex (sender op), ft_receiver = convertStringToHex (receiver op),
      ft_memo = convertStringToHex (memo_text op)\<rparr>"

definition tb_updated_datum :: "nat \<Rightarrow> string \<Rightarrow> channel_datum \<Rightarrow> channel_datum" where
  "tb_updated_datum seq packetCommitment d =
     d\<lparr>state := (state d)\<lparr>next_sequence_send := next_sequence_send (state d) + 1,
        packet_commitment := tb_insertSortMapWithNumberKey (packet_commitment (state d)) seq packetCommitment\<rparr>\<rparr>"

text \<open>The voucher branch: the tokens go back where they came from, so the voucher is burnt.\<close>

definition build_burn :: "hash_fun \<Rightarrow> ('c, 't) send_deps \<Rightarrow> send_packet_operator \<Rightarrow> send_context \<Rightarrow> string \<Rightarrow> string \<Rightarrow>
    packet \<Rightarrow> token_packet_data \<Rightarrow> string \<Rightarrow> string \<Rightarrow> channel_datum \<Rightarrow> 'c host_state_update \<Rightarrow> ('c, 't) send_result result" where
  "build_burn blake2b_224 deps op ctx inputDenom resolvedDenom p ftData spendChannelRedeemer spendModuleRedeemer updatedDatum hsu =
     bindE (dep_encode deps (BurnVoucher (source_port p) (source_channel p) ftData)) (\<lambda>encodedMintVoucherRedeemer.
     bindE (buildVoucherTokenName blake2b_224 (invalidArgument deps) resolvedDenom) (\<lambda>tokenName.
     let voucherTokenUnit = mintVoucherScriptHash (ctx_deployment ctx) @ tokenName in
     bindE (findUtxoAtWithUnit deps (signer op) voucherTokenUnit) (\<lambda>senderVoucherTokenUtxo.
     bindE (tryFindUtxosAt deps (signer op)) (\<lambda>senderWalletUtxos.
     let walletUtxos = dedupeUtxos (senderWalletUtxos @ [senderVoucherTokenUtxo]) in
     bindE (dep_encode deps (ChannelValue updatedDatum)) (\<lambda>encodedUpdatedChannelDatum.
     Inr \<lparr>unsignedTx = createUnsignedSendPacketBurnTx deps
            \<lparr>b_hostStateUtxo = hostStateUtxo hsu, b_channelUTxO = channelUtxo ctx, b_connectionUTxO = connectionUtxo ctx,
             b_clientUTxO = clientUtxo ctx, b_senderVoucherTokenUtxo = senderVoucherTokenUtxo, b_walletUtxos = walletUtxos,
             b_encodedHostStateRedeemer = encodedHostStateRedeemer hsu,
             b_encodedUpdatedHostStateDatum = encodedUpdatedHostStateDatum hsu,
             b_encodedMintVoucherRedeemer = encodedMintVoucherRedeemer,
             b_encodedSpendTransferModuleRedeemer = spendModuleRedeemer,
             b_transferModuleReferenceUtxo = transferModuleReferenceUtxo ctx,
             b_encodedSpendChannelRedeemer = spendChannelRedeemer,
             b_encodedUpdatedChannelDatum = encodedUpdatedChannelDatum,
             b_transferAmount = token_amount op, b_senderAddress = sender op, b_receiverAddress = receiver op,
             b_constructedAddress = signer op, b_channelTokenUnit = channelTokenUnit ctx,
             b_voucherTokenUnit = voucherTokenUnit, b_denomToken = inputDenom,
             b_sendPacketPolicyId = sendPacketPolicyId (ctx_deployment ctx), b_channelToken = channelToken ctx\<rparr>,
          expectedNewRoot = newRoot hsu, res_commit = hsu_commit hsu, wallet_address = signer op, wallet_utxos = walletUtxos\<rparr>)))))"

text \<open>The escrow branch: a token of this chain is locked in the shard of its channel and denomination.\<close>

definition build_escrow :: "('c, 't) send_deps \<Rightarrow> send_packet_operator \<Rightarrow> send_context \<Rightarrow> string \<Rightarrow> string \<Rightarrow> string \<Rightarrow>
    token_packet_data \<Rightarrow> string \<Rightarrow> string \<Rightarrow> channel_datum \<Rightarrow> 'c host_state_update \<Rightarrow> ('c, 't) send_result result" where
  "build_escrow deps op ctx inputDenom resolvedDenom packetDenom ftData spendChannelRedeemer spendModuleRedeemer updatedDatum hsu =
     bindE (tryFindUtxosAt deps (signer op)) (\<lambda>senderWalletUtxos.
     bindE (throwIf (senderWalletUtxos = []) (internalError deps (''No spendable UTxOs found for signer '' @ signer op))) (\<lambda>_.
     let walletUtxos = dedupeUtxos senderWalletUtxos in
     bindE (resolveEscrowDenomToken (invalidArgument deps) inputDenom resolvedDenom walletUtxos) (\<lambda>denomToken.
     bindE (findTransferEscrowShard deps (convertStringToHex (sourceChannel op)) (convertStringToHex packetDenom) denomToken) (\<lambda>shard.
     bindE (case shard of
         ExistingShard _ _ _ _ \<Rightarrow> Inr None
       | MissingShard _ _ _ siblings _ \<Rightarrow>
           bindE (dep_encode deps (CreateEscrowShard (convertStringToHex (sourceChannel op)) (convertStringToHex packetDenom) ftData siblings))
             (\<lambda>r. Inr (Some r))) (\<lambda>mintRedeemer.
     bindE (dep_encode deps (ChannelValue updatedDatum)) (\<lambda>encodedUpdatedChannelDatum.
     Inr \<lparr>unsignedTx = createUnsignedSendPacketEscrowTx deps
            \<lparr>e_hostStateUtxo = hostStateUtxo hsu, e_channelUTxO = channelUtxo ctx, e_connectionUTxO = connectionUtxo ctx,
             e_clientUTxO = clientUtxo ctx, e_transferModuleReferenceUtxo = shard_module shard,
             e_encodedHostStateRedeemer = encodedHostStateRedeemer hsu,
             e_encodedUpdatedHostStateDatum = encodedUpdatedHostStateDatum hsu,
             e_encodedSpendChannelRedeemer = spendChannelRedeemer, e_encodedSpendTransferModuleRedeemer = spendModuleRedeemer,
             e_encodedMintTransferEscrowShardRedeemer = mintRedeemer,
             e_encodedUpdatedChannelDatum = encodedUpdatedChannelDatum,
             e_transferAmount = token_amount op, e_senderAddress = sender op, e_receiverAddress = receiver op,
             e_walletUtxos = walletUtxos, e_constructedAddress = signer op,
             e_spendChannelAddress = spendChannelAddress (ctx_deployment ctx), e_channelTokenUnit = channelTokenUnit ctx,
             e_transferModuleAddress = transferModuleAddress (ctx_deployment ctx), e_denomToken = denomToken,
             e_transferEscrowUtxo = (case shard of ExistingShard _ u _ _ \<Rightarrow> Some u | _ \<Rightarrow> None),
             e_encodedUpdatedTransferModuleDatum = (case shard of MissingShard _ _ _ _ m \<Rightarrow> Some m | _ \<Rightarrow> None),
             e_encodedTransferEscrowDatum = shard_datum shard, e_transferEscrowShardTokenUnit = shard_unit shard,
             e_sendPacketPolicyId = sendPacketPolicyId (ctx_deployment ctx), e_channelToken = channelToken ctx\<rparr>,
          expectedNewRoot = newRoot hsu, res_commit = hsu_commit hsu, wallet_address = signer op, wallet_utxos = walletUtxos\<rparr>))))))"

definition buildUnsignedSendPacketTx :: "hash_fun \<Rightarrow> ('c, 't) send_deps \<Rightarrow> send_packet_operator \<Rightarrow> ('c, 't) send_result result" where
  "buildUnsignedSendPacketTx blake2b_224 deps op =
     bindE (loadContext deps op) (\<lambda>ctx.
     let d = channelDatum ctx in
     bindE (throwIf (retained_entries d \<ge> MAX_PACKET_ENTRIES_PER_CHANNEL) (capacity_error deps op)) (\<lambda>_.
     bindE (normalizeDenomTokenTransfer (invalidArgument deps) (token_denom op)) (\<lambda>inputDenom.
     bindE (resolvePacketDenomForSend (resolveIbcDenomHash deps) (invalidArgument deps) inputDenom) (\<lambda>resolvedDenom.
     bindE (normalizePacketDenom (invalidArgument deps) resolvedDenom (sourcePort op) (sourceChannel op)) (\<lambda>packetDenom.
     let isVoucher = hasVoucherPrefix resolvedDenom (sourcePort op) (sourceChannel op);
         p = send_packet_of op d packetDenom;
         ftData = token_data_of op packetDenom
     in
     bindE (dep_commitPacket deps p) (\<lambda>packetCommitment.
     bindE (dep_encode deps (SpendChannelSendPacket p)) (\<lambda>spendChannelRedeemer.
     bindE (dep_encode deps (TransferOnSendPacket (convertStringToHex (sourceChannel op)) (data p) packetCommitment ftData)) (\<lambda>spendModuleRedeemer.
     let updatedDatum = tb_updated_datum (sequence p) packetCommitment d in
     bindE (buildHostStateUpdate deps d updatedDatum (sourceChannel op)) (\<lambda>hsu.
     if isVoucher
     then build_burn blake2b_224 deps op ctx inputDenom resolvedDenom p ftData spendChannelRedeemer spendModuleRedeemer updatedDatum hsu
     else build_escrow deps op ctx inputDenom resolvedDenom packetDenom ftData spendChannelRedeemer spendModuleRedeemer updatedDatum hsu)))))))))"


section \<open>Properties\<close>

lemma tb_insert_eq: "tb_insertSortMapWithNumberKey m k v = insertSortMapWithNumberKey m k v False"
  by (simp add: tb_insertSortMapWithNumberKey_def insertSortMapWithNumberKey_def sortByNumberKey_def stable_sort_by_def)

lemma retained_entries_eq: "retained_entries d = packet_entry_count (state d)"
  by (simp add: retained_entries_def packet_entry_count_def)

lemma send_datum_is_channel_step:
  assumes "channel_inv d" "sequences_safe d" "ch_state (chan d) = Open" "next_sequence_send (state d) < 2 ^ 53"
    "retained_entries d < MAX_PACKET_ENTRIES_PER_CHANNEL"
  shows "channel_step committed d (SendPacket (next_sequence_send (state d)) c)
    (tb_updated_datum (next_sequence_send (state d)) c d)"
proof (rule channel_step.send)
  have "tb_insertSortMapWithNumberKey (packet_commitment (state d)) (next_sequence_send (state d)) c =
      insert_by_ascending_key (packet_commitment (state d)) (next_sequence_send (state d)) c"
    unfolding tb_insert_eq
    using assms(2,4) channel_inv_maps(1) [OF assms(1)] by (intro insert_sort_is_ascending_insert) (simp_all add: sequences_safe_def)
  then show "validate_send_packet d (tb_updated_datum (next_sequence_send (state d)) c d) (next_sequence_send (state d)) c"
    using assms(5) by (simp add: validate_send_packet_def tb_updated_datum_def retained_entries_eq max_entries_eq)
qed (use assms in simp_all)

lemma build_roots:
  assumes "build_burn blake deps op ctx i r p ft sc sm u hsu = Inr res \<or>
    build_escrow deps op ctx i r pd ft sc sm u hsu = Inr res"
  shows "expectedNewRoot res = newRoot hsu \<and> res_commit res = hsu_commit hsu"
  using assms by (auto simp: build_burn_def build_escrow_def bindE_Inr_iff Let_def)

text \<open>The steps a successful build has gone through.\<close>

lemma build_Inr:
  assumes "buildUnsignedSendPacketTx blake deps op = Inr res"
  obtains ctx pd c hsu where "loadContext deps op = Inr ctx"
    "retained_entries (channelDatum ctx) < MAX_PACKET_ENTRIES_PER_CHANNEL"
    "dep_commitPacket deps (send_packet_of op (channelDatum ctx) pd) = Inr c"
    "buildHostStateUpdate deps (channelDatum ctx)
       (tb_updated_datum (next_sequence_send (state (channelDatum ctx))) c (channelDatum ctx)) (sourceChannel op) = Inr hsu"
    "expectedNewRoot res = newRoot hsu" "res_commit res = hsu_commit hsu"
proof -
  have seq: "sequence (send_packet_of op d pd) = next_sequence_send (state d)" for d pd
    by (simp add: send_packet_of_def)
  note b = assms [unfolded buildUnsignedSendPacketTx_def Let_def]
  from b obtain ctx where c1: "loadContext deps op = Inr ctx" by (auto simp: bindE_Inr_iff)
  note b = b [unfolded c1 bindE_simps]
  from b have c2: "retained_entries (channelDatum ctx) < MAX_PACKET_ENTRIES_PER_CHANNEL"
    by (simp add: bindE_Inr_iff not_le [symmetric])
  from b obtain i r pd c sc sm hsu where
    "dep_commitPacket deps (send_packet_of op (channelDatum ctx) pd) = Inr c"
    "buildHostStateUpdate deps (channelDatum ctx)
       (tb_updated_datum (next_sequence_send (state (channelDatum ctx))) c (channelDatum ctx)) (sourceChannel op) = Inr hsu"
    "(if hasVoucherPrefix r (sourcePort op) (sourceChannel op)
      then build_burn blake deps op ctx i r (send_packet_of op (channelDatum ctx) pd) (token_data_of op pd) sc sm
        (tb_updated_datum (next_sequence_send (state (channelDatum ctx))) c (channelDatum ctx)) hsu
      else build_escrow deps op ctx i r pd (token_data_of op pd) sc sm
        (tb_updated_datum (next_sequence_send (state (channelDatum ctx))) c (channelDatum ctx)) hsu) = Inr res"
    unfolding bindE_Inr_iff seq by blast
  with c1 c2 build_roots show ?thesis by (metis that)
qed

text \<open>
  C26. Sending, at the level of the channel datum: whenever the builder returns a transaction for a valid, open channel with
  sequences below \<open>2 ^ 53\<close>, the datum it
  commits to is a step of the channel (the packet takes the next send sequence and its commitment
  is inserted in order), and the root it announces is the root computed for exactly that change
  of datum.
\<close>

theorem send_tx_is_channel_step:
  assumes "buildUnsignedSendPacketTx blake deps op = Inr res" and "loadContext deps op = Inr ctx"
    and "channel_inv (channelDatum ctx)" and "sequences_safe (channelDatum ctx)"
    and "ch_state (chan (channelDatum ctx)) = Open" and "next_sequence_send (state (channelDatum ctx)) < 2 ^ 53"
  shows "\<exists>pd c d' hsu. dep_commitPacket deps (send_packet_of op (channelDatum ctx) pd) = Inr c \<and>
    channel_step committed (channelDatum ctx) (SendPacket (next_sequence_send (state (channelDatum ctx))) c) d' \<and>
    buildHostStateUpdate deps (channelDatum ctx) d' (sourceChannel op) = Inr hsu \<and>
    expectedNewRoot res = newRoot hsu \<and> res_commit res = hsu_commit hsu"
proof -
  obtain ctx' pd c hsu where b: "loadContext deps op = Inr ctx'"
    "retained_entries (channelDatum ctx') < MAX_PACKET_ENTRIES_PER_CHANNEL"
    "dep_commitPacket deps (send_packet_of op (channelDatum ctx') pd) = Inr c"
    "buildHostStateUpdate deps (channelDatum ctx')
       (tb_updated_datum (next_sequence_send (state (channelDatum ctx'))) c (channelDatum ctx')) (sourceChannel op) = Inr hsu"
    "expectedNewRoot res = newRoot hsu" "res_commit res = hsu_commit hsu"
    by (rule build_Inr [OF assms(1)])
  have "ctx' = ctx" using b(1) assms(2) by simp
  with b send_datum_is_channel_step [OF assms(3-6)] show ?thesis by blast
qed

lemma js_trim_no_space: "list_all no_space s \<Longrightarrow> js_trim s = s"
  by (rule js_trim_id) (auto simp: list_all_iff)

lemma trim_lovelace: "js_trim LOVELACE = LOVELACE"
  by (rule js_trim_no_space) code_simp

text \<open>Concrete dependencies: a wallet that holds ada, on the example channel.\<close>

definition example_utxo :: utxo where
  "example_utxo = \<lparr>txHash = ''ab'', outputIndex = 1, assets = [(''lovelace'', 5)], inline_datum = None\<rparr>"

definition example_context :: send_context where
  "example_context = \<lparr>channelUtxo = example_utxo, channelDatum = open_datum, connectionUtxo = example_utxo,
     clientUtxo = example_utxo, transferModuleReferenceUtxo = example_utxo, channelTokenUnit = ''c1'',
     channelToken = \<lparr>policyId = ''aa'', name = ''bb''\<rparr>,
     ctx_deployment = \<lparr>sendPacketPolicyId = ''01'', mintVoucherScriptHash = ''02'',
       transferEscrowShardPolicyId = ''05'', spendChannelAddress = ''03'', transferModuleAddress = ''04''\<rparr>\<rparr>"

definition example_deps :: "(unit, unit) send_deps" where
  "example_deps = \<lparr>loadContext = \<lambda>_. Inr example_context,
     buildHostStateUpdate = \<lambda>_ _ _. Inr \<lparr>hostStateUtxo = example_utxo, encodedHostStateRedeemer = ''r'',
       encodedUpdatedHostStateDatum = ''d'', newRoot = ''ee'', hsu_commit = ()\<rparr>,
     resolveIbcDenomHash = \<lambda>_. Inr None, dep_commitPacket = commitPacket sum_hash, dep_encode = \<lambda>_. Inr ''00'',
     findUtxoAtWithUnit = \<lambda>_ _. Inr example_utxo, tryFindUtxosAt = \<lambda>_. Inr [example_utxo],
     findTransferEscrowShard = \<lambda>_ _ _. Inr (ExistingShard example_utxo example_utxo ''sd'' ''su''),
     createUnsignedSendPacketBurnTx = \<lambda>_. (), createUnsignedSendPacketEscrowTx = \<lambda>_. (),
     invalidArgument = GrpcInvalidArgument, failedPrecondition = Some GrpcFailedPrecondition, internalError = GrpcInternal\<rparr>"

definition example_send :: send_packet_operator where
  "example_send = \<lparr>sourcePort = ''transfer'', sourceChannel = ''channel-0'', token_denom = ''lovelace'', token_amount = 3,
     sender = ''addr1'', receiver = ''cosmos1'', signer = ''addr1'', timeoutHeight = zero_height, timeoutTimestamp = 9,
     memo = None\<rparr>"

lemma example_send_context: "loadContext example_deps example_send = Inr example_context"
  "channelDatum example_context = open_datum"
  by (simp_all add: example_deps_def example_context_def)

lemma example_commit_ok: "\<exists>c. commitPacket sum_hash (send_packet_of op d pd) = Inr c"
proof -
  have "convertStringToHex s = to_hex (utf8 s)" for s by (simp add: convertStringToHex_def utf8_def)
  then have "data (send_packet_of op d pd) = to_hex (utf8 (stringifyIcs20PacketData
      \<lparr>ics_denom = Some pd, ics_amount = Some (int_string (token_amount op)), ics_sender = Some (sender op),
       ics_receiver = Some (receiver op), ics_memo = memo op\<rparr>))"
    by (simp add: send_packet_of_def)
  then show ?thesis using commitPacket_eq [of "send_packet_of op d pd" sum_hash] is_hex_to_hex by simp
qed

lemma example_send_ok: "\<exists>res. buildUnsignedSendPacketTx sum_hash example_deps example_send = Inr res"
proof -
  let ?pd = "''6c6f76656c616365''"
  have ne: "LOVELACE \<noteq> []" "to_lower LOVELACE = LOVELACE" "to_hex (utf8 LOVELACE) = ?pd" "?pd \<noteq> LOVELACE"
    "js_has (sumAssetsFromUtxos (dedupeUtxos [example_utxo])) LOVELACE"
    by code_simp+
  have n: "normalizeDenomTokenTransfer GrpcInvalidArgument (token_denom example_send) = Inr LOVELACE"
    "resolvePacketDenomForSend (\<lambda>_. Inr None) GrpcInvalidArgument LOVELACE = Inr LOVELACE"
    "normalizePacketDenom GrpcInvalidArgument LOVELACE (sourcePort example_send) (sourceChannel example_send) = Inr ?pd"
    "resolveEscrowDenomToken GrpcInvalidArgument LOVELACE LOVELACE (dedupeUtxos [example_utxo]) = Inr LOVELACE"
    using ne trim_lovelace
    by (simp_all add: normalizeDenomTokenTransfer_def example_send_def LOVELACE_def [symmetric] normalizePacketDenom_def
        mapLovelaceDenom_def resolveEscrowDenomToken_def tryResolveAssetUnitFromAssets_def)
      (simp add: resolvePacketDenomForSend_def LOVELACE_def)
  have m: "hasVoucherPrefix LOVELACE (sourcePort example_send) (sourceChannel example_send) = False"
    "(retained_entries open_datum \<ge> MAX_PACKET_ENTRIES_PER_CHANNEL) = False"
    by code_simp+
  have deps: "invalidArgument example_deps = GrpcInvalidArgument" "resolveIbcDenomHash example_deps = (\<lambda>_. Inr None)"
    "dep_commitPacket example_deps = commitPacket sum_hash" "dep_encode example_deps = (\<lambda>_. Inr ''00'')"
    "tryFindUtxosAt example_deps = (\<lambda>_. Inr [example_utxo])"
    "findTransferEscrowShard example_deps = (\<lambda>_ _ _. Inr (ExistingShard example_utxo example_utxo ''sd'' ''su''))"
    "buildHostStateUpdate example_deps = (\<lambda>_ _ _. Inr \<lparr>hostStateUtxo = example_utxo, encodedHostStateRedeemer = ''r'',
       encodedUpdatedHostStateDatum = ''d'', newRoot = ''ee'', hsu_commit = ()\<rparr>)"
    by (simp_all add: example_deps_def)
  obtain c where "commitPacket sum_hash (send_packet_of example_send open_datum ?pd) = Inr c"
    using example_commit_ok by blast
  then show ?thesis
    by (simp only: buildUnsignedSendPacketTx_def example_send_context Let_def n m deps bindE_simps throwIf_eval simp_thms
        if_False build_escrow_def list.distinct escrow_shard.case) blast
qed

lemma open_datum_facts: "ch_state (chan open_datum) = Open" "next_sequence_send (state open_datum) = 1"
  by code_simp+

theorem send_tx_is_channel_step_witness:
  "\<exists>c d'. channel_step below_7 open_datum (SendPacket 1 c) d'"
proof -
  obtain res where "buildUnsignedSendPacketTx sum_hash example_deps example_send = Inr res" using example_send_ok by blast
  from send_tx_is_channel_step [OF this example_send_context(1), of below_7] example_invs(1,3) open_datum_facts
  show ?thesis unfolding example_send_context(2) by simp blast
qed

text \<open>
  C27. A channel that retains 64 packet entries is refused before anything else is looked at, with
  the precondition error where the caller supplies one; and no transaction is built that would leave a valid open channel
  with sequences below \<open>2 ^ 53\<close> with more than 64 entries.
\<close>

theorem send_respects_capacity:
  "(loadContext deps op = Inr ctx \<longrightarrow> retained_entries (channelDatum ctx) \<ge> 64 \<longrightarrow>
     buildUnsignedSendPacketTx blake deps op = Inl (capacity_error deps op)) \<and>
   (loadContext deps op = Inr ctx \<longrightarrow> (\<exists>res. buildUnsignedSendPacketTx blake deps op = Inr res) \<longrightarrow>
     channel_inv (channelDatum ctx) \<longrightarrow> sequences_safe (channelDatum ctx) \<longrightarrow>
     ch_state (chan (channelDatum ctx)) = Open \<longrightarrow> next_sequence_send (state (channelDatum ctx)) < 2 ^ 53 \<longrightarrow>
     retained_entries (tb_updated_datum (next_sequence_send (state (channelDatum ctx))) c (channelDatum ctx)) \<le> 64)"
proof (intro conjI impI)
  assume "loadContext deps op = Inr ctx" "retained_entries (channelDatum ctx) \<ge> 64"
  then show "buildUnsignedSendPacketTx blake deps op = Inl (capacity_error deps op)"
    by (simp add: buildUnsignedSendPacketTx_def MAX_PACKET_ENTRIES_PER_CHANNEL_def)
next
  assume h: "loadContext deps op = Inr ctx" "channel_inv (channelDatum ctx)" "sequences_safe (channelDatum ctx)"
    "ch_state (chan (channelDatum ctx)) = Open" "next_sequence_send (state (channelDatum ctx)) < 2 ^ 53"
    and "\<exists>res. buildUnsignedSendPacketTx blake deps op = Inr res"
  then obtain res where "buildUnsignedSendPacketTx blake deps op = Inr res" by blast
  then have "retained_entries (channelDatum ctx) < MAX_PACKET_ENTRIES_PER_CHANNEL"
    by (rule build_Inr) (use h(1) in simp)
  from channel_inv_step [OF send_datum_is_channel_step [OF h(2-5) this] h(2)]
  show "retained_entries (tb_updated_datum (next_sequence_send (state (channelDatum ctx))) c (channelDatum ctx)) \<le> 64"
    by (simp add: channel_inv_def retained_entries_eq max_packet_entries_per_channel_def Let_def)
qed

theorem send_respects_capacity_witness:
  "retained_entries (tb_updated_datum 1 ''c0'' open_datum) \<le> 64"
  using send_respects_capacity [of example_deps example_send example_context sum_hash "''c0''"] example_send_ok
    example_invs(1,3) open_datum_facts example_send_context
  by simp

end
