(* ===== verification/Escrow_Asset.thy ===== *)
theory Escrow_Asset
  imports Tx_Builder
begin

section \<open>Which asset is escrowed\<close>

text \<open>
  The denominations of the transaction builder: a transfer names its token twice, as the asset
  that is locked in the escrow and as the denomination written into the packet. The theory shows
  that the second determines the first.
\<close>

text \<open>Asset units of a wallet: \<open>lovelace\<close>, or policy and name in lower-case hexadecimal.\<close>

definition ledger_unit :: "string \<Rightarrow> bool" where
  "ledger_unit u = (u = LOVELACE \<or> list_all is_lower_hex u \<and> even (length u) \<and> 56 \<le> length u \<and> length u \<le> 120)"

lemma to_lower_char_hex_iff: "is_lower_hex (to_lower_char c) \<Longrightarrow> is_hex c \<and> no_space c"
proof -
  assume h: "is_lower_hex (to_lower_char c)"
  show ?thesis
  proof (cases "65 \<le> (of_char c :: nat) \<and> of_char c \<le> (90 :: nat)")
    case True
    then show ?thesis using h by (auto simp: to_lower_char_def is_lower_hex_def is_hex_def hex_val_def no_space_def Let_def)
  next
    case False
    then have "to_lower_char c = c" by (auto simp: to_lower_char_def Let_def)
    with h show ?thesis by (auto simp: is_lower_hex_def is_hex_def hex_val_def no_space_def Let_def)
  qed
qed

lemma to_lower_hex_text: "list_all is_lower_hex (to_lower s) \<Longrightarrow> list_all is_hex s \<and> list_all no_space s"
  using to_lower_char_hex_iff by (induction s) (auto simp: to_lower_def)

lemma lower_letter: "to_lower_char c = d \<Longrightarrow> 97 \<le> (of_char d :: nat) \<Longrightarrow> of_char d \<le> (122 :: nat) \<Longrightarrow> no_space c"
proof -
  assume d: "to_lower_char c = d" "97 \<le> (of_char d :: nat)" "of_char d \<le> (122 :: nat)"
  show ?thesis
  proof (cases "65 \<le> (of_char c :: nat) \<and> of_char c \<le> (90 :: nat)")
    case True
    then show ?thesis by (auto simp: no_space_def Let_def)
  next
    case False
    then have "to_lower_char c = c" by (auto simp: to_lower_char_def Let_def)
    with d show ?thesis by (auto simp: no_space_def Let_def)
  qed
qed

lemma lower_lovelace: "to_lower s = LOVELACE \<Longrightarrow> list_all no_space s"
proof -
  assume s: "to_lower s = LOVELACE"
  have "list_all (\<lambda>d. 97 \<le> (of_char d :: nat) \<and> of_char d \<le> (122 :: nat)) (to_lower s)"
    unfolding s by code_simp
  then show ?thesis by (induction s) (auto simp: to_lower_def lower_letter)
qed

lemma ledger_unit_lower: "ledger_unit u \<Longrightarrow> to_lower u = u"
proof -
  have "to_lower LOVELACE = LOVELACE" by code_simp
  then show "ledger_unit u \<Longrightarrow> to_lower u = u" by (auto simp: ledger_unit_def to_lower_hex)
qed

lemma try_resolve_unit:
  assumes "tryResolveAssetUnitFromAssets m r = Some u"
  shows "u \<in> fst ` set m" "to_lower u = to_lower (js_trim r)"
  using assms by (auto simp: tryResolveAssetUnitFromAssets_def js_has_def Let_def find_Some_iff split: if_splits)

lemma keys_sumAssets: "fst ` set (sumAssetsFromUtxos us) \<subseteq> (\<Union>u \<in> set us. fst ` set (assets u))"
proof -
  have 1: "fst ` set (fold add_asset es m) \<subseteq> fst ` set es \<union> fst ` set m" for es m
  proof (induction es arbitrary: m)
    case (Cons e es)
    have "fst ` set (add_asset e m) = insert (fst e) (fst ` set m)"
      by (cases e) (simp add: add_asset_def keys_update)
    with Cons [of "add_asset e m"] show ?case by auto
  qed simp
  have "fst ` set (fold (\<lambda>u. fold add_asset (assets u)) us m) \<subseteq> (\<Union>u \<in> set us. fst ` set (assets u)) \<union> fst ` set m" for m
  proof (induction us arbitrary: m)
    case (Cons u us)
    from Cons [of "fold add_asset (assets u) m"] 1 [of "assets u" m] show ?case by auto
  qed simp
  from this [of "[]"] show ?thesis by (simp add: sumAssetsFromUtxos_def)
qed

lemma trimmed_unit:
  assumes "ledger_unit u" "to_lower (js_trim r) = u"
  shows "js_trim (js_trim r) = js_trim r" "js_trim r \<noteq> []"
proof -
  have "list_all no_space (js_trim r)"
    using assms to_lower_hex_text [of "js_trim r"] lower_lovelace [of "js_trim r"] by (auto simp: ledger_unit_def)
  then show "js_trim (js_trim r) = js_trim r" by (rule js_trim_no_space)
  show "js_trim r \<noteq> []" using assms by (auto simp: ledger_unit_def LOVELACE_def to_lower_def)
qed

lemma hex_no_slash: "list_all is_hex s \<Longrightarrow> CHR ''/'' \<notin> set s"
proof -
  have "\<not> is_hex (CHR ''/'')" by code_simp
  then show "list_all is_hex s \<Longrightarrow> CHR ''/'' \<notin> set s" by (auto simp: list_all_iff)
qed

lemma packet_denom_of_unit:
  assumes "ledger_unit u" "to_lower (js_trim r) = u" "normalizePacketDenom bad r portId channelId = Inr pd"
  shows "pd = (if u = LOVELACE then to_hex (utf8 LOVELACE) else js_trim r)"
proof (cases "u = LOVELACE")
  case True
  have "to_hex (utf8 LOVELACE) \<noteq> js_trim r"
  proof
    assume eq: "to_hex (utf8 LOVELACE) = js_trim r"
    have "length (to_lower (js_trim r)) = 16" by (simp only: eq [symmetric] to_lower_length) code_simp
    moreover have "length LOVELACE = 8" by code_simp
    ultimately show False using True assms(2) by simp
  qed
  then show ?thesis using True assms trimmed_unit [OF assms(1,2)]
    by (simp add: normalizePacketDenom_def normalizeDenomTokenTransfer_def mapLovelaceDenom_def)
next
  case False
  then have u: "list_all is_lower_hex u" "56 \<le> length u" "length u \<le> 120" using assms(1) by (auto simp: ledger_unit_def)
  have len: "length (js_trim r) = length u" using assms(2) by auto
  have hex: "list_all is_hex (js_trim r)" using to_lower_hex_text [of "js_trim r"] u(1) assms(2) by simp
  have "\<not> hasVoucherPrefix (js_trim r) portId channelId" "\<not> prefix ''ibc/'' (js_trim r)"
    using hex_no_slash [OF hex] by (auto simp: hasVoucherPrefix_def getDenomPrefix_def prefix_def)
  moreover have "isCardanoTokenUnitDenom (js_trim r)" using hex u len by (simp add: isCardanoTokenUnitDenom_def)
  moreover have "to_lower (js_trim r) \<noteq> LOVELACE" using False assms(2) by simp
  ultimately show ?thesis using False assms(3) trimmed_unit [OF assms(1,2)]
    by (simp add: normalizePacketDenom_def normalizeDenomTokenTransfer_def mapLovelaceDenom_def)
qed

lemma escrow_unit_and_packet_denom:
  assumes "resolvePacketDenomForSend resolve bad inputDenom = Inr resolvedDenom"
    and "normalizePacketDenom bad resolvedDenom portId channelId = Inr packetDenom"
    and "resolveEscrowDenomToken bad inputDenom resolvedDenom wallet = Inr denomToken"
    and "\<forall>u \<in> set wallet. \<forall>a \<in> fst ` set (assets u). ledger_unit a"
    and "js_trim inputDenom = inputDenom"
  shows "ledger_unit denomToken \<and> (if denomToken = LOVELACE then packetDenom = to_hex (utf8 LOVELACE)
    else to_lower packetDenom = denomToken \<and> js_trim packetDenom = packetDenom)"
proof -
  obtain r where r: "tryResolveAssetUnitFromAssets (sumAssetsFromUtxos wallet) r = Some denomToken"
    "r = inputDenom \<or> r = resolvedDenom"
    using assms(3) by (auto simp: resolveEscrowDenomToken_def Let_def split: option.splits)
  have unit: "ledger_unit denomToken"
    using try_resolve_unit(1) [OF r(1)] keys_sumAssets [of wallet] assms(4) by blast
  have which: "denomToken = to_lower (js_trim inputDenom) \<or> denomToken = to_lower (js_trim resolvedDenom)"
    using try_resolve_unit(2) [OF r(1)] r(2) ledger_unit_lower [OF unit] by auto
  have low: "to_lower (js_trim resolvedDenom) = denomToken"
  proof (cases "prefix ''ibc/'' inputDenom")
    case True
    have "to_lower inputDenom \<noteq> denomToken"
    proof
      assume "to_lower inputDenom = denomToken"
      with unit True have "denomToken \<noteq> LOVELACE" by (auto simp: prefix_def to_lower_def to_lower_char_def LOVELACE_def)
      with unit \<open>to_lower inputDenom = denomToken\<close> have "list_all is_hex inputDenom"
        using to_lower_hex_text [of inputDenom] by (auto simp: ledger_unit_def)
      from hex_no_slash [OF this] True show False by (auto simp: prefix_def)
    qed
    with which assms(5) show ?thesis by auto
  next
    case False
    with assms(1) which show ?thesis by (auto simp: resolvePacketDenomForSend_def)
  qed
  show ?thesis
    using unit low packet_denom_of_unit [OF unit low assms(2)] trimmed_unit [OF unit low] by (simp split: if_splits)
qed

lemma lovelace_resolution:
  "resolvePacketDenomForSend (\<lambda>_. Inr None) GrpcInvalidArgument LOVELACE = Inr LOVELACE"
  "normalizePacketDenom GrpcInvalidArgument LOVELACE ''transfer'' ''channel-0'' = Inr (to_hex (utf8 LOVELACE))"
  "resolveEscrowDenomToken GrpcInvalidArgument LOVELACE LOVELACE [example_utxo] = Inr LOVELACE"
  "\<forall>u \<in> set [example_utxo]. \<forall>a \<in> fst ` set (assets u). ledger_unit a"
  "js_trim LOVELACE = LOVELACE"
proof -
  show "resolvePacketDenomForSend (\<lambda>_. Inr None) GrpcInvalidArgument LOVELACE = Inr LOVELACE"
    by (simp add: resolvePacketDenomForSend_def LOVELACE_def)
  have l: "to_lower LOVELACE = LOVELACE" "to_hex (utf8 LOVELACE) \<noteq> LOVELACE" "LOVELACE \<noteq> []"
    "js_has (sumAssetsFromUtxos [example_utxo]) LOVELACE" by code_simp+
  show "normalizePacketDenom GrpcInvalidArgument LOVELACE ''transfer'' ''channel-0'' = Inr (to_hex (utf8 LOVELACE))"
    using l trim_lovelace
    by (simp add: normalizePacketDenom_def normalizeDenomTokenTransfer_def mapLovelaceDenom_def)
  show "resolveEscrowDenomToken GrpcInvalidArgument LOVELACE LOVELACE [example_utxo] = Inr LOVELACE"
    using l trim_lovelace by (simp add: resolveEscrowDenomToken_def tryResolveAssetUnitFromAssets_def)
  show "\<forall>u \<in> set [example_utxo]. \<forall>a \<in> fst ` set (assets u). ledger_unit a"
    by (simp add: example_utxo_def ledger_unit_def LOVELACE_def)
qed (rule trim_lovelace)

text \<open>
  The escrowed asset is the one the packet names: if the builder resolves a denomination to an
  asset of the wallet and to a packet denomination, then mapping the packet denomination back
  gives that asset, up to the case of hexadecimal digits. Two transfers with the same packet
  denomination escrow the same asset.
\<close>

theorem escrowed_asset_is_packet_denom:
  assumes "resolvePacketDenomForSend resolve bad inputDenom = Inr resolvedDenom"
    and "normalizePacketDenom bad resolvedDenom portId channelId = Inr packetDenom"
    and "resolveEscrowDenomToken bad inputDenom resolvedDenom wallet = Inr denomToken"
    and "\<forall>u \<in> set wallet. \<forall>a \<in> fst ` set (assets u). ledger_unit a"
    and "js_trim inputDenom = inputDenom"
  shows "to_lower (mapLovelaceDenom packetDenom PacketToAsset) = denomToken"
proof -
  note u = escrow_unit_and_packet_denom [OF assms]
  have lv: "js_trim (to_hex (utf8 LOVELACE)) = to_hex (utf8 LOVELACE)" "to_lower (to_hex (utf8 LOVELACE)) = to_hex (utf8 LOVELACE)"
    "to_lower LOVELACE = LOVELACE"
    by (rule js_trim_no_space, code_simp, code_simp, code_simp)
  show ?thesis
  proof (cases "denomToken = LOVELACE")
    case True
    then show ?thesis using u lv by (simp add: mapLovelaceDenom_def)
  next
    case False
    have "length (to_hex (utf8 LOVELACE)) = 16" by code_simp
    with False u have "denomToken \<noteq> to_hex (utf8 LOVELACE)" by (auto simp: ledger_unit_def)
    with False u show ?thesis by (simp add: mapLovelaceDenom_def)
  qed
qed

theorem escrowed_asset_is_packet_denom_witness:
  "to_lower (mapLovelaceDenom (to_hex (utf8 LOVELACE)) PacketToAsset) = LOVELACE"
  by (rule escrowed_asset_is_packet_denom [OF lovelace_resolution])


section \<open>One UTxO per reference\<close>

lemma dedupe_fold:
  "fst ` set m = set ks \<Longrightarrow>
   snd (fold dedupe_step us (m, ks)) = fold js_set_add (map utxo_key us) ks \<and>
   map_of (fst (fold dedupe_step us (m, ks))) k =
     (if filter (\<lambda>u. utxo_key u = k) us = [] then map_of m k else Some (last (filter (\<lambda>u. utxo_key u = k) us)))"
proof (induction us arbitrary: m ks)
  case (Cons u us)
  let ?m = "AList.update (utxo_key u) u m" and ?ks = "js_set_add (utxo_key u) ks"
  have step: "dedupe_step u (m, ks) = (?m, ?ks)" using Cons.prems by (simp add: dedupe_step_def js_set_add_def js_has_def Let_def)
  have "fst ` set ?m = set ?ks" using Cons.prems by (auto simp: keys_update js_set_add_def)
  note IH = Cons.IH [OF this]
  then show ?case unfolding fold_simps list.map comp_apply step by (simp only: fold_simps comp_apply IH) auto
qed simp

text \<open>
  \<open>dedupeUtxos\<close> keeps exactly one UTxO per output reference: the references in the order of
  their first occurrence, each with the last UTxO listed under it, so no input is offered twice
  to coin selection and none is lost.
\<close>

theorem dedupe_one_per_reference:
  "dedupeUtxos us = map (\<lambda>k. last (filter (\<lambda>u. utxo_key u = k) us)) (js_set_of (map utxo_key us)) \<and>
   map utxo_key (dedupeUtxos us) = js_set_of (map utxo_key us) \<and> distinct (map utxo_key (dedupeUtxos us)) \<and>
   set (dedupeUtxos us) \<subseteq> set us"
proof -
  let ?last = "\<lambda>k. last (filter (\<lambda>u. utxo_key u = k) us)"
  have occurs: "filter (\<lambda>u. utxo_key u = k) us \<noteq> []" if "k \<in> set (js_set_of (map utxo_key us))" for k
    using that by (auto simp: filter_empty_conv)
  have eq: "dedupeUtxos us = map ?last (js_set_of (map utxo_key us))"
  proof -
    have "dedupeUtxos us = map (\<lambda>k. the (map_of (fst (fold dedupe_step us ([], []))) k)) (snd (fold dedupe_step us ([], [])))"
      by (simp add: dedupeUtxos_def split_beta Let_def)
    also have "\<dots> = map ?last (js_set_of (map utxo_key us))"
      using dedupe_fold [of "[]" "[]" us] occurs by (simp add: js_set_of_def)
    finally show ?thesis .
  qed
  have key: "utxo_key (?last k) = k \<and> ?last k \<in> set us" if "k \<in> set (js_set_of (map utxo_key us))" for k
    using last_in_set [OF occurs [OF that]] by simp
  then have "map utxo_key (dedupeUtxos us) = js_set_of (map utxo_key us)" unfolding eq map_map by (intro map_idI) simp
  moreover from key have "set (dedupeUtxos us) \<subseteq> set us" unfolding eq by auto
  ultimately show ?thesis using eq by simp
qed

end
