(* ===== verification/Escrow_Shard.thy ===== *)
theory Escrow_Shard
  imports Runtime_Tree Escrow_Asset
begin

section \<open>Escrow shards\<close>

text \<open>
  \<open>packages/cardano-ibc-tx-builder-runtime/src/transferEscrowShard.ts\<close>: tokens that leave the
  chain are locked in one output per channel and denomination, the escrow shard. A shard is
  recognised by an NFT whose name is a hash of channel and denomination, and the module's root
  output commits to the set of shards with a Merkle registry. \<open>findTransferEscrowShard\<close> scans the
  module's address, checks every shard and the registry, and returns either the shard or what a
  transaction needs to create it. The chain query and the datum codecs are dependencies of the
  source, too; the thrown values of the decoders appear as the text \<open>String(error)\<close>. The
  counterparts on chain are \<open>transfer_escrow_shard.ak\<close> and \<open>minting_transfer_escrow_shard.ak\<close>.
\<close>

definition TRANSFER_ESCROW_SHARD_NAME_DOMAIN :: buffer where
  "TRANSFER_ESCROW_SHARD_NAME_DOMAIN = utf8 ''cardano-ibc/transfer-escrow-shard/v1''"

definition REGISTERED_ESCROW_SHARD_VALUE :: buffer where
  "REGISTERED_ESCROW_SHARD_VALUE = [1]"

definition EMPTY_REGISTRY_ROOT :: string where
  "EMPTY_REGISTRY_ROOT = concat (replicate 32 ''00'')"

definition UINT32_MAX :: nat where
  "UINT32_MAX = 0xffffffff"

record transfer_escrow_datum =
  es_channel_id :: string
  es_denom :: string

record shard_deps =
  reg_transferModuleAddress :: string
  transferModuleIdentifier :: string
  shardPolicyId :: string
  findUtxosAt :: "string \<Rightarrow> utxo list result"
  encodeTransferEscrowDatum :: "transfer_escrow_datum \<Rightarrow> string result"
  decodeTransferEscrowDatum :: "string \<Rightarrow> string + transfer_escrow_datum"
  encodeTransferModuleDatum :: "string \<Rightarrow> string result"
  decodeTransferModuleDatum :: "string \<Rightarrow> string + string"
  createRegistryTree :: "runtime_tree option"

text \<open>\<open>String(error)\<close> of a thrown \<open>Error\<close>.\<close>

fun error_text :: "error \<Rightarrow> string" where
  "error_text (Error m) = ''Error: '' @ m"
| "error_text (GrpcInvalidArgument m) = ''Error: '' @ m"
| "error_text (GrpcFailedPrecondition m) = ''Error: '' @ m"
| "error_text (GrpcNotFound m) = ''Error: '' @ m"
| "error_text (GrpcInternal m) = ''Error: '' @ m"

definition utxoRef :: "utxo \<Rightarrow> string" where
  "utxoRef u = txHash u @ ''#'' @ dec_string (outputIndex u)"

definition decodeHexBytes :: "string \<Rightarrow> string \<Rightarrow> buffer result" where
  "decodeHexBytes value label =
     bindE (throwIf (odd (length value) \<or> \<not> list_all is_hex value)
              (Error (label @ '' must be an even-length hexadecimal string'')))
       (\<lambda>_. Inr (from_hex value))"

definition uint32BigEndian :: "nat \<Rightarrow> buffer result" where
  "uint32BigEndian value =
     bindE (throwIf (value > UINT32_MAX)
              (Error (''Escrow shard framing length '' @ dec_string value @ '' exceeds uint32'')))
       (\<lambda>_. Inr (map (\<lambda>k. word_of_nat (value div 256 ^ k)) [3, 2, 1, 0]))"

definition transferEscrowShardTokenName :: "hash_fun \<Rightarrow> string \<Rightarrow> string \<Rightarrow> string result" where
  "transferEscrowShardTokenName blake channelId packetDenom =
     bindE (decodeHexBytes channelId ''channelId'') (\<lambda>channelBytes.
     bindE (decodeHexBytes packetDenom ''packetDenom'') (\<lambda>denomBytes.
     bindE (uint32BigEndian (length channelBytes)) (\<lambda>channelLength.
     bindE (uint32BigEndian (length denomBytes)) (\<lambda>denomLength.
     Inr (to_hex (blake (concat [TRANSFER_ESCROW_SHARD_NAME_DOMAIN, [0], channelLength, channelBytes,
       denomLength, denomBytes])))))))"

definition lower_hex_of_length :: "nat \<Rightarrow> string \<Rightarrow> bool" where
  "lower_hex_of_length n s = (length s = n \<and> list_all is_lower_hex s)"

definition transferEscrowShardRegistryKey :: "string \<Rightarrow> string result" where
  "transferEscrowShardRegistryKey tokenName =
     bindE (throwIf (\<not> lower_hex_of_length 56 tokenName)
              (Error ''Transfer escrow shard token name must be 28 lowercase hexadecimal bytes''))
       (\<lambda>_. Inr (''escrowShards/'' @ tokenName))"

definition escrowDatumDenomToken :: "string \<Rightarrow> string result" where
  "escrowDatumDenomToken encodedDenom =
     bindE (decodeHexBytes encodedDenom ''transfer escrow shard datum denom'') (\<lambda>packetDenomBytes.
     let packetDenom = utf8_text packetDenomBytes in
     bindE (throwIf (utf8 packetDenom \<noteq> packetDenomBytes)
              (Error ''Transfer escrow shard datum denom is not canonical UTF-8'')) (\<lambda>_.
     if to_lower packetDenom = to_hex (utf8 ''lovelace'') then Inr ''lovelace''
     else
     bindE (throwIf (packetDenom = [] \<or> odd (length packetDenom) \<or> \<not> list_all is_hex packetDenom)
              (Error ''Transfer escrow shard datum contains a non-hex denomination'')) (\<lambda>_.
     bindE (throwIf (length packetDenom < 56 \<or> length packetDenom > 120)
              (Error ''Transfer escrow shard datum contains an invalid Cardano asset unit'')) (\<lambda>_.
     Inr (to_lower packetDenom)))))"

definition collision_wrapped :: "'a result \<Rightarrow> 'a result" where
  "collision_wrapped r =
     (case r of Inl e \<Rightarrow> Inl (Error (''Transfer escrow shard registry Merkle path collision: '' @ error_text e))
      | Inr x \<Rightarrow> Inr x)"

definition registryRoot :: "hash_fun \<Rightarrow> runtime_tree \<Rightarrow> (string \<times> runtime_tree) result" where
  "registryRoot sha tree = collision_wrapped (rt_getRoot sha tree)"

definition registrySiblings :: "hash_fun \<Rightarrow> string \<Rightarrow> runtime_tree \<Rightarrow> (string list \<times> runtime_tree) result" where
  "registrySiblings sha key tree =
     collision_wrapped (bindE (rt_getSiblings sha key tree) (\<lambda>(siblings, tree'). Inr (map to_hex siblings, tree')))"

subsection \<open>The scan of the module's address\<close>

definition check_outRefs :: "utxo list \<Rightarrow> string list result" where
  "check_outRefs us =
     foldE (\<lambda>u seenOutRefs.
       bindE (throwIf (utxoRef u \<in> set seenOutRefs)
                (Error (''Transfer module address scan returned duplicate output '' @ utxoRef u)))
         (\<lambda>_. Inr (js_set_add (utxoRef u) seenOutRefs))) us []"

definition module_root :: "string \<Rightarrow> utxo list \<Rightarrow> utxo result" where
  "module_root identifier us =
     (let moduleRoots = filter (\<lambda>u. js_has (assets u) identifier) us in
      bindE (throwIf (length moduleRoots \<noteq> 1 \<or> map_of (assets (hd moduleRoots)) identifier \<noteq> Some 1)
               (Error (''Expected exactly one transfer module root, found '' @ dec_string (length moduleRoots))))
        (\<lambda>_. Inr (hd moduleRoots)))"

definition on_chain_root :: "shard_deps \<Rightarrow> utxo \<Rightarrow> string result" where
  "on_chain_root deps u =
     bindE (case inline_datum u of
         Some d \<Rightarrow> if d = [] then Inr EMPTY_REGISTRY_ROOT
           else (case decodeTransferModuleDatum deps d of
               Inl e \<Rightarrow> Inl (Error (''Malformed transfer module registry datum: '' @ e))
             | Inr r \<Rightarrow> Inr r)
       | None \<Rightarrow> Inr EMPTY_REGISTRY_ROOT) (\<lambda>onChainRoot.
     bindE (throwIf (\<not> lower_hex_of_length 64 onChainRoot)
              (Error ''Transfer module escrow shard registry root must be 32 lowercase hexadecimal bytes''))
       (\<lambda>_. Inr onChainRoot))"

definition shard_units :: "string \<Rightarrow> utxo \<Rightarrow> (string \<times> int) list" where
  "shard_units policy u = filter (\<lambda>e. prefix policy (fst e)) (assets u)"

definition well_formed_shard :: "string \<Rightarrow> utxo \<Rightarrow> bool" where
  "well_formed_shard policy u =
     (case shard_units policy u of
        [(unit, quantity)] \<Rightarrow> length unit = length policy + 56 \<and> list_all is_lower_hex unit \<and> quantity = 1 \<and>
          inline_datum u \<noteq> None \<and> inline_datum u \<noteq> Some []
      | _ \<Rightarrow> False)"

definition decode_shard_datum :: "shard_deps \<Rightarrow> utxo \<Rightarrow> (transfer_escrow_datum \<times> string) result" where
  "decode_shard_datum deps u =
     (case (case decodeTransferEscrowDatum deps (the (inline_datum u)) of
              Inl e \<Rightarrow> Inl e
            | Inr d \<Rightarrow> (case escrowDatumDenomToken (es_denom d) of Inl e \<Rightarrow> Inl (error_text e) | Inr t \<Rightarrow> Inr (d, t))) of
        Inl e \<Rightarrow> Inl (Error (''Malformed transfer escrow shard datum at '' @ utxoRef u @ '': '' @ e))
      | Inr x \<Rightarrow> Inr x)"

type_synonym scan_state = "(string, utxo) jsmap \<times> runtime_tree"

definition scan_shard :: "hash_fun \<Rightarrow> shard_deps \<Rightarrow> utxo \<Rightarrow> scan_state \<Rightarrow> scan_state result" where
  "scan_shard blake deps candidate st =
     (if shard_units (shardPolicyId deps) candidate = [] then Inr st
      else
      bindE (throwIf (\<not> well_formed_shard (shardPolicyId deps) candidate)
               (Error (''Malformed transfer escrow shard at '' @ utxoRef candidate))) (\<lambda>_.
      bindE (decode_shard_datum deps candidate) (\<lambda>(shardDatum, canonicalDenomToken).
      bindE (transferEscrowShardTokenName blake (es_channel_id shardDatum) (es_denom shardDatum)) (\<lambda>tokenName.
      let unit = shardPolicyId deps @ tokenName in
      bindE (throwIf (fst (hd (shard_units (shardPolicyId deps) candidate)) \<noteq> unit \<or>
                 list_ex (\<lambda>a. a \<noteq> ''lovelace'' \<and> a \<noteq> canonicalDenomToken \<and> a \<noteq> unit) (map fst (assets candidate)))
               (Error (''Non-canonical transfer escrow shard at '' @ utxoRef candidate))) (\<lambda>_.
      bindE (throwIf (js_has (fst st) unit) (Error (''Duplicate transfer escrow shard '' @ unit))) (\<lambda>_.
      bindE (transferEscrowShardRegistryKey tokenName) (\<lambda>key.
      Inr (AList.update unit candidate (fst st), rt_set key (Bytes REGISTERED_ESCROW_SHARD_VALUE) (snd st)))))))))"

definition existing_shard :: "shard_deps \<Rightarrow> utxo \<Rightarrow> utxo \<Rightarrow> string \<Rightarrow> string \<Rightarrow> string \<Rightarrow> int option \<Rightarrow> escrow_shard result" where
  "existing_shard deps transferModuleUtxo matchingUtxo encodedDatum shardTokenUnit canonicalRequestedDenom requiredAmount =
     bindE (throwIf (inline_datum matchingUtxo \<noteq> Some encodedDatum)
              (Error (''Transfer escrow shard '' @ shardTokenUnit @ '' has a non-canonical datum''))) (\<lambda>_.
     bindE (throwIf (case requiredAmount of
                None \<Rightarrow> False
              | Some n \<Rightarrow> (case map_of (assets matchingUtxo) canonicalRequestedDenom of Some q \<Rightarrow> q | None \<Rightarrow> 0) < n)
              (Error (''Transfer escrow shard '' @ shardTokenUnit @ '' has insufficient funds''))) (\<lambda>_.
     Inr (ExistingShard transferModuleUtxo matchingUtxo encodedDatum shardTokenUnit)))"

definition missing_shard :: "hash_fun \<Rightarrow> shard_deps \<Rightarrow> runtime_tree \<Rightarrow> utxo \<Rightarrow> string \<Rightarrow> string \<Rightarrow> string \<Rightarrow> escrow_shard result" where
  "missing_shard sha deps tree transferModuleUtxo encodedDatum shardTokenUnit shardTokenName =
     bindE (transferEscrowShardRegistryKey shardTokenName) (\<lambda>registryKey.
     bindE (registrySiblings sha registryKey tree) (\<lambda>(siblings, tree').
     bindE (registryRoot sha (rt_set registryKey (Bytes REGISTERED_ESCROW_SHARD_VALUE) tree')) (\<lambda>(root, _).
     bindE (encodeTransferModuleDatum deps root) (\<lambda>encodedUpdatedTransferModuleDatum.
     Inr (MissingShard transferModuleUtxo encodedDatum shardTokenUnit siblings encodedUpdatedTransferModuleDatum)))))"

definition find_shard :: "hash_fun \<Rightarrow> hash_fun \<Rightarrow> shard_deps \<Rightarrow> string \<Rightarrow> string \<Rightarrow> string \<Rightarrow> int option \<Rightarrow> escrow_shard result" where
  "find_shard sha blake deps channelId packetDenom denomToken requiredAmount =
     bindE (throwIf (\<not> lower_hex_of_length 56 (shardPolicyId deps))
              (Error ''Transfer escrow shard policy id must be 28 lowercase hexadecimal bytes'')) (\<lambda>_.
     bindE (escrowDatumDenomToken packetDenom) (\<lambda>canonicalRequestedDenom.
     bindE (throwIf (denomToken \<noteq> canonicalRequestedDenom)
              (Error (''Requested asset '' @ denomToken @ '' does not match escrow shard denom '' @ canonicalRequestedDenom))) (\<lambda>_.
     bindE (encodeTransferEscrowDatum deps \<lparr>es_channel_id = channelId, es_denom = packetDenom\<rparr>) (\<lambda>encodedDatum.
     bindE (transferEscrowShardTokenName blake channelId packetDenom) (\<lambda>shardTokenName.
     let shardTokenUnit = shardPolicyId deps @ shardTokenName in
     bindE (findUtxosAt deps (reg_transferModuleAddress deps)) (\<lambda>moduleUtxos.
     bindE (check_outRefs moduleUtxos) (\<lambda>_.
     bindE (module_root (transferModuleIdentifier deps) moduleUtxos) (\<lambda>transferModuleUtxo.
     bindE (on_chain_root deps transferModuleUtxo) (\<lambda>onChainRoot.
     bindE (foldE (scan_shard blake deps) moduleUtxos
              ([], case createRegistryTree deps of Some t \<Rightarrow> t | None \<Rightarrow> new_tree)) (\<lambda>(canonicalShards, tree).
     bindE (registryRoot sha tree) (\<lambda>(root, tree').
     bindE (throwIf (root \<noteq> onChainRoot)
              (Error ''Transfer escrow shard registry root does not match live shards'')) (\<lambda>_.
     case map_of canonicalShards shardTokenUnit of
       Some matchingUtxo \<Rightarrow>
         existing_shard deps transferModuleUtxo matchingUtxo encodedDatum shardTokenUnit canonicalRequestedDenom requiredAmount
     | None \<Rightarrow> missing_shard sha deps tree' transferModuleUtxo encodedDatum shardTokenUnit shardTokenName))))))))))))"

subsection \<open>On chain\<close>

definition shard_token_domain :: buffer where
  "shard_token_domain = utf8 ''cardano-ibc/transfer-escrow-shard/v1''"

definition shard_token_preimage :: "buffer \<Rightarrow> buffer \<Rightarrow> buffer option" where
  "shard_token_preimage ch denom =
     (if length ch > 4294967295 \<or> length denom > 4294967295 then None
      else case from_int_big_endian (length ch) 4 of None \<Rightarrow> None | Some a \<Rightarrow>
        (case from_int_big_endian (length denom) 4 of None \<Rightarrow> None | Some b \<Rightarrow>
          Some (shard_token_domain @ [0] @ a @ ch @ b @ denom)))"

definition shard_token_name :: "hash_fun \<Rightarrow> buffer \<Rightarrow> buffer \<Rightarrow> buffer option" where
  "shard_token_name blake ch denom = map_option blake (shard_token_preimage ch denom)"

text \<open>Aiken's \<open>bytearray.to_hex\<close> writes upper-case digits, which is why the key is lowered.\<close>

definition base16_digit :: "nat \<Rightarrow> byte" where
  "base16_digit n = word_of_nat (if n < 10 then n + 48 else n + 55)"

definition encode_base16 :: "buffer \<Rightarrow> buffer" where
  "encode_base16 bytes = concat (map (\<lambda>b. [base16_digit (unat b div 16), base16_digit (unat b mod 16)]) bytes)"

definition ascii_lower :: "buffer \<Rightarrow> buffer" where
  "ascii_lower bytes = map (\<lambda>b. if 65 \<le> b \<and> b \<le> 90 then b + 32 else b) bytes"

definition shard_registry_key :: "hash_fun \<Rightarrow> buffer \<Rightarrow> buffer \<Rightarrow> buffer option" where
  "shard_registry_key blake ch denom =
     map_option (\<lambda>n. utf8 ''escrowShards/'' @ ascii_lower (encode_base16 n)) (shard_token_name blake ch denom)"

text \<open>The registry transition the minting policy demands of a transaction that creates a shard.\<close>

definition registry_transition :: "hash_fun \<Rightarrow> hash_fun \<Rightarrow> buffer \<Rightarrow> buffer \<Rightarrow> buffer \<Rightarrow> buffer \<Rightarrow> buffer list \<Rightarrow> bool" where
  "registry_transition sha blake old_root new_root ch denom registry_siblings =
     (case shard_registry_key blake ch denom of
        None \<Rightarrow> False
      | Some key \<Rightarrow> apply_update sha old_root key [] [1] registry_siblings = Inr new_root \<and>
          length old_root = 32 \<and> length new_root = 32)"


section \<open>Names and keys on both sides\<close>

lemma ascii_hex: "list_all is_hex s \<Longrightarrow> ascii s"
proof -
  have "(of_char c :: nat) < 128" if "is_hex c" for c using that by (auto simp: is_hex_def hex_val_def Let_def split: if_splits)
  then show "list_all is_hex s \<Longrightarrow> ascii s" by (auto simp: ascii_def list_all_iff)
qed

lemma lower_base16_digit:
  "n < 16 \<Longrightarrow> (if 65 \<le> base16_digit n \<and> base16_digit n \<le> 90 then base16_digit n + 32 else base16_digit n) =
    byte_of_char (hex_digit n)"
proof -
  assume n: "n < 16"
  then have d: "unat (base16_digit n) = (if n < 10 then n + 48 else n + 55)"
    by (simp add: base16_digit_def unat_of_nat)
  have h: "(of_char (hex_digit n) :: nat) = (if n < 10 then 48 + n else 87 + n)"
    using n by (simp add: hex_digit_def)
  show ?thesis
  proof (rule word_unat_eq_iff [THEN iffD2])
    show "unat (if 65 \<le> base16_digit n \<and> base16_digit n \<le> 90 then base16_digit n + 32 else base16_digit n) =
        unat (byte_of_char (hex_digit n))"
      using n d h by (simp add: word_le_nat_alt unat_byte_of_char unat_word_ariths)
  qed
qed

lemma ascii_lower_base16: "ascii_lower (encode_base16 bs) = utf8 (to_hex bs)"
proof (induction bs)
  case (Cons b bs)
  have "unat b div 16 < 16" "unat b mod 16 < 16" using byte_less_256 [of b] by simp_all
  note d = lower_base16_digit [OF this(1)] lower_base16_digit [OF this(2)]
  from Cons show ?case by (simp add: ascii_lower_def encode_base16_def utf8_def d)
qed (simp add: ascii_lower_def encode_base16_def utf8_def)

lemma big_endian_4: "from_int_big_endian n 4 = (if n \<le> 4294967295 then Some (map (\<lambda>k. word_of_nat (n div 256 ^ k)) [3, 2, 1, 0]) else None)"
proof -
  have "[0..<4] = [0, 1, 2, 3]" by code_simp
  then show ?thesis by (simp add: from_int_big_endian_def)
qed

lemma uint32BigEndian_iff: "uint32BigEndian n = Inr bs \<longleftrightarrow> from_int_big_endian n 4 = Some bs"
  unfolding big_endian_4 by (auto simp: uint32BigEndian_def UINT32_MAX_def bindE_Inr_iff throwIf_iff)

lemma decodeHexBytes_iff: "decodeHexBytes s l = Inr bs \<longleftrightarrow> even (length s) \<and> list_all is_hex s \<and> bs = from_hex s"
  by (auto simp: decodeHexBytes_def bindE_Inr_iff throwIf_iff)

lemma token_name_iff:
  "transferEscrowShardTokenName blake c d = Inr n \<longleftrightarrow>
     even (length c) \<and> list_all is_hex c \<and> even (length d) \<and> list_all is_hex d \<and>
     (\<exists>m. shard_token_name blake (from_hex c) (from_hex d) = Some m \<and> n = to_hex m)"
  by (auto simp: transferEscrowShardTokenName_def bindE_Inr_iff decodeHexBytes_iff uint32BigEndian_iff shard_token_name_def
      shard_token_preimage_def shard_token_domain_def TRANSFER_ESCROW_SHARD_NAME_DOMAIN_def big_endian_4 split: if_splits)

lemma registry_key_iff: "transferEscrowShardRegistryKey n = Inr k \<longleftrightarrow> lower_hex_of_length 56 n \<and> k = ''escrowShards/'' @ n"
  by (auto simp: transferEscrowShardRegistryKey_def bindE_Inr_iff throwIf_iff)

lemma registry_key_on_chain:
  assumes "transferEscrowShardTokenName blake c d = Inr n"
  shows "shard_registry_key blake (from_hex c) (from_hex d) = Some (utf8 (''escrowShards/'' @ n))"
  using assms by (auto simp: token_name_iff shard_registry_key_def ascii_lower_base16 utf8_def)

lemma big_endian_length: "from_int_big_endian n k = Some bs \<Longrightarrow> length bs = k"
  by (auto simp: from_int_big_endian_def split: if_splits)

lemma four_digits:
  assumes "n < (4294967296 :: nat)"
  shows "n = ((n div 16777216 mod 256 * 256 + n div 65536 mod 256) * 256 + n div 256 mod 256) * 256 + n mod 256"
proof -
  have d: "n div 65536 = n div 256 div 256" "n div 16777216 = n div 256 div 256 div 256"
    by (simp_all add: div_mult2_eq [symmetric])
  have "n div 256 div 256 div 256 < 256" using assms by (simp add: div_mult2_eq [symmetric] less_mult_imp_div_less)
  then have "n div 256 div 256 div 256 mod 256 = n div 256 div 256 div 256" by simp
  then show ?thesis unfolding d by (simp only: div_mult_mod_eq)
qed

lemma big_endian_4_inj:
  assumes "from_int_big_endian n 4 = Some bs" "from_int_big_endian m 4 = Some bs"
  shows "n = m"
proof -
  have h: "m div 256 ^ k mod 256 = n div 256 ^ k mod 256" if "k \<in> {0, 1, 2, 3}" for k
  proof -
    have "(word_of_nat (m div 256 ^ k) :: byte) = word_of_nat (n div 256 ^ k)"
      using assms that by (auto simp: big_endian_4 split: if_splits)
    then show ?thesis by (simp add: word_of_nat_eq_iff take_bit_eq_mod)
  qed
  have "n < 4294967296" "m < 4294967296" using assms by (auto simp: big_endian_4 split: if_splits)
  note d = four_digits [OF this(1)] four_digits [OF this(2)]
  show ?thesis using h [of 0] h [of 1] h [of 2] h [of 3] by (subst d(1), subst d(2)) simp
qed

lemma preimage_injective:
  assumes "shard_token_preimage c d = Some p" "shard_token_preimage c' d' = Some p"
  shows "c = c' \<and> d = d'"
proof -
  obtain a b where 1: "from_int_big_endian (length c) 4 = Some a" "from_int_big_endian (length d) 4 = Some b"
    "p = shard_token_domain @ [0] @ a @ c @ b @ d"
    using assms(1) by (auto simp: shard_token_preimage_def split: if_splits option.splits)
  obtain a' b' where 2: "from_int_big_endian (length c') 4 = Some a'" "from_int_big_endian (length d') 4 = Some b'"
    "p = shard_token_domain @ [0] @ a' @ c' @ b' @ d'"
    using assms(2) by (auto simp: shard_token_preimage_def split: if_splits option.splits)
  have l: "length a = 4" "length b = 4" "length a' = 4" "length b' = 4"
    using 1 2 by (simp_all add: big_endian_length)
  from 1(3) 2(3) have eq: "a @ c @ b @ d = a' @ c' @ b' @ d'" by simp
  with l have a: "a = a'" "c @ b @ d = c' @ b' @ d'" by auto
  with 1 2 have "length c = length c'" by (intro big_endian_4_inj) auto
  with a l show ?thesis by auto
qed


section \<open>What the scan establishes\<close>

definition canonical_shard :: "hash_fun \<Rightarrow> shard_deps \<Rightarrow> string \<Rightarrow> utxo \<Rightarrow> bool" where
  "canonical_shard blake deps unit u =
     (shard_units (shardPolicyId deps) u = [(unit, 1)] \<and>
      (\<exists>s d t n. inline_datum u = Some s \<and> decodeTransferEscrowDatum deps s = Inr d \<and> escrowDatumDenomToken (es_denom d) = Inr t \<and>
         transferEscrowShardTokenName blake (es_channel_id d) (es_denom d) = Inr n \<and> unit = shardPolicyId deps @ n \<and>
         fst ` set (assets u) \<subseteq> {''lovelace'', t, unit}))"

definition registry_key_of :: "string \<Rightarrow> string" where
  "registry_key_of n = ''escrowShards/'' @ n"

definition scan_inv :: "hash_fun \<Rightarrow> shard_deps \<Rightarrow> utxo list \<Rightarrow> scan_state \<Rightarrow> bool" where
  "scan_inv blake deps seen st =
     (leaves_wf (leaves (snd st)) \<and> dirty (snd st) \<and>
      (\<forall>k \<in> fst ` set (leaves (snd st)). \<exists>n. k = registry_key_of n) \<and>
      (\<forall>n. map_of (leaves (snd st)) (registry_key_of n) =
         map_option (\<lambda>_. REGISTERED_ESCROW_SHARD_VALUE) (map_of (fst st) (shardPolicyId deps @ n))) \<and>
      (\<forall>unit u. map_of (fst st) unit = Some u \<longrightarrow> u \<in> set seen \<and> canonical_shard blake deps unit u) \<and>
      (\<forall>u \<in> set seen. shard_units (shardPolicyId deps) u \<noteq> [] \<longrightarrow> (\<exists>unit. map_of (fst st) unit = Some u)))"

lemma registry_key_of_inj [simp]: "registry_key_of n = registry_key_of m \<longleftrightarrow> n = m" "registry_key_of n \<noteq> []"
  by (simp_all add: registry_key_of_def)

lemma well_formed_shardD:
  assumes "well_formed_shard policy u"
  obtains unit s where "shard_units policy u = [(unit, 1)]" "inline_datum u = Some s"
proof (cases "shard_units policy u")
  case Nil
  with assms show ?thesis by (simp add: well_formed_shard_def)
next
  case (Cons e es)
  with assms that show ?thesis by (cases e; cases es) (auto simp: well_formed_shard_def)
qed

lemma scan_shard_Inr:
  assumes "scan_shard blake deps c st = Inr st'" "shard_units (shardPolicyId deps) c \<noteq> []"
  obtains n where "canonical_shard blake deps (shardPolicyId deps @ n) c" "map_of (fst st) (shardPolicyId deps @ n) = None"
    "st' = (AList.update (shardPolicyId deps @ n) c (fst st), rt_put (registry_key_of n) REGISTERED_ESCROW_SHARD_VALUE (snd st))"
proof -
  from assms obtain d t n where
    wf: "well_formed_shard (shardPolicyId deps) c" and dec: "decode_shard_datum deps c = Inr (d, t)"
    and n: "transferEscrowShardTokenName blake (es_channel_id d) (es_denom d) = Inr n"
    and u: "fst (hd (shard_units (shardPolicyId deps) c)) = shardPolicyId deps @ n"
    and only: "\<not> list_ex (\<lambda>a. a \<noteq> ''lovelace'' \<and> a \<noteq> t \<and> a \<noteq> shardPolicyId deps @ n) (map fst (assets c))"
    and new: "\<not> js_has (fst st) (shardPolicyId deps @ n)"
    and st': "st' = (AList.update (shardPolicyId deps @ n) c (fst st), rt_set (registry_key_of n) (Bytes REGISTERED_ESCROW_SHARD_VALUE) (snd st))"
    by (auto simp: scan_shard_def bindE_Inr_iff throwIf_iff registry_key_iff registry_key_of_def Let_def)
  obtain s where su: "shard_units (shardPolicyId deps) c = [(shardPolicyId deps @ n, 1)]" "inline_datum c = Some s"
    using u by (auto intro: well_formed_shardD [OF wf])
  with dec have "decodeTransferEscrowDatum deps s = Inr d" "escrowDatumDenomToken (es_denom d) = Inr t"
    by (auto simp: decode_shard_datum_def split: sum.splits)
  with su n only have "canonical_shard blake deps (shardPolicyId deps @ n) c"
    unfolding canonical_shard_def by (auto simp: list_ex_iff)
  moreover have "map_of (fst st) (shardPolicyId deps @ n) = None" using new by (simp add: js_has_iff map_of_eq_None_iff)
  ultimately show ?thesis using st' that by (simp add: rt_put_def)
qed

lemma scan_step:
  assumes step: "scan_shard blake deps c st = Inr st'" and inv: "scan_inv blake deps seen st"
  shows "scan_inv blake deps (seen @ [c]) st'"
proof (cases "shard_units (shardPolicyId deps) c = []")
  case True
  then have "st' = st" using step by (simp add: scan_shard_def)
  with True inv show ?thesis by (auto simp: scan_inv_def)
next
  case False
  obtain n where n: "canonical_shard blake deps (shardPolicyId deps @ n) c" "map_of (fst st) (shardPolicyId deps @ n) = None"
    "st' = (AList.update (shardPolicyId deps @ n) c (fst st), rt_put (registry_key_of n) REGISTERED_ESCROW_SHARD_VALUE (snd st))"
    by (rule scan_shard_Inr [OF step False])
  have l: "leaves (snd st') = AList.update (registry_key_of n) REGISTERED_ESCROW_SHARD_VALUE (leaves (snd st))" "dirty (snd st')"
    using n(3) by (simp_all add: rt_put_leaves store_leaf_def REGISTERED_ESCROW_SHARD_VALUE_def)
  have v: "REGISTERED_ESCROW_SHARD_VALUE \<noteq> []" by (simp add: REGISTERED_ESCROW_SHARD_VALUE_def)
  have keep: "\<exists>unit. map_of (fst st') unit = Some u" if "u \<in> set seen" "shard_units (shardPolicyId deps) u \<noteq> []" for u
  proof -
    from inv that obtain unit where "map_of (fst st) unit = Some u" by (auto simp: scan_inv_def)
    with n(2) have "map_of (fst st') unit = Some u" by (auto simp: n(3) map_of_alist_update)
    then show ?thesis by blast
  qed
  have "map_of (fst st') (shardPolicyId deps @ n) = Some c" by (simp add: n(3) map_of_alist_update)
  with keep inv n(1) show ?thesis
    unfolding scan_inv_def l by (auto simp: leaves_wf_update v l(2) keys_update map_of_alist_update n(3) rt_put_leaves)
qed

lemma scan_fold:
  "foldE (scan_shard blake deps) us st = Inr st' \<Longrightarrow> scan_inv blake deps seen st \<Longrightarrow> scan_inv blake deps (seen @ us) st'"
proof (induction us arbitrary: st seen)
  case (Cons c us)
  then obtain st1 where st1: "scan_shard blake deps c st = Inr st1" "foldE (scan_shard blake deps) us st1 = Inr st'"
    by (auto simp: bindE_Inr_iff)
  from Cons.IH [OF st1(2) scan_step [OF st1(1) Cons.prems(2)]] show ?case by simp
qed simp

lemma scan_start: "scan_inv blake deps [] ([], new_tree)"
  by (simp add: scan_inv_def new_tree_def leaves_wf_def)

lemma rt_leaf_level_gateway:
  "rt_leaf_level sha ls idx n = Inr m \<Longrightarrow> \<exists>m'. leaf_level sha ls idx n' = Inr m'"
proof (induction ls arbitrary: idx n n')
  case (Cons kv ls)
  then show ?case by (cases kv) (auto simp: Let_def runtime_hashes bindE_Inr_iff throwIf_iff split: option.splits)
qed simp

lemma rt_root_inj:
  assumes "rt_getRoot sha t = Inr x" "dirty t" "leaves_wf (leaves t)" "[] \<notin> fst ` set (leaves t)"
  shows "inj_on (keyIndex64 sha) (fst ` set (leaves t))"
proof -
  from assms(1,2) obtain m where "rt_leaf_level sha (leaves t) [] [] = Inr m"
    by (auto simp: rt_getRoot_def rt_ensureRebuilt_def bindE_Inr_iff)
  from rt_leaf_level_gateway [OF this, of "[]"] obtain m' where "leaf_level sha (leaves t) [] [] = Inr m'" by blast
  from leaf_level_Inr_inj [OF this] assms(3,4) show ?thesis by (simp add: leaves_wf_def)
qed

lemma collision_wrapped_iff [simp]: "collision_wrapped r = Inr x \<longleftrightarrow> r = Inr x"
  by (auto simp: collision_wrapped_def split: sum.splits)

lemma find_shard_Inr:
  assumes "find_shard sha blake deps c d tok req = Inr r" "createRegistryTree deps = None"
  obtains us m ed n root st t' where
    "escrowDatumDenomToken d = Inr tok" "encodeTransferEscrowDatum deps \<lparr>es_channel_id = c, es_denom = d\<rparr> = Inr ed"
    "transferEscrowShardTokenName blake c d = Inr n"
    "findUtxosAt deps (reg_transferModuleAddress deps) = Inr us" "module_root (transferModuleIdentifier deps) us = Inr m"
    "on_chain_root deps m = Inr root" "scan_inv blake deps us st" "rt_getRoot sha (snd st) = Inr (root, t')"
    "(case map_of (fst st) (shardPolicyId deps @ n) of
        Some u \<Rightarrow> existing_shard deps m u ed (shardPolicyId deps @ n) tok req
      | None \<Rightarrow> missing_shard sha deps t' m ed (shardPolicyId deps @ n) n) = Inr r"
proof -
  from assms obtain ed n us refs m root st t' where r:
    "escrowDatumDenomToken d = Inr tok" "encodeTransferEscrowDatum deps \<lparr>es_channel_id = c, es_denom = d\<rparr> = Inr ed"
    "transferEscrowShardTokenName blake c d = Inr n"
    "findUtxosAt deps (reg_transferModuleAddress deps) = Inr us" "module_root (transferModuleIdentifier deps) us = Inr m"
    "on_chain_root deps m = Inr root" "foldE (scan_shard blake deps) us ([], new_tree) = Inr st"
    "rt_getRoot sha (snd st) = Inr (root, t')"
    "(case map_of (fst st) (shardPolicyId deps @ n) of
        Some u \<Rightarrow> existing_shard deps m u ed (shardPolicyId deps @ n) tok req
      | None \<Rightarrow> missing_shard sha deps t' m ed (shardPolicyId deps @ n) n) = Inr r"
    by (auto simp: find_shard_def bindE_Inr_iff throwIf_iff Let_def registryRoot_def)
  have "scan_inv blake deps us st" using scan_fold [OF r(7) scan_start] by simp
  with r that show ?thesis by blast
qed

lemma existing_shard_Inr:
  "existing_shard deps m u ed unit tok req = Inr r \<longleftrightarrow>
     r = ExistingShard m u ed unit \<and> inline_datum u = Some ed \<and>
     (\<forall>a. req = Some a \<longrightarrow> a \<le> (case map_of (assets u) tok of Some q \<Rightarrow> q | None \<Rightarrow> 0))"
  by (auto simp: existing_shard_def bindE_Inr_iff throwIf_iff not_less split: option.splits)

lemma missing_shard_Inr:
  assumes "missing_shard sha deps t m ed unit n = Inr r"
  obtains ss t1 root t2 enc where "lower_hex_of_length 56 n" "rt_getSiblings sha (registry_key_of n) t = Inr (ss, t1)"
    "rt_getRoot sha (rt_put (registry_key_of n) REGISTERED_ESCROW_SHARD_VALUE t1) = Inr (root, t2)"
    "encodeTransferModuleDatum deps root = Inr enc" "r = MissingShard m ed unit (map to_hex ss) enc"
  using assms
  by (auto simp: missing_shard_def bindE_Inr_iff registry_key_iff registrySiblings_def registryRoot_def registry_key_of_def rt_put_def)

lemma shard_unit_entry: "shard_units policy u = [(unit, q)] \<Longrightarrow> prefix policy x \<Longrightarrow> map_of (assets u) x = (if x = unit then Some q else None)"
proof -
  assume su: "shard_units policy u = [(unit, q)]" and x: "prefix policy x"
  have "map_of (filter (\<lambda>e. prefix policy (fst e)) l) x = map_of l x" for l :: "(string \<times> int) list"
    using x by (induction l) auto
  from this [of "assets u"] show ?thesis using su by (simp add: shard_units_def)
qed

lemma module_root_mem: "module_root identifier us = Inr m \<Longrightarrow> m \<in> set us \<and> map_of (assets m) identifier = Some 1"
proof -
  assume m: "module_root identifier us = Inr m"
  then have "filter (\<lambda>u. js_has (assets u) identifier) us \<noteq> []" "m = hd (filter (\<lambda>u. js_has (assets u) identifier) us)"
    "map_of (assets m) identifier = Some 1"
    by (auto simp: module_root_def bindE_Inr_iff throwIf_iff Let_def)
  with hd_in_set [OF this(1)] show ?thesis by auto
qed

lemma shard_of_unit:
  assumes "scan_inv blake deps us st" "v \<in> set us" "shardPolicyId deps @ n \<in> fst ` set (assets v)"
  shows "map_of (fst st) (shardPolicyId deps @ n) = Some v"
proof -
  obtain q where q: "map_of (assets v) (shardPolicyId deps @ n) = Some q"
    using assms(3) by (cases "map_of (assets v) (shardPolicyId deps @ n)") (simp_all add: map_of_eq_None_iff)
  then have "(shardPolicyId deps @ n, q) \<in> set (shard_units (shardPolicyId deps) v)"
    using map_of_SomeD [OF q] by (simp add: shard_units_def)
  then have "shard_units (shardPolicyId deps) v \<noteq> []" by auto
  with assms(1,2) obtain unit where unit: "map_of (fst st) unit = Some v" "canonical_shard blake deps unit v"
    by (auto simp: scan_inv_def)
  then have "unit = shardPolicyId deps @ n"
    using q shard_unit_entry [of "shardPolicyId deps" v unit 1 "shardPolicyId deps @ n"]
    by (auto simp: canonical_shard_def split: if_splits)
  with unit show ?thesis by simp
qed

lemma scan_inv_leaves:
  assumes "scan_inv blake deps us st"
  shows "leaves_wf (leaves (snd st))" "dirty (snd st)" "[] \<notin> fst ` set (leaves (snd st))"
    "map_of (leaves (snd st)) (registry_key_of n) =
      map_option (\<lambda>_. REGISTERED_ESCROW_SHARD_VALUE) (map_of (fst st) (shardPolicyId deps @ n))"
proof -
  show "[] \<notin> fst ` set (leaves (snd st))"
  proof
    assume "[] \<in> fst ` set (leaves (snd st))"
    with assms obtain n where "[] = registry_key_of n" unfolding scan_inv_def by blast
    then show False using registry_key_of_inj(2) by metis
  qed
qed (use assms in \<open>simp_all add: scan_inv_def\<close>)

lemma rt_getRoot_fresh:
  assumes "rt_getRoot sha t = Inr (r, t')" "rt_ok sha K t"
  shows "r = to_hex (tree_root sha (leaves t)) \<and> leaves t' = leaves t \<and> rt_ok sha K t'"
  using rt.root_of_ok [OF assms(2)] assms(1) by auto

lemma rt_siblings_fresh:
  assumes "rt_getSiblings sha k t = Inr (ss, t')" "rt_ok sha K t"
  shows "ss = tree_siblings sha k (leaves t) \<and> leaves t' = leaves t \<and> rt_ok sha K t'"
  using rt.siblings_of_ok [OF assms(2), of k] assms(1) by auto

lemma rt_reads_keep_leaves:
  "rt_getRoot sha t = Inr (r, t') \<Longrightarrow> leaves t' = leaves t"
  "rt_getSiblings sha k t = Inr (ss, t') \<Longrightarrow> leaves t' = leaves t"
  by (auto simp: rt_getRoot_def rt_getSiblings_def rt_ensureRebuilt_def bindE_Inr_iff Let_def split: if_splits option.splits)

text \<open>
  The witness of an insertion: root and siblings before, root after. That the second root could be
  computed at all shows that the new key collides with none of the registered ones.
\<close>

lemma registry_insert_accepted:
  assumes sha: "sha256_spec sha" "commits_value sha v" "v \<noteq> []"
    and t: "leaves_wf (leaves t)" "dirty t" "[] \<notin> fst ` set (leaves t)" "k \<noteq> []" "map_of (leaves t) k = None"
    and old: "rt_getRoot sha t = Inr (old, t1)" and ss: "rt_getSiblings sha k t1 = Inr (ss, t2)"
    and new: "rt_getRoot sha (rt_put k v t2) = Inr (new, t3)"
  obtains o' n' where "old = to_hex o'" "new = to_hex n'" "length o' = 32" "length n' = 32"
    "apply_update sha o' (utf8 k) [] v ss = Inr n'" "length ss = 64"
proof -
  have h: "hash32 sha" using sha(1) by (simp add: sha256_spec_def)
  note leaves = rt_reads_keep_leaves(1) [OF old] rt_reads_keep_leaves(2) [OF ss]
  have put: "leaves (rt_put k v t2) = AList.update k v (leaves t)" "dirty (rt_put k v t2)"
    using leaves sha(3) by (simp_all add: rt_put_leaves store_leaf_def)
  have "inj_on (keyIndex64 sha) (fst ` set (leaves (rt_put k v t2)))"
    using t sha(3) put by (intro rt_root_inj [OF new]) (auto simp: leaves_wf_update keys_update)
  then have ok: "rt_ok sha {k} t" using t(1,2) put by (simp add: rt_ok_def rt_cache_ok_def keys_update)
  note o1 = rt_getRoot_fresh [OF old ok]
  then have o2: "ss = tree_siblings sha k (leaves t1) \<and> leaves t2 = leaves t1 \<and> rt_ok sha {k} t2"
    using rt_siblings_fresh [OF ss] by blast
  then have "rt_ok sha {k} (rt_put k v t2)" by (intro rt.ok_put) simp_all
  note o3 = rt_getRoot_fresh [OF new this]
  have leaves_put: "leaves (rt_put k v t2) = store_leaf k v (leaves t)" using leaves by (simp add: rt_put_leaves)
  have "commits_value sha []" by (simp add: commits_value_def)
  from rt.replay [OF sha(1) ok, of k "[]" v] this sha(2) t(5)
  have "apply_update sha (tree_root sha (leaves t)) (utf8 k) [] v (tree_siblings sha k (leaves t)) =
      Inr (tree_root sha (store_leaf k v (leaves t)))" by simp
  moreover have "length (tree_root sha (leaves t)) = 32" by (rule rt.digest_length [OF h ok]) simp
  moreover have "length (tree_root sha (leaves (rt_put k v t2))) = 32"
    by (rule rt.digest_length [OF h \<open>rt_ok sha {k} (rt_put k v t2)\<close>]) simp
  ultimately show ?thesis
    using that [of "tree_root sha (leaves t)" "tree_root sha (leaves (rt_put k v t2))"] o1 o2 o3 leaves leaves_put
      rt.witness_length [of sha k "leaves t"]
    by (simp add: MERKLE_DEPTH_BITS_def)
qed


section \<open>Properties\<close>

text \<open>
  C29. Creating a shard: when no shard exists for a channel and denomination, no output at the
  module's address carries its NFT, and the siblings and the new registry root the lookup returns
  are a registry transition the minting policy accepts from the root the module output carries.
\<close>

theorem missing_shard_can_be_created:
  assumes "sha256_spec sha" and "commits_value sha [1]" and "createRegistryTree deps = None"
    and found: "find_shard sha blake deps channelId packetDenom denomToken amount =
      Inr (MissingShard m encodedDatum unit siblings encodedModuleDatum)"
  shows "\<exists>us root new. findUtxosAt deps (reg_transferModuleAddress deps) = Inr us \<and> m \<in> set us \<and>
    (\<forall>u \<in> set us. unit \<notin> fst ` set (assets u)) \<and>
    on_chain_root deps m = Inr root \<and> encodeTransferModuleDatum deps (to_hex new) = Inr encodedModuleDatum \<and>
    registry_transition sha blake (from_hex root) new (from_hex channelId) (from_hex packetDenom) (map from_hex siblings)"
proof -
  obtain us m0 ed n root st t' where f: "transferEscrowShardTokenName blake channelId packetDenom = Inr n"
    "findUtxosAt deps (reg_transferModuleAddress deps) = Inr us" "module_root (transferModuleIdentifier deps) us = Inr m0"
    "on_chain_root deps m0 = Inr root" "scan_inv blake deps us st" "rt_getRoot sha (snd st) = Inr (root, t')"
    "(case map_of (fst st) (shardPolicyId deps @ n) of
        Some u \<Rightarrow> existing_shard deps m0 u ed (shardPolicyId deps @ n) denomToken amount
      | None \<Rightarrow> missing_shard sha deps t' m0 ed (shardPolicyId deps @ n) n) =
      Inr (MissingShard m encodedDatum unit siblings encodedModuleDatum)"
    by (rule find_shard_Inr [OF found assms(3)]) blast
  then have none: "map_of (fst st) (shardPolicyId deps @ n) = None"
    and "missing_shard sha deps t' m0 ed (shardPolicyId deps @ n) n =
      Inr (MissingShard m encodedDatum unit siblings encodedModuleDatum)"
    by (auto simp: existing_shard_Inr split: option.splits)
  from this(2) obtain ss t1 new t2 where ms: "m = m0" "unit = shardPolicyId deps @ n"
    "siblings = map to_hex ss" "rt_getSiblings sha (registry_key_of n) t' = Inr (ss, t1)"
    "rt_getRoot sha (rt_put (registry_key_of n) REGISTERED_ESCROW_SHARD_VALUE t1) = Inr (new, t2)"
    "encodeTransferModuleDatum deps new = Inr encodedModuleDatum"
    by (auto elim!: missing_shard_Inr)
  have inv: "leaves_wf (leaves (snd st))" "dirty (snd st)" "[] \<notin> fst ` set (leaves (snd st))"
    "map_of (leaves (snd st)) (registry_key_of n) = None"
    using scan_inv_leaves [OF f(5)] none by simp_all
  obtain o' n' where r: "root = to_hex o'" "new = to_hex n'" "length o' = 32" "length n' = 32"
    "apply_update sha o' (utf8 (registry_key_of n)) [] [1] ss = Inr n'"
  proof (rule registry_insert_accepted [OF assms(1) _ _ inv(1-3) _ inv(4) f(6) ms(4,5)])
  qed (use assms(2) in \<open>simp_all add: REGISTERED_ESCROW_SHARD_VALUE_def\<close>)
  have "unit \<notin> fst ` set (assets u)" if "u \<in> set us" for u
    using shard_of_unit [OF f(5) that, of n] none ms(2) by (simp only: option.distinct) blast
  moreover have "m \<in> set us" using module_root_mem [OF f(3)] ms(1) by simp
  ultimately show ?thesis
    using f(2,4) ms r registry_key_on_chain [OF f(1)]
    by (auto simp: registry_transition_def registry_key_of_def comp_def from_hex_to_hex intro!: exI [of _ n'])
qed

text \<open>A module address with its root output and, optionally, one shard for ada on channel-0.\<close>

definition example_channel :: string where
  "example_channel = to_hex (utf8 ''channel-0'')"

definition example_denom :: string where
  "example_denom = to_hex (utf8 (to_hex (utf8 ''lovelace'')))"

definition example_policy :: string where
  "example_policy = replicate 56 (CHR ''a'')"

definition zero_blake :: hash_fun where
  "zero_blake bytes = replicate 28 0"

definition example_root_utxo :: utxo where
  "example_root_utxo = \<lparr>txHash = ''aa'', outputIndex = 0, assets = [(''lovelace'', 2), (''root'', 1)], inline_datum = Some ''m''\<rparr>"

definition example_shard_utxo :: utxo where
  "example_shard_utxo = \<lparr>txHash = ''aa'', outputIndex = 1,
     assets = [(''lovelace'', 7), (example_policy @ replicate 56 (CHR ''0''), 1)], inline_datum = Some ''s''\<rparr>"

definition example_registry :: "utxo list \<Rightarrow> string \<Rightarrow> shard_deps" where
  "example_registry us r = \<lparr>reg_transferModuleAddress = ''addr'', transferModuleIdentifier = ''root'', shardPolicyId = example_policy,
     findUtxosAt = \<lambda>_. Inr us, encodeTransferEscrowDatum = \<lambda>d. Inr ''s'',
     decodeTransferEscrowDatum = \<lambda>s. if s = ''s'' then Inr \<lparr>es_channel_id = example_channel, es_denom = example_denom\<rparr> else Inl ''bad'',
     encodeTransferModuleDatum = Inr, decodeTransferModuleDatum = \<lambda>_. Inr r, createRegistryTree = None\<rparr>"

lemma example_denom_token: "escrowDatumDenomToken example_denom = Inr ''lovelace''"
proof -
  let ?h = "to_hex (utf8 ''lovelace'')"
  have u: "utf8_text (utf8 ?h) = ?h" using ascii_well_formed [OF ascii_to_hex] by (simp add: well_formed_def)
  have "decodeHexBytes example_denom l = Inr (utf8 ?h)" for l
    unfolding decodeHexBytes_iff example_denom_def by (simp add: is_hex_to_hex from_hex_to_hex)
  moreover have "to_lower ?h = ?h" by code_simp
  ultimately show ?thesis by (simp add: escrowDatumDenomToken_def Let_def u)
qed

lemma example_token_name: "transferEscrowShardTokenName zero_blake example_channel example_denom = Inr (replicate 56 (CHR ''0''))"
proof -
  have len: "length (utf8 ''channel-0'') = 9" "length (utf8 (to_hex (utf8 ''lovelace''))) = 16" by code_simp+
  have "to_hex (replicate 28 0) = replicate 56 (CHR ''0'')" using to_hex_replicate_zero [of 28] by simp
  then show ?thesis
    unfolding token_name_iff example_channel_def example_denom_def
    by (simp add: is_hex_to_hex from_hex_to_hex shard_token_name_def shard_token_preimage_def big_endian_4 len zero_blake_def)
qed

lemma rt_read_ok:
  assumes "dirty t" "leaves_wf (leaves t)" "inj_on (keyIndex64 sha) (insert k (fst ` set (leaves t)))"
  shows "\<exists>t'. rt_getRoot sha t = Inr (to_hex (tree_root sha (leaves t)), t') \<and> leaves t' = leaves t \<and> rt_ok sha {k} t'"
    and "rt_ok sha {k} t"
proof -
  show "rt_ok sha {k} t" using assms by (simp add: rt_ok_def rt_cache_ok_def)
  then show "\<exists>t'. rt_getRoot sha t = Inr (to_hex (tree_root sha (leaves t)), t') \<and> leaves t' = leaves t \<and> rt_ok sha {k} t'"
    by (rule rt.root_of_ok)
qed

lemma example_registry_facts:
  "shardPolicyId (example_registry us r) = example_policy" "lower_hex_of_length 56 example_policy"
  "module_root ''root'' [example_root_utxo] = Inr example_root_utxo"
  "module_root ''root'' [example_root_utxo, example_shard_utxo] = Inr example_root_utxo"
  "shard_units example_policy example_root_utxo = []"
  "shard_units example_policy example_shard_utxo = [(example_policy @ replicate 56 (CHR ''0''), 1)]"
  "well_formed_shard example_policy example_shard_utxo" "(\<exists>x. check_outRefs [example_root_utxo] = Inr x)"
  "(\<exists>x. check_outRefs [example_root_utxo, example_shard_utxo] = Inr x)"
proof -
  show "shardPolicyId (example_registry us r) = example_policy" by (simp add: example_registry_def)
  show "lower_hex_of_length 56 example_policy" by code_simp
  have p: "example_policy = CHR ''a'' # replicate 55 (CHR ''a'')" by code_simp
  have ne: "''root'' \<noteq> example_policy @ xs" "''lovelace'' \<noteq> example_policy @ xs" for xs unfolding p by simp_all
  then have pre: "\<not> prefix example_policy ''lovelace''" "\<not> prefix example_policy ''root''" by (auto simp: prefix_def)
  show "module_root ''root'' [example_root_utxo] = Inr example_root_utxo"
    "module_root ''root'' [example_root_utxo, example_shard_utxo] = Inr example_root_utxo"
    using ne by (simp_all add: module_root_def example_root_utxo_def example_shard_utxo_def js_has_def)
  show "shard_units example_policy example_root_utxo = []"
    using pre by (simp add: shard_units_def example_root_utxo_def)
  show u: "shard_units example_policy example_shard_utxo = [(example_policy @ replicate 56 (CHR ''0''), 1)]"
    using pre by (simp add: shard_units_def example_shard_utxo_def)
  have "list_all is_lower_hex (example_policy @ replicate 56 (CHR ''0''))" by code_simp
  then show "well_formed_shard example_policy example_shard_utxo"
    using u by (simp add: well_formed_shard_def) (simp add: example_shard_utxo_def)
  have "dec_string 0 \<noteq> dec_string 1" by (simp add: dec_string_inj)
  then show "(\<exists>x. check_outRefs [example_root_utxo] = Inr x)" "(\<exists>x. check_outRefs [example_root_utxo, example_shard_utxo] = Inr x)"
    by (simp_all add: check_outRefs_def utxoRef_def example_root_utxo_def example_shard_utxo_def js_set_add_def)
qed

lemma example_missing:
  "\<exists>ss enc. find_shard tail_hash zero_blake (example_registry [example_root_utxo] EMPTY_REGISTRY_ROOT) example_channel example_denom
    ''lovelace'' None = Inr (MissingShard example_root_utxo ''s'' (example_policy @ replicate 56 (CHR ''0'')) ss enc)"
proof -
  let ?deps = "example_registry [example_root_utxo] EMPTY_REGISTRY_ROOT"
  let ?n = "replicate 56 (CHR ''0'')"
  have r0: "EMPTY_REGISTRY_ROOT = to_hex (replicate 32 0)" "lower_hex_of_length 64 EMPTY_REGISTRY_ROOT" by code_simp+
  have root: "on_chain_root ?deps example_root_utxo = Inr EMPTY_REGISTRY_ROOT"
    using r0 by (simp add: on_chain_root_def example_registry_def example_root_utxo_def)
  have new: "dirty new_tree" "leaves_wf (leaves new_tree)" "leaves new_tree = []" by (simp_all add: new_tree_def leaves_wf_def)
  obtain t1 where t1: "rt_getRoot tail_hash new_tree = Inr (EMPTY_REGISTRY_ROOT, t1)" "leaves t1 = []" "rt_ok tail_hash {registry_key_of ?n} t1"
    using rt_read_ok(1) [OF new(1,2), of tail_hash "registry_key_of ?n"] new(3) r0(1)
    by (auto simp: tree_root_empty EMPTY_HASH_def)
  obtain ss t2 where t2: "rt_getSiblings tail_hash (registry_key_of ?n) t1 = Inr (ss, t2)" "rt_ok tail_hash {registry_key_of ?n} t2"
    using rt.siblings_of_ok [OF t1(3), of "registry_key_of ?n"] by blast
  obtain r t3 where t3: "rt_getRoot tail_hash (rt_put (registry_key_of ?n) REGISTERED_ESCROW_SHARD_VALUE t2) = Inr (r, t3)"
    using rt.root_of_ok [OF rt.ok_put [OF t2(2), of "registry_key_of ?n"]] by blast
  have key: "transferEscrowShardRegistryKey ?n = Inr (registry_key_of ?n)"
    unfolding registry_key_iff registry_key_of_def by (intro conjI refl) code_simp
  have scan: "foldE (scan_shard zero_blake ?deps) [example_root_utxo] ([], new_tree) = Inr ([], new_tree)"
    by (simp add: scan_shard_def example_registry_facts)
  have fields: "findUtxosAt ?deps = (\<lambda>_. Inr [example_root_utxo])" "encodeTransferEscrowDatum ?deps = (\<lambda>_. Inr ''s'')"
    "transferModuleIdentifier ?deps = ''root''" "createRegistryTree ?deps = None" "encodeTransferModuleDatum ?deps = Inr"
    by (simp_all add: example_registry_def)
  obtain refs where "check_outRefs [example_root_utxo] = Inr refs" using example_registry_facts(8) by blast
  then show ?thesis
    unfolding find_shard_def Let_def example_registry_facts(1) fields example_denom_token example_token_name bindE_simps scan root
      option.case example_registry_facts(3)
    using example_registry_facts(2) t1(1) t2(1) t3
    by (simp add: throwIf_eval registryRoot_def registrySiblings_def collision_wrapped_def missing_shard_def key fields rt_put_def)
qed

theorem missing_shard_can_be_created_witness:
  "\<exists>new siblings. registry_transition tail_hash zero_blake (replicate 32 0) new (utf8 ''channel-0'')
    (utf8 (to_hex (utf8 ''lovelace''))) siblings"
proof -
  obtain ss enc where f: "find_shard tail_hash zero_blake (example_registry [example_root_utxo] EMPTY_REGISTRY_ROOT) example_channel
      example_denom ''lovelace'' None = Inr (MissingShard example_root_utxo ''s'' (example_policy @ replicate 56 (CHR ''0'')) ss enc)"
    using example_missing by blast
  have c: "createRegistryTree (example_registry [example_root_utxo] EMPTY_REGISTRY_ROOT) = None" by (simp add: example_registry_def)
  have r0: "EMPTY_REGISTRY_ROOT = to_hex (replicate 32 0)" "lower_hex_of_length 64 EMPTY_REGISTRY_ROOT" by code_simp+
  have "on_chain_root (example_registry [example_root_utxo] EMPTY_REGISTRY_ROOT) example_root_utxo = Inr (to_hex (replicate 32 0))"
    using r0 by (simp add: on_chain_root_def example_registry_def example_root_utxo_def)
  with missing_shard_can_be_created [OF tail_hash_spec tail_hash_commits c f] show ?thesis
    by (auto simp: example_channel_def example_denom_def from_hex_to_hex)
qed

text \<open>
  C30. Using a shard: an existing shard the lookup returns is the only output at the module's
  address with the NFT of the channel and denomination, holds that NFT once, carries the datum of
  the channel and denomination, contains besides ada only the requested asset, and covers the
  requested amount. (The codec of the datum is assumed to decode what it encodes.)
\<close>

theorem existing_shard_is_the_shard:
  assumes "createRegistryTree deps = None"
    and codec: "\<And>s. encodeTransferEscrowDatum deps \<lparr>es_channel_id = channelId, es_denom = packetDenom\<rparr> = Inr s \<Longrightarrow>
      decodeTransferEscrowDatum deps s = Inr \<lparr>es_channel_id = channelId, es_denom = packetDenom\<rparr>"
    and found: "find_shard sha blake deps channelId packetDenom denomToken amount = Inr (ExistingShard m u encodedDatum unit)"
  shows "\<exists>us. findUtxosAt deps (reg_transferModuleAddress deps) = Inr us \<and> u \<in> set us \<and>
    (\<forall>v \<in> set us. unit \<in> fst ` set (assets v) \<longrightarrow> v = u) \<and> map_of (assets u) unit = Some 1 \<and>
    encodeTransferEscrowDatum deps \<lparr>es_channel_id = channelId, es_denom = packetDenom\<rparr> = Inr encodedDatum \<and>
    inline_datum u = Some encodedDatum \<and> fst ` set (assets u) \<subseteq> {''lovelace'', denomToken, unit} \<and>
    (\<forall>a. amount = Some a \<longrightarrow> a \<le> (case map_of (assets u) denomToken of Some q \<Rightarrow> q | None \<Rightarrow> 0))"
proof -
  obtain us m0 ed n root st t' where f: "escrowDatumDenomToken packetDenom = Inr denomToken"
    "encodeTransferEscrowDatum deps \<lparr>es_channel_id = channelId, es_denom = packetDenom\<rparr> = Inr ed"
    "findUtxosAt deps (reg_transferModuleAddress deps) = Inr us" "scan_inv blake deps us st"
    "(case map_of (fst st) (shardPolicyId deps @ n) of
        Some u \<Rightarrow> existing_shard deps m0 u ed (shardPolicyId deps @ n) denomToken amount
      | None \<Rightarrow> missing_shard sha deps t' m0 ed (shardPolicyId deps @ n) n) = Inr (ExistingShard m u encodedDatum unit)"
    by (rule find_shard_Inr [OF found assms(1)]) blast
  have "missing_shard sha deps t' m0 ed (shardPolicyId deps @ n) n \<noteq> Inr (ExistingShard m u encodedDatum unit)"
    by (auto elim!: missing_shard_Inr)
  with f(5) obtain v where "map_of (fst st) (shardPolicyId deps @ n) = Some v"
    "existing_shard deps m0 v ed (shardPolicyId deps @ n) denomToken amount = Inr (ExistingShard m u encodedDatum unit)"
    by (auto split: option.splits)
  then have e: "map_of (fst st) unit = Some u" "unit = shardPolicyId deps @ n" "ed = encodedDatum" "inline_datum u = Some encodedDatum"
    "\<forall>a. amount = Some a \<longrightarrow> a \<le> (case map_of (assets u) denomToken of Some q \<Rightarrow> q | None \<Rightarrow> 0)"
    by (simp_all add: existing_shard_Inr)
  have u: "u \<in> set us" "canonical_shard blake deps unit u" using f(4) e(1) by (simp_all add: scan_inv_def)
  have only: "\<forall>v \<in> set us. unit \<in> fst ` set (assets v) \<longrightarrow> v = u"
  proof (intro ballI impI)
    fix v
    assume "v \<in> set us" "unit \<in> fst ` set (assets v)"
    from shard_of_unit [OF f(4) this(1), of n] this(2) e(1,2) show "v = u" by simp
  qed
  have one: "map_of (assets u) unit = Some 1"
    using u(2) shard_unit_entry [of "shardPolicyId deps" u unit 1 unit] e(2) by (auto simp: canonical_shard_def)
  have "fst ` set (assets u) \<subseteq> {''lovelace'', denomToken, unit}"
  proof -
    obtain s d t where c: "inline_datum u = Some s" "decodeTransferEscrowDatum deps s = Inr d" "escrowDatumDenomToken (es_denom d) = Inr t"
      "fst ` set (assets u) \<subseteq> {''lovelace'', t, unit}"
      using u(2) unfolding canonical_shard_def by blast
    then have "d = \<lparr>es_channel_id = channelId, es_denom = packetDenom\<rparr>" using codec [OF f(2)] e(3,4) by simp
    with c(3,4) f(1) show ?thesis by simp
  qed
  then show ?thesis using f(2,3) e(3) by (intro exI [of _ us] conjI only one e(4,5) u(1)) simp_all
qed

definition one_shard_root :: string where
  "one_shard_root = to_hex (tree_root tail_hash [(registry_key_of (replicate 56 (CHR ''0'')), [1])])"

lemma example_existing:
  "find_shard tail_hash zero_blake (example_registry [example_root_utxo, example_shard_utxo] one_shard_root) example_channel example_denom
    ''lovelace'' (Some 5) = Inr (ExistingShard example_root_utxo example_shard_utxo ''s'' (example_policy @ replicate 56 (CHR ''0'')))"
proof -
  let ?deps = "example_registry [example_root_utxo, example_shard_utxo] one_shard_root"
  let ?n = "replicate 56 (CHR ''0'')" and ?t = "rt_put (registry_key_of (replicate 56 (CHR ''0''))) [1] new_tree"
  have ls: "leaves ?t = [(registry_key_of ?n, [1])]" "dirty ?t"
    by (simp_all add: rt_put_leaves store_leaf_def new_tree_def)
  then obtain t1 where t1: "rt_getRoot tail_hash ?t = Inr (one_shard_root, t1)"
    using rt_read_ok(1) [of ?t tail_hash "registry_key_of ?n"] by (auto simp: leaves_wf_def one_shard_root_def)
  have "hash32 tail_hash" using tail_hash_spec by (simp add: sha256_spec_def)
  then have "length one_shard_root = 64"
    using rt.digest_length [OF _ rt_read_ok(2) [of ?t tail_hash "registry_key_of ?n"]] ls
    by (simp add: one_shard_root_def leaves_wf_def)
  then have root: "on_chain_root ?deps example_root_utxo = Inr one_shard_root"
    by (simp add: on_chain_root_def example_registry_def example_root_utxo_def lower_hex_of_length_def one_shard_root_def to_hex_lower)
  have key: "transferEscrowShardRegistryKey ?n = Inr (registry_key_of ?n)"
    unfolding registry_key_iff registry_key_of_def by (intro conjI refl) code_simp
  have fields: "findUtxosAt ?deps = (\<lambda>_. Inr [example_root_utxo, example_shard_utxo])" "encodeTransferEscrowDatum ?deps = (\<lambda>_. Inr ''s'')"
    "transferModuleIdentifier ?deps = ''root''" "createRegistryTree ?deps = None"
    "decodeTransferEscrowDatum ?deps ''s'' = Inr \<lparr>es_channel_id = example_channel, es_denom = example_denom\<rparr>"
    by (simp_all add: example_registry_def)
  have sh: "inline_datum example_shard_utxo = Some ''s''" "map_of (assets example_shard_utxo) ''lovelace'' = Some 7"
    "map fst (assets example_shard_utxo) = [''lovelace'', example_policy @ ?n]"
    by (simp_all add: example_shard_utxo_def)
  have scan: "foldE (scan_shard zero_blake ?deps) [example_root_utxo, example_shard_utxo] ([], new_tree) =
      Inr ([(example_policy @ ?n, example_shard_utxo)], ?t)"
    by (simp add: scan_shard_def example_registry_facts decode_shard_datum_def sh fields example_denom_token example_token_name key
        throwIf_eval js_has_def REGISTERED_ESCROW_SHARD_VALUE_def rt_put_def)
  obtain refs where "check_outRefs [example_root_utxo, example_shard_utxo] = Inr refs" using example_registry_facts(9) by blast
  then show ?thesis
    unfolding find_shard_def Let_def example_registry_facts(1) fields(1-4) example_denom_token example_token_name bindE_simps scan root
      option.case example_registry_facts(4)
    using example_registry_facts(2) t1
    by (simp add: throwIf_eval registryRoot_def collision_wrapped_def existing_shard_def sh)
qed

theorem existing_shard_is_the_shard_witness:
  "\<exists>us. example_shard_utxo \<in> set us \<and> inline_datum example_shard_utxo = Some ''s'' \<and>
    (5 :: int) \<le> (case map_of (assets example_shard_utxo) ''lovelace'' of Some q \<Rightarrow> q | None \<Rightarrow> 0)"
proof -
  have c: "createRegistryTree (example_registry [example_root_utxo, example_shard_utxo] one_shard_root) = None"
    by (simp add: example_registry_def)
  have codec: "decodeTransferEscrowDatum (example_registry [example_root_utxo, example_shard_utxo] one_shard_root) s =
      Inr \<lparr>es_channel_id = example_channel, es_denom = example_denom\<rparr>"
    if "encodeTransferEscrowDatum (example_registry [example_root_utxo, example_shard_utxo] one_shard_root)
      \<lparr>es_channel_id = example_channel, es_denom = example_denom\<rparr> = Inr s" for s
    using that by (simp add: example_registry_def)
  from existing_shard_is_the_shard [OF c codec example_existing] show ?thesis by blast
qed

text \<open>
  C31. The name of a shard: for hexadecimal arguments of any length the builder derives the token
  name and the registry key the validators derive, and fails exactly where they do; and since the
  hashed text frames channel and denomination with their lengths, two different pairs have
  different texts, so shards share a name only if blake2b-224 collides.
\<close>

theorem shard_name_matches_chain:
  "(even (length c) \<and> list_all is_hex c \<and> even (length d) \<and> list_all is_hex d \<longrightarrow>
     (transferEscrowShardTokenName blake c d = Inr n \<longleftrightarrow>
       (\<exists>m. shard_token_name blake (from_hex c) (from_hex d) = Some m \<and> n = to_hex m))) \<and>
   (transferEscrowShardTokenName blake c d = Inr n \<and> transferEscrowShardRegistryKey n = Inr k \<longrightarrow>
     shard_registry_key blake (from_hex c) (from_hex d) = Some (utf8 k)) \<and>
   (shard_token_preimage x y = Some p \<and> shard_token_preimage x' y' = Some p \<longrightarrow> x = x' \<and> y = y')"
proof (intro conjI impI)
  show "shard_registry_key blake (from_hex c) (from_hex d) = Some (utf8 k)"
    if "transferEscrowShardTokenName blake c d = Inr n \<and> transferEscrowShardRegistryKey n = Inr k"
    using that registry_key_on_chain [of blake c d n] by (simp add: registry_key_iff)
qed (use preimage_injective in \<open>auto simp: token_name_iff\<close>)

theorem shard_name_matches_chain_witness:
  "shard_registry_key zero_blake (utf8 ''channel-0'') (utf8 (to_hex (utf8 ''lovelace''))) =
     Some (utf8 (''escrowShards/'' @ replicate 56 (CHR ''0'')))"
proof -
  have "transferEscrowShardRegistryKey (replicate 56 (CHR ''0'')) = Inr (''escrowShards/'' @ replicate 56 (CHR ''0''))"
    unfolding registry_key_iff by (intro conjI refl) code_simp
  with shard_name_matches_chain [of example_channel example_denom zero_blake "replicate 56 (CHR ''0'')"] example_token_name
  show ?thesis by (simp add: example_channel_def example_denom_def from_hex_to_hex)
qed

text \<open>
  C32. Builder and registry agree on denominations: whenever the transaction builder resolves a
  transfer to a packet denomination and an asset of the wallet, the shard lookup maps that packet
  denomination to the same asset, so the lookup never refuses the
  builder's request for a mismatch. The input denomination has no surrounding space and the wallet
  holds units as the ledger writes them.
\<close>

theorem escrow_lookup_accepts_builder_denom:
  assumes "resolvePacketDenomForSend resolve bad inputDenom = Inr resolvedDenom"
    and "normalizePacketDenom bad resolvedDenom portId channelId = Inr packetDenom"
    and "resolveEscrowDenomToken bad inputDenom resolvedDenom wallet = Inr denomToken"
    and "\<forall>u \<in> set wallet. \<forall>a \<in> fst ` set (assets u). ledger_unit a"
    and "js_trim inputDenom = inputDenom"
  shows "escrowDatumDenomToken (convertStringToHex packetDenom) = Inr denomToken"
proof -
  note u = escrow_unit_and_packet_denom [OF assms]
  have hex: "list_all is_hex packetDenom"
    using u to_lower_hex_text [of packetDenom] is_hex_to_hex by (auto simp: ledger_unit_def split: if_splits)
  have "ascii packetDenom" using hex by (simp add: ascii_hex)
  then have t: "utf8_text (utf8 packetDenom) = packetDenom" using ascii_well_formed by (simp add: well_formed_def)
  have "decodeHexBytes (convertStringToHex packetDenom) l = Inr (utf8 packetDenom)" for l
    by (simp add: decodeHexBytes_iff convertStringToHex_def is_hex_to_hex from_hex_to_hex utf8_def)
  note start = this t
  show ?thesis
  proof (cases "denomToken = LOVELACE")
    case True
    have "to_lower (to_hex (utf8 LOVELACE)) = to_hex (utf8 LOVELACE)" by code_simp
    with True u start show ?thesis by (simp add: escrowDatumDenomToken_def Let_def LOVELACE_def)
  next
    case False
    with u have d: "to_lower packetDenom = denomToken" "even (length denomToken)" "56 \<le> length denomToken" "length denomToken \<le> 120"
      by (auto simp: ledger_unit_def)
    have "length (to_hex (utf8 ''lovelace'')) = 16" by code_simp
    with d have "denomToken \<noteq> to_hex (utf8 ''lovelace'')" by auto
    moreover have "length packetDenom = length denomToken" using d(1) by auto
    moreover from this d(3) have "packetDenom \<noteq> []" by auto
    ultimately show ?thesis using start hex d by (auto simp: escrowDatumDenomToken_def Let_def throwIf_eval)
  qed
qed

theorem escrow_lookup_accepts_builder_denom_witness:
  "escrowDatumDenomToken (convertStringToHex (to_hex (utf8 LOVELACE))) = Inr LOVELACE"
  by (rule escrow_lookup_accepts_builder_denom [OF lovelace_resolution])

end
