(* ===== verification/Voucher.thy ===== *)
theory Voucher
  imports Escrow_Shard "HOL-Library.Product_Lexorder" "HOL-Library.List_Lexorder" "HOL-Library.Char_ord"
begin

section \<open>Vouchers\<close>

text \<open>
  \<open>packages/cardano-ibc-trace-registry/src/voucher.ts\<close>: tokens of other chains exist on Cardano as
  vouchers. The asset name of a voucher is a CIP-67 label followed by the hash of its
  denomination; a reference NFT with the other label carries metadata as a CIP-68 datum. The
  theory models names, the splitting of a denomination into path and base, and the datum with its
  codec, and compares them with \<open>voucher_asset_name.ak\<close> and \<open>voucher_metadata.ak\<close> on chain. Plutus
  data is a datatype; byte strings are hexadecimal text as in the source. Its CBOR codec is
  Lucid's and a parameter.
\<close>

datatype plutus =
    PConstr nat "plutus list"
  | PMap "(plutus \<times> plutus) list"
  | PList "plutus list"
  | PInt int
  | PBytes string

subsection \<open>Names\<close>

definition CIP67_REFERENCE_NFT_LABEL_HEX :: string where
  "CIP67_REFERENCE_NFT_LABEL_HEX = ''000643b0''"

definition VOUCHER_DENOM_HASH_HEX_LENGTH :: nat where
  "VOUCHER_DENOM_HASH_HEX_LENGTH = 56"

definition LABELED_VOUCHER_TOKEN_NAME_HEX_LENGTH :: nat where
  "LABELED_VOUCHER_TOKEN_NAME_HEX_LENGTH = 64"

definition VOUCHER_METADATA_VERSION :: int where
  "VOUCHER_METADATA_VERSION = 1"

datatype voucher_label_kind = Ft | ReferenceNft

record parsed_voucher_asset_name =
  label_kind :: voucher_label_kind
  voucherDenomHash :: string

definition buildVoucherDenomHashFromFullDenom :: "hash_fun \<Rightarrow> string \<Rightarrow> string" where
  "buildVoucherDenomHashFromFullDenom blake fullDenom = to_lower (to_hex (blake (utf8 fullDenom)))"

definition buildIbcDenomHashFromFullDenom :: "hash_fun \<Rightarrow> string \<Rightarrow> string" where
  "buildIbcDenomHashFromFullDenom sha fullDenom = to_lower (to_hex (sha (utf8 fullDenom)))"

definition normalizeVoucherDenomHash :: "string \<Rightarrow> string result" where
  "normalizeVoucherDenomHash hash =
     (let normalized = to_lower (js_trim hash) in
      bindE (throwIf (\<not> (length normalized = VOUCHER_DENOM_HASH_HEX_LENGTH \<and> list_all is_hex normalized))
               (Error (''Invalid voucher denom hash: expected '' @ dec_string VOUCHER_DENOM_HASH_HEX_LENGTH @
                  '' hex characters, received '' @ hash)))
        (\<lambda>_. Inr normalized))"

definition buildVoucherUserTokenNameFromDenomHash :: "string \<Rightarrow> string result" where
  "buildVoucherUserTokenNameFromDenomHash hash =
     bindE (normalizeVoucherDenomHash hash) (\<lambda>h. Inr (CIP67_FT_LABEL_HEX @ h))"

definition buildVoucherReferenceTokenNameFromDenomHash :: "string \<Rightarrow> string result" where
  "buildVoucherReferenceTokenNameFromDenomHash hash =
     bindE (normalizeVoucherDenomHash hash) (\<lambda>h. Inr (CIP67_REFERENCE_NFT_LABEL_HEX @ h))"

definition buildVoucherUserTokenNameFromFullDenom :: "hash_fun \<Rightarrow> string \<Rightarrow> string result" where
  "buildVoucherUserTokenNameFromFullDenom blake fullDenom =
     buildVoucherUserTokenNameFromDenomHash (buildVoucherDenomHashFromFullDenom blake fullDenom)"

definition buildVoucherReferenceTokenNameFromFullDenom :: "hash_fun \<Rightarrow> string \<Rightarrow> string result" where
  "buildVoucherReferenceTokenNameFromFullDenom blake fullDenom =
     buildVoucherReferenceTokenNameFromDenomHash (buildVoucherDenomHashFromFullDenom blake fullDenom)"

definition buildVoucherAssetId :: "string \<Rightarrow> string \<Rightarrow> string" where
  "buildVoucherAssetId policy tokenName = to_lower policy @ to_lower tokenName"

definition deriveVoucherReferenceAssetId :: "string \<Rightarrow> string \<Rightarrow> string result" where
  "deriveVoucherReferenceAssetId policy hash =
     bindE (buildVoucherReferenceTokenNameFromDenomHash hash) (\<lambda>n. Inr (buildVoucherAssetId policy n))"

definition parseVoucherAssetName :: "string \<Rightarrow> parsed_voucher_asset_name option" where
  "parseVoucherAssetName assetNameHex =
     (let normalized = to_lower (js_trim assetNameHex) in
      if length normalized \<noteq> LABELED_VOUCHER_TOKEN_NAME_HEX_LENGTH then None
      else if \<not> list_all is_hex normalized then None
      else let label = take 8 normalized; hash = drop 8 normalized in
        if label = CIP67_FT_LABEL_HEX then Some \<lparr>label_kind = Ft, voucherDenomHash = hash\<rparr>
        else if label = CIP67_REFERENCE_NFT_LABEL_HEX then Some \<lparr>label_kind = ReferenceNft, voucherDenomHash = hash\<rparr>
        else None)"

definition expectVoucherAssetName :: "string \<Rightarrow> parsed_voucher_asset_name result" where
  "expectVoucherAssetName assetNameHex =
     (case parseVoucherAssetName assetNameHex of
        None \<Rightarrow> Inl (Error (''Invalid CIP-67 voucher asset name: expected 32-byte (333) or (100) labeled asset name, received ''
          @ assetNameHex))
      | Some p \<Rightarrow> Inr p)"

definition isVoucherAssetName :: "string \<Rightarrow> bool" where
  "isVoucherAssetName n = (parseVoucherAssetName n \<noteq> None)"

definition isVoucherUserTokenName :: "string \<Rightarrow> bool" where
  "isVoucherUserTokenName n = (map_option label_kind (parseVoucherAssetName n) = Some Ft)"

definition isVoucherReferenceTokenName :: "string \<Rightarrow> bool" where
  "isVoucherReferenceTokenName n = (map_option label_kind (parseVoucherAssetName n) = Some ReferenceNft)"

subsection \<open>Denominations\<close>

definition channel_id_segment :: "string \<Rightarrow> bool" where
  "channel_id_segment s = (prefix ''channel-'' s \<and> digits (drop 8 s))"

definition looksLikePortId :: "string \<Rightarrow> bool" where
  "looksLikePortId segment = (length segment > 0)"

text \<open>The loop over \<open>cursor\<close>.\<close>

function trace_cursor :: "string list \<Rightarrow> nat \<Rightarrow> nat" where
  "trace_cursor segments cursor =
     (if cursor + 1 < length segments then
        if \<not> looksLikePortId (segments ! cursor) \<or> \<not> channel_id_segment (segments ! (cursor + 1)) then cursor
        else trace_cursor segments (cursor + 2)
      else cursor)"
  by pat_completeness auto
termination by (relation "measure (\<lambda>(segments, cursor). length segments - cursor)") auto

declare trace_cursor.simps [simp del]

definition splitFullDenomTrace :: "string \<Rightarrow> denom_trace result" where
  "splitFullDenomTrace fullDenomPath =
     (let normalized = js_trim fullDenomPath in
      bindE (throwIf (normalized = []) (Error ''Denom trace cannot be empty'')) (\<lambda>_.
      let segments = split_on (CHR ''/'') normalized in
      bindE (throwIf (list_ex (\<lambda>s. length s = 0) segments)
               (Error (''Denom trace contains empty path segments: '' @ fullDenomPath))) (\<lambda>_.
      let cursor = trace_cursor segments 0;
          baseSegments = drop cursor segments in
      bindE (throwIf (length baseSegments = 0)
               (Error (''Denom trace is missing base denomination: '' @ fullDenomPath))) (\<lambda>_.
      Inr \<lparr>path = join_with ''/'' (take cursor segments), baseDenom = join_with ''/'' baseSegments\<rparr>))))"

definition deriveVoucherCanonicalLabel :: "string \<Rightarrow> string" where
  "deriveVoucherCanonicalLabel base =
     (let trimmed = js_trim base in
      if trimmed = [] then ''IBC''
      else case filter (\<lambda>s. s \<noteq> []) (split_on (CHR ''/'') trimmed) of [] \<Rightarrow> trimmed | xs \<Rightarrow> last xs)"

record voucher_presentation =
  displayName :: string
  displaySymbol :: string
  displayDescription :: string

definition deriveVoucherPresentation :: "string \<Rightarrow> string \<Rightarrow> voucher_presentation" where
  "deriveVoucherPresentation fullDenom base =
     \<lparr>displayName = (if js_trim fullDenom = [] then ''IBC'' else js_trim fullDenom),
      displaySymbol = deriveVoucherCanonicalLabel base,
      displayDescription = ''IBC voucher for '' @ fullDenom\<rparr>"

subsection \<open>Metadata\<close>

record voucher_extra =
  ex_path :: string
  ex_baseDenom :: string
  ex_fullDenom :: string
  ex_voucherTokenName :: string
  ex_voucherPolicyId :: string
  ex_ibcDenomHash :: string

record cip68_metadata =
  md_name :: string
  md_description :: string
  md_ticker :: string
  md_decimals :: "int option"
  md_url :: "string option"
  md_logo :: "string option"
  md_version :: int
  md_extra :: voucher_extra
  md_traceVersion :: int

definition buildVoucherCip68Metadata :: "voucher_extra \<Rightarrow> cip68_metadata" where
  "buildVoucherCip68Metadata params =
     (let presentation = deriveVoucherPresentation (ex_fullDenom params) (ex_baseDenom params) in
      \<lparr>md_name = displaySymbol presentation, md_description = displayDescription presentation,
       md_ticker = displaySymbol presentation, md_decimals = None, md_url = None, md_logo = None,
       md_version = VOUCHER_METADATA_VERSION, md_extra = params, md_traceVersion = VOUCHER_METADATA_VERSION\<rparr>)"

definition toDataKey :: "string \<Rightarrow> plutus" where
  "toDataKey value = PBytes (to_hex (utf8 value))"

definition toDataBytes :: "string \<Rightarrow> plutus" where
  "toDataBytes value = PBytes (to_hex (utf8 value))"

definition metadata_map :: "cip68_metadata \<Rightarrow> (plutus \<times> plutus) list" where
  "metadata_map m =
     [(toDataKey ''name'', toDataBytes (md_name m)), (toDataKey ''description'', toDataBytes (md_description m))] @
     (if md_ticker m \<noteq> [] then [(toDataKey ''ticker'', toDataBytes (md_ticker m))] else []) @
     (case md_decimals m of Some d \<Rightarrow> [(toDataKey ''decimals'', PInt d)] | None \<Rightarrow> []) @
     (case md_url m of Some u \<Rightarrow> if u \<noteq> [] then [(toDataKey ''url'', toDataBytes u)] else [] | None \<Rightarrow> []) @
     (case md_logo m of Some l \<Rightarrow> if l \<noteq> [] then [(toDataKey ''logo'', toDataBytes l)] else [] | None \<Rightarrow> [])"

definition extra_map :: "cip68_metadata \<Rightarrow> (plutus \<times> plutus) list" where
  "extra_map m =
     [(toDataKey ''path'', toDataBytes (ex_path (md_extra m))),
      (toDataKey ''baseDenom'', toDataBytes (ex_baseDenom (md_extra m))),
      (toDataKey ''fullDenom'', toDataBytes (ex_fullDenom (md_extra m))),
      (toDataKey ''voucherTokenName'', toDataBytes (ex_voucherTokenName (md_extra m))),
      (toDataKey ''voucherPolicyId'', toDataBytes (ex_voucherPolicyId (md_extra m))),
      (toDataKey ''ibcDenomHash'', toDataBytes (ex_ibcDenomHash (md_extra m))),
      (toDataKey ''traceVersion'', PInt (md_traceVersion m))]"

definition voucher_data :: "cip68_metadata \<Rightarrow> plutus" where
  "voucher_data m = PConstr 0 [PMap (metadata_map m), PInt (md_version m), PMap (extra_map m)]"

definition encodeVoucherCip68MetadataDatum :: "(plutus \<Rightarrow> string) \<Rightarrow> cip68_metadata \<Rightarrow> string" where
  "encodeVoucherCip68MetadataDatum to_cbor m = to_cbor (voucher_data m)"

definition expectMetadataConstr :: "plutus \<Rightarrow> nat \<Rightarrow> plutus list result" where
  "expectMetadataConstr v expectedIndex =
     (case v of
        PConstr i fs \<Rightarrow>
          bindE (throwIf (i \<noteq> expectedIndex)
                   (Error (''Unexpected CIP-68 voucher metadata constructor index '' @ dec_string i @ '', expected '' @
                      dec_string expectedIndex)))
            (\<lambda>_. Inr fs)
      | _ \<Rightarrow> Inl (Error ''Expected CIP-68 voucher metadata constructor data''))"

definition fromHexUtf8 :: "string \<Rightarrow> string" where
  "fromHexUtf8 value = utf8_text (from_hex value)"

definition field :: "nat \<Rightarrow> plutus list \<Rightarrow> plutus option" where
  "field i fs = (if i < length fs then Some (fs ! i) else None)"

definition add_entry :: "plutus \<Rightarrow> plutus \<Rightarrow> (string, plutus) jsmap \<Rightarrow> (string, plutus) jsmap result" where
  "add_entry key item normalized =
     (case key of PBytes k \<Rightarrow> Inr (AList.update (fromHexUtf8 k) item normalized)
      | _ \<Rightarrow> Inl (Error ''Invalid CIP-68 voucher metadata map key''))"

definition toEntriesMap :: "plutus option \<Rightarrow> (string, plutus) jsmap result" where
  "toEntriesMap v =
     (case v of
        Some (PMap entries) \<Rightarrow> foldE (\<lambda>(k, x). add_entry k x) entries []
      | Some (PList entries) \<Rightarrow>
          foldE (\<lambda>e m. case e of
              PList [k, x] \<Rightarrow> add_entry k x m
            | _ \<Rightarrow> Inl (Error ''Invalid CIP-68 voucher metadata map entry'')) entries []
      | _ \<Rightarrow> Inl (Error ''Expected CIP-68 voucher metadata map''))"

definition decodeRequiredBytes :: "(string, plutus) jsmap \<Rightarrow> string \<Rightarrow> string result" where
  "decodeRequiredBytes m key =
     (case map_of m key of Some (PBytes v) \<Rightarrow> Inr (fromHexUtf8 v)
      | _ \<Rightarrow> Inl (Error (''Missing required CIP-68 voucher metadata field '' @ CHR 0x22 # key @ [CHR 0x22])))"

text \<open>\<open>Number\<close> of a bigint.\<close>

definition js_Number_int :: "int \<Rightarrow> int" where
  "js_Number_int i = sgn i * int (js_Number (nat \<bar>i\<bar>))"

definition decodeRequiredInteger :: "(string, plutus) jsmap \<Rightarrow> string \<Rightarrow> int result" where
  "decodeRequiredInteger m key =
     (case map_of m key of Some (PInt i) \<Rightarrow> Inr (js_Number_int i)
      | _ \<Rightarrow> Inl (Error (''Missing required CIP-68 voucher metadata integer '' @ CHR 0x22 # key @ [CHR 0x22])))"

definition decodeOptionalInteger :: "(string, plutus) jsmap \<Rightarrow> string \<Rightarrow> int option result" where
  "decodeOptionalInteger m key =
     (case map_of m key of None \<Rightarrow> Inr None | Some (PInt i) \<Rightarrow> Inr (Some (js_Number_int i))
      | _ \<Rightarrow> Inl (Error (''Invalid CIP-68 voucher metadata integer '' @ CHR 0x22 # key @ [CHR 0x22])))"

definition decodeOptionalUri :: "(string, plutus) jsmap \<Rightarrow> string \<Rightarrow> string option result" where
  "decodeOptionalUri m key =
     (case map_of m key of
        None \<Rightarrow> Inr None
      | Some (PBytes v) \<Rightarrow> Inr (Some (fromHexUtf8 v))
      | Some (PList parts) \<Rightarrow>
          bindE (mapE (\<lambda>part. case part of PBytes v \<Rightarrow> Inr (fromHexUtf8 v)
              | _ \<Rightarrow> Inl (Error (''Invalid CIP-68 voucher metadata URI part for '' @ CHR 0x22 # key @ [CHR 0x22]))) parts)
            (\<lambda>ts. Inr (Some (concat ts)))
      | _ \<Rightarrow> Inl (Error (''Invalid CIP-68 voucher metadata URI '' @ CHR 0x22 # key @ [CHR 0x22])))"

definition decode_extra :: "(string, plutus) jsmap \<Rightarrow> (voucher_extra \<times> int) result" where
  "decode_extra m =
     bindE (decodeRequiredBytes m ''path'') (\<lambda>p.
     bindE (decodeRequiredBytes m ''baseDenom'') (\<lambda>b.
     bindE (decodeRequiredBytes m ''fullDenom'') (\<lambda>f.
     bindE (decodeRequiredBytes m ''voucherTokenName'') (\<lambda>n.
     bindE (decodeRequiredBytes m ''voucherPolicyId'') (\<lambda>pol.
     bindE (decodeRequiredBytes m ''ibcDenomHash'') (\<lambda>h.
     bindE (decodeRequiredInteger m ''traceVersion'') (\<lambda>v.
     Inr (\<lparr>ex_path = p, ex_baseDenom = b, ex_fullDenom = f, ex_voucherTokenName = n, ex_voucherPolicyId = pol, ex_ibcDenomHash = h\<rparr>, v))))))))"

definition decodeVoucherCip68MetadataDatum :: "(string \<Rightarrow> plutus result) \<Rightarrow> string \<Rightarrow> cip68_metadata result" where
  "decodeVoucherCip68MetadataDatum from_cbor encodedDatum =
     bindE (from_cbor encodedDatum) (\<lambda>decoded.
     bindE (expectMetadataConstr decoded 0) (\<lambda>fs.
     bindE (toEntriesMap (field 0 fs)) (\<lambda>metadataMap.
     bindE (toEntriesMap (field 2 fs)) (\<lambda>extraMap.
     case field 1 fs of
       Some (PInt v) \<Rightarrow>
         bindE (decodeRequiredBytes metadataMap ''name'') (\<lambda>name.
         bindE (decodeRequiredBytes metadataMap ''description'') (\<lambda>description.
         bindE (decodeRequiredBytes metadataMap ''ticker'') (\<lambda>ticker.
         bindE (decodeOptionalInteger metadataMap ''decimals'') (\<lambda>decimals.
         bindE (decodeOptionalUri metadataMap ''url'') (\<lambda>url.
         bindE (decodeOptionalUri metadataMap ''logo'') (\<lambda>logo.
         bindE (decode_extra extraMap) (\<lambda>(extra, traceVersion).
         Inr \<lparr>md_name = name, md_description = description, md_ticker = ticker, md_decimals = decimals, md_url = url,
              md_logo = logo, md_version = js_Number_int v, md_extra = extra, md_traceVersion = traceVersion\<rparr>)))))))
     | _ \<Rightarrow> Inl (Error ''Invalid CIP-68 voucher metadata version'')))))"

definition decodeVerifiedVoucherCip68MetadataDatum :: "(plutus \<Rightarrow> string) \<Rightarrow> string \<Rightarrow> voucher_extra \<Rightarrow> cip68_metadata result" where
  "decodeVerifiedVoucherCip68MetadataDatum to_cbor encodedDatum params =
     (let expected = buildVoucherCip68Metadata params in
      bindE (throwIf (encodeVoucherCip68MetadataDatum to_cbor expected \<noteq> encodedDatum)
               (Error ''Voucher metadata datum does not match the canonical voucher metadata''))
        (\<lambda>_. Inr expected))"

subsection \<open>On chain\<close>

definition cip67_ft_label :: buffer where
  "cip67_ft_label = [0x00, 0x14, 0xdf, 0x10]"

definition cip67_reference_nft_label :: buffer where
  "cip67_reference_nft_label = [0x00, 0x06, 0x43, 0xb0]"

definition voucher_user_token_name :: "hash_fun \<Rightarrow> buffer \<Rightarrow> buffer option" where
  "voucher_user_token_name blake full_denom =
     (if length (blake full_denom) = 28 then Some (cip67_ft_label @ blake full_denom) else None)"

definition voucher_reference_token_name :: "hash_fun \<Rightarrow> buffer \<Rightarrow> buffer option" where
  "voucher_reference_token_name blake full_denom =
     (if length (blake full_denom) = 28 then Some (cip67_reference_nft_label @ blake full_denom) else None)"

definition is_valid_channel_id :: "buffer \<Rightarrow> bool" where
  "is_valid_channel_id ch = (if take 8 ch = utf8 ''channel-'' then is_uint_string (drop 8 ch) else False)"

text \<open>The continuation of \<open>do_split\<close> only prepends the segments found so far.\<close>

function do_split :: "buffer \<Rightarrow> byte \<Rightarrow> nat \<Rightarrow> buffer list" where
  "do_split str sep i =
     (if i \<ge> length str then [str]
      else if str ! i = sep then take i str # do_split (drop (i + 1) str) sep 0
      else do_split str sep (i + 1))"
  by pat_completeness auto
termination by (relation "measures [\<lambda>(str, sep, i). length str, \<lambda>(str, sep, i). length str - i]") auto

declare do_split.simps [simp del]

definition join_segments :: "buffer list \<Rightarrow> buffer" where
  "join_segments segments = foldl (\<lambda>acc segment. if acc = [] then segment else acc @ utf8 ''/'' @ segment) [] segments"

fun do_split_full_denom_trace :: "buffer list \<Rightarrow> buffer list \<Rightarrow> (buffer \<times> buffer) option" where
  "do_split_full_denom_trace [] rev_path = None"
| "do_split_full_denom_trace [base] rev_path = Some (join_segments (rev rev_path), base)"
| "do_split_full_denom_trace (maybe_port # maybe_channel # rest) rev_path =
     (if is_valid_channel_id maybe_channel then do_split_full_denom_trace rest (maybe_channel # maybe_port # rev_path)
      else Some (join_segments (rev rev_path), join_segments (maybe_port # maybe_channel # rest)))"

definition split_full_denom_trace :: "buffer \<Rightarrow> (buffer \<times> buffer) option" where
  "split_full_denom_trace full_denom =
     (let normalized = trim_space full_denom in
      if normalized = [] then None
      else let segments = do_split normalized 47 0 in
        if list_ex (\<lambda>s. s = []) segments then None else do_split_full_denom_trace segments [])"

definition canonical_label :: "buffer \<Rightarrow> buffer" where
  "canonical_label base_denom =
     (let trimmed = trim_space base_denom in
      if trimmed = [] then utf8 ''IBC''
      else foldl (\<lambda>current segment. if segment = [] then current else segment) (utf8 ''IBC'') (do_split trimmed 47 0))"

definition hex_ascii :: "buffer \<Rightarrow> buffer" where
  "hex_ascii bytes = ascii_lower (encode_base16 bytes)"

definition b_data :: "buffer \<Rightarrow> plutus" where
  "b_data bytes = PBytes (to_hex bytes)"

definition build_datum :: "hash_fun \<Rightarrow> buffer \<Rightarrow> buffer \<Rightarrow> buffer \<Rightarrow> plutus option" where
  "build_datum sha full_denom token_name policy =
     (case split_full_denom_trace full_denom of
        None \<Rightarrow> None
      | Some (p, base) \<Rightarrow>
          let label = canonical_label base in
          Some (PConstr 0
            [PMap [(b_data (utf8 ''name''), b_data label), (b_data (utf8 ''ticker''), b_data label),
                   (b_data (utf8 ''description''), b_data (utf8 ''IBC voucher for '' @ full_denom))],
             PInt 1,
             PMap [(b_data (utf8 ''path''), b_data p), (b_data (utf8 ''baseDenom''), b_data base),
                   (b_data (utf8 ''fullDenom''), b_data full_denom),
                   (b_data (utf8 ''ibcDenomHash''), b_data (hex_ascii (sha full_denom))),
                   (b_data (utf8 ''traceVersion''), PInt 1),
                   (b_data (utf8 ''voucherPolicyId''), b_data (hex_ascii policy)),
                   (b_data (utf8 ''voucherTokenName''), b_data (hex_ascii token_name))]]))"


section \<open>Names round-trip and agree\<close>

lemma lower_hex_no_space: "list_all is_lower_hex s \<Longrightarrow> js_trim s = s"
proof (rule js_trim_no_space)
  have "no_space c" if "is_lower_hex c" for c using that by (auto simp: is_lower_hex_def no_space_def Let_def)
  then show "list_all is_lower_hex s \<Longrightarrow> list_all no_space s" by (auto simp: list_all_iff)
qed

lemma lower_hex_is_hex: "list_all is_lower_hex s \<Longrightarrow> list_all is_hex s"
  by (auto simp: list_all_iff is_lower_hex_imp_is_hex)

lemma to_lower_is_lower_hex: "list_all is_hex (to_lower s) \<Longrightarrow> list_all is_lower_hex (to_lower s)"
proof -
  have "is_lower_hex (to_lower_char c)" if "is_hex (to_lower_char c)" for c
    using that by (auto simp: is_hex_def hex_val_def is_lower_hex_def to_lower_char_def Let_def split: if_splits)
  then show "list_all is_hex (to_lower s) \<Longrightarrow> list_all is_lower_hex (to_lower s)"
    by (auto simp: list_all_iff to_lower_def)
qed

lemma normalize_iff:
  "normalizeVoucherDenomHash h = Inr n \<longleftrightarrow> n = to_lower (js_trim h) \<and> length n = 56 \<and> list_all is_lower_hex n"
  using lower_hex_is_hex to_lower_is_lower_hex
  by (auto simp: normalizeVoucherDenomHash_def bindE_Inr_iff throwIf_iff Let_def VOUCHER_DENOM_HASH_HEX_LENGTH_def)

lemma normalize_lower: "length h = 56 \<Longrightarrow> list_all is_lower_hex h \<Longrightarrow> normalizeVoucherDenomHash h = Inr h"
  by (simp add: normalize_iff lower_hex_no_space to_lower_hex)

lemma labels_hex:
  "length CIP67_FT_LABEL_HEX = 8" "list_all is_lower_hex CIP67_FT_LABEL_HEX" "length CIP67_REFERENCE_NFT_LABEL_HEX = 8"
  "list_all is_lower_hex CIP67_REFERENCE_NFT_LABEL_HEX" "CIP67_FT_LABEL_HEX \<noteq> CIP67_REFERENCE_NFT_LABEL_HEX"
  by code_simp+

lemma parse_labelled:
  assumes "length h = 56" "list_all is_lower_hex h"
  shows "parseVoucherAssetName (CIP67_FT_LABEL_HEX @ h) = Some \<lparr>label_kind = Ft, voucherDenomHash = h\<rparr>"
    and "parseVoucherAssetName (CIP67_REFERENCE_NFT_LABEL_HEX @ h) = Some \<lparr>label_kind = ReferenceNft, voucherDenomHash = h\<rparr>"
proof -
  have "list_all is_lower_hex (l @ h)" if "list_all is_lower_hex l" for l using that assms by simp
  note l = lower_hex_no_space [OF this] to_lower_hex [OF this] lower_hex_is_hex [OF this]
  show "parseVoucherAssetName (CIP67_FT_LABEL_HEX @ h) = Some \<lparr>label_kind = Ft, voucherDenomHash = h\<rparr>"
    using l [OF labels_hex(2)] assms labels_hex
    by (simp add: parseVoucherAssetName_def LABELED_VOUCHER_TOKEN_NAME_HEX_LENGTH_def Let_def del: list_all_append)
  show "parseVoucherAssetName (CIP67_REFERENCE_NFT_LABEL_HEX @ h) = Some \<lparr>label_kind = ReferenceNft, voucherDenomHash = h\<rparr>"
    using l [OF labels_hex(4)] assms labels_hex labels_hex(5) [symmetric]
    by (simp add: parseVoucherAssetName_def LABELED_VOUCHER_TOKEN_NAME_HEX_LENGTH_def Let_def del: list_all_append)
qed

lemma parse_voucher_iff:
  "parseVoucherAssetName s = Some \<lparr>label_kind = Ft, voucherDenomHash = h\<rparr> \<longleftrightarrow>
     to_lower (js_trim s) = CIP67_FT_LABEL_HEX @ h \<and> length h = 56 \<and> list_all is_lower_hex h"
proof
  assume p: "parseVoucherAssetName s = Some \<lparr>label_kind = Ft, voucherDenomHash = h\<rparr>"
  then have n: "length (to_lower (js_trim s)) = 64" "list_all is_hex (to_lower (js_trim s))"
    "take 8 (to_lower (js_trim s)) = CIP67_FT_LABEL_HEX" "drop 8 (to_lower (js_trim s)) = h"
    by (auto simp: parseVoucherAssetName_def LABELED_VOUCHER_TOKEN_NAME_HEX_LENGTH_def Let_def split: if_splits)
  from to_lower_is_lower_hex [OF n(2)] n(4) have "list_all is_lower_hex h" by (auto simp: list_all_iff dest: in_set_dropD)
  moreover have "length h = 56" using n(1,4) by auto
  ultimately show "to_lower (js_trim s) = CIP67_FT_LABEL_HEX @ h \<and> length h = 56 \<and> list_all is_lower_hex h"
    using n(3,4) append_take_drop_id [of 8 "to_lower (js_trim s)"] by simp
next
  assume r: "to_lower (js_trim s) = CIP67_FT_LABEL_HEX @ h \<and> length h = 56 \<and> list_all is_lower_hex h"
  then have "list_all is_lower_hex (to_lower (js_trim s))" using labels_hex(2) by simp
  with r labels_hex(1) show "parseVoucherAssetName s = Some \<lparr>label_kind = Ft, voucherDenomHash = h\<rparr>"
    using lower_hex_is_hex [of "to_lower (js_trim s)"]
    by (simp add: parseVoucherAssetName_def LABELED_VOUCHER_TOKEN_NAME_HEX_LENGTH_def Let_def)
qed

text \<open>
  C36. Voucher names: the transaction builder, the registry and the minting policy give a
  denomination the same voucher name, and parsing that name, or the name of the reference NFT,
  returns the label and the denomination hash. (blake2b-224 is only assumed to return 28 bytes.)
\<close>

theorem voucher_name_agrees:
  assumes "length (blake (utf8 denom)) = 28"
  shows "(buildVoucherTokenName blake bad denom = Inr n \<longrightarrow> buildVoucherUserTokenNameFromFullDenom blake denom = Inr n) \<and>
    (\<exists>n. buildVoucherUserTokenNameFromFullDenom blake denom = Inr n \<and>
       voucher_user_token_name blake (utf8 denom) = Some (from_hex n) \<and>
       parseVoucherAssetName n = Some \<lparr>label_kind = Ft, voucherDenomHash = buildVoucherDenomHashFromFullDenom blake denom\<rparr>) \<and>
    (\<exists>r. buildVoucherReferenceTokenNameFromFullDenom blake denom = Inr r \<and>
       voucher_reference_token_name blake (utf8 denom) = Some (from_hex r) \<and>
       parseVoucherAssetName r = Some \<lparr>label_kind = ReferenceNft, voucherDenomHash = buildVoucherDenomHashFromFullDenom blake denom\<rparr>)"
proof -
  let ?h = "to_hex (blake (utf8 denom))"
  have h: "buildVoucherDenomHashFromFullDenom blake denom = ?h" "length ?h = 56" "list_all is_lower_hex ?h"
    using assms by (simp_all add: buildVoucherDenomHashFromFullDenom_def to_lower_hex to_hex_lower)
  have l: "CIP67_FT_LABEL_HEX = to_hex cip67_ft_label" "CIP67_REFERENCE_NFT_LABEL_HEX = to_hex cip67_reference_nft_label"
    by (simp_all add: CIP67_FT_LABEL_HEX_def cip67_ft_label_def CIP67_REFERENCE_NFT_LABEL_HEX_def cip67_reference_nft_label_def
        hex_digit_def char_of_def bit_0)
  have app: "from_hex (to_hex a @ to_hex b) = a @ b" for a b using from_hex_to_hex [of "a @ b"] by simp
  show ?thesis
    using parse_labelled [OF h(2,3)] normalize_lower [OF h(2,3)] assms
    by (auto simp: buildVoucherTokenName_def buildVoucherUserTokenNameFromFullDenom_def buildVoucherUserTokenNameFromDenomHash_def
        buildVoucherReferenceTokenNameFromFullDenom_def buildVoucherReferenceTokenNameFromDenomHash_def h(1) bindE_Inr_iff
        voucher_user_token_name_def voucher_reference_token_name_def l app)
qed

theorem voucher_name_agrees_witness:
  "parseVoucherAssetName (CIP67_FT_LABEL_HEX @ replicate 56 (CHR ''0'')) = Some \<lparr>label_kind = Ft, voucherDenomHash = replicate 56 (CHR ''0'')\<rparr>"
proof -
  have "length (zero_blake (utf8 ''transfer/channel-0/uatom'')) = 28" by (simp add: zero_blake_def)
  note agree = voucher_name_agrees [of zero_blake "''transfer/channel-0/uatom''", OF this, of GrpcInvalidArgument "CIP67_FT_LABEL_HEX @ replicate 56 (CHR ''0'')"]
  have h: "buildVoucherDenomHashFromFullDenom zero_blake ''transfer/channel-0/uatom'' = replicate 56 (CHR ''0'')"
    unfolding buildVoucherDenomHashFromFullDenom_def zero_blake_def using to_hex_replicate_zero [of 28]
    by (simp add: to_lower_def to_lower_char_def)
  have "buildVoucherTokenName zero_blake GrpcInvalidArgument ''transfer/channel-0/uatom'' = Inr (CIP67_FT_LABEL_HEX @ replicate 56 (CHR ''0''))"
    using to_hex_replicate_zero [of 28]
    by (simp add: buildVoucherTokenName_def throwIf_eval isHexDenom_def zero_blake_def is_hex_def hex_val_def)
  with agree h show ?thesis by auto
qed

end
