(* ===== verification/Voucher_Denom.thy ===== *)
theory Voucher_Denom
  imports Voucher
begin

section \<open>Splitting a denomination\<close>

text \<open>
  \<open>splitFullDenomTrace\<close> of \<open>voucher.ts\<close> and \<open>split_full_denom_trace\<close> of \<open>voucher_metadata.ak\<close>: both
  take leading port/channel pairs for the path and leave the rest as the base denomination, one
  with a cursor, one by recursion. Both are compared with the reference function \<open>hops_of\<close>.
\<close>

fun hops_of :: "string list \<Rightarrow> (string \<times> string) list \<times> string list" where
  "hops_of (p # c # rest) =
     (if p \<noteq> [] \<and> channel_id_segment c then let (h, b) = hops_of rest in ((p, c) # h, b) else ([], p # c # rest))"
| "hops_of segments = ([], segments)"

definition hop_segments :: "(string \<times> string) list \<Rightarrow> string list" where
  "hop_segments hops = concat (map (\<lambda>(p, c). [p, c]) hops)"

lemma hop_segments_simps [simp]: "hop_segments [] = []" "hop_segments (h # hs) = fst h # snd h # hop_segments hs"
  "length (hop_segments hs) = 2 * length hs"
proof -
  show "hop_segments [] = []" "hop_segments (h # hs) = fst h # snd h # hop_segments hs"
    by (simp_all add: hop_segments_def case_prod_beta)
  show "length (hop_segments hs) = 2 * length hs" by (induction hs) (simp_all add: hop_segments_def case_prod_beta)
qed

lemma hops_of_partition: "hop_segments (fst (hops_of xs)) @ snd (hops_of xs) = xs"
  by (induction xs rule: hops_of.induct) (simp_all add: case_prod_beta Let_def)

lemma hops_of_hops: "(p, c) \<in> set (fst (hops_of xs)) \<Longrightarrow> p \<noteq> [] \<and> channel_id_segment c"
  by (induction xs rule: hops_of.induct) (auto simp: case_prod_beta Let_def split: if_splits)

lemma hops_of_maximal: "snd (hops_of xs) = p # c # rest \<Longrightarrow> p = [] \<or> \<not> channel_id_segment c"
  by (induction xs rule: hops_of.induct) (auto simp: case_prod_beta Let_def split: if_splits)

lemma hops_of_rest: "hops_of (snd (hops_of xs)) = ([], snd (hops_of xs))"
  by (induction xs rule: hops_of.induct) (auto simp: case_prod_beta Let_def)

lemma trace_cursor_hops: "trace_cursor segments k = k + 2 * length (fst (hops_of (drop k segments)))"
proof (induction segments k rule: trace_cursor.induct)
  case (1 segments k)
  show ?case
  proof (cases "k + 1 < length segments")
    case True
    then have d: "drop k segments = segments ! k # segments ! (k + 1) # drop (k + 2) segments"
      by (simp add: Cons_nth_drop_Suc)
    show ?thesis
      using 1 True d by (subst trace_cursor.simps) (auto simp: looksLikePortId_def case_prod_beta Let_def)
  next
    case False
    then have "length (drop k segments) \<le> 1" by simp
    then have "hops_of (drop k segments) = ([], drop k segments)" by (cases "drop k segments" rule: hops_of.cases) auto
    with False show ?thesis by (subst trace_cursor.simps) simp
  qed
qed

lemma join_with_append: "xs \<noteq> [] \<Longrightarrow> ys \<noteq> [] \<Longrightarrow> join_with sep (xs @ ys) = join_with sep xs @ sep @ join_with sep ys"
  by (induction xs) (auto simp: join_with_Cons)

lemma join_with_empty_iff: "(\<And>x. x \<in> set xs \<Longrightarrow> x \<noteq> []) \<Longrightarrow> join_with sep xs = [] \<longleftrightarrow> xs = []"
  by (cases xs) (auto simp: join_with_Cons)

lemma split_trace_eq:
  fixes fd
  defines "xs \<equiv> split_on (CHR ''/'') (js_trim fd)"
  shows "splitFullDenomTrace fd = Inr t \<longleftrightarrow>
    js_trim fd \<noteq> [] \<and> [] \<notin> set xs \<and> snd (hops_of xs) \<noteq> [] \<and>
    t = \<lparr>path = join_with ''/'' (hop_segments (fst (hops_of xs))), baseDenom = join_with ''/'' (snd (hops_of xs))\<rparr>"
proof -
  let ?n = "trace_cursor xs 0"
  have n: "?n = length (hop_segments (fst (hops_of xs)))" by (simp add: trace_cursor_hops)
  have td: "take ?n xs = hop_segments (fst (hops_of xs))" "drop ?n xs = snd (hops_of xs)"
    unfolding n using hops_of_partition [of xs] append_eq_conv_conj by metis+
  show ?thesis
    unfolding splitFullDenomTrace_def xs_def [symmetric] Let_def td
    by (auto simp: bindE_Inr_iff throwIf_iff list_ex_iff)
qed

lemma split_rejoins:
  assumes "splitFullDenomTrace fd = Inr t"
  shows "(if path t \<noteq> [] then path t @ ''/'' @ baseDenom t else baseDenom t) = js_trim fd"
proof -
  let ?xs = "split_on (CHR ''/'') (js_trim fd)"
  from assms have t: "[] \<notin> set ?xs" "snd (hops_of ?xs) \<noteq> []"
    "path t = join_with ''/'' (hop_segments (fst (hops_of ?xs)))" "baseDenom t = join_with ''/'' (snd (hops_of ?xs))"
    by (simp_all add: split_trace_eq)
  have ne: "x \<noteq> []" if "x \<in> set (hop_segments (fst (hops_of ?xs)))" for x
    using t(1) that hops_of_partition [of ?xs] by (metis Un_iff set_append)
  have j: "join_with ''/'' (hop_segments (fst (hops_of ?xs)) @ snd (hops_of ?xs)) = js_trim fd"
    by (simp add: hops_of_partition)
  show ?thesis
  proof (cases "hop_segments (fst (hops_of ?xs)) = []")
    case True
    with t j show ?thesis by simp
  next
    case False
    then have "path t \<noteq> []" using t(3) ne join_with_empty_iff [of "hop_segments (fst (hops_of ?xs))"] by simp
    with False t j show ?thesis by (simp add: join_with_append)
  qed
qed

lemma hops_of_unique:
  "(\<forall>(p, c) \<in> set hops. p \<noteq> [] \<and> channel_id_segment c) \<Longrightarrow> \<not> (\<exists>p c rest. base = p # c # rest \<and> channel_id_segment c) \<Longrightarrow>
   hops_of (hop_segments hops @ base) = (hops, base)"
proof (induction hops)
  case Nil
  then show ?case by (cases base rule: hops_of.cases) auto
qed auto

lemma hop_segments_mem: "(p, c) \<in> set hops \<Longrightarrow> p \<in> set (hop_segments hops) \<and> c \<in> set (hop_segments hops)"
  by (force simp: hop_segments_def)

text \<open>
  C35. Exactly what splitting a denomination returns: it succeeds with a trace if and only if the
  trimmed denomination consists of non-empty segments between slashes, these are port/channel hops
  followed by at least one further segment, the segments after the hops do not begin with another
  hop, and the trace has the hops as its path and the further segments as its base denomination.
  The segments contain no slash, so a denomination determines its trace.
\<close>

theorem split_denom_trace:
  "splitFullDenomTrace fd = Inr t \<longleftrightarrow>
    (\<exists>hops base. js_trim fd = join_with ''/'' (hop_segments hops @ base) \<and>
      (\<forall>x \<in> set (hop_segments hops @ base). x \<noteq> [] \<and> CHR ''/'' \<notin> set x) \<and> base \<noteq> [] \<and>
      (\<forall>(p, c) \<in> set hops. channel_id_segment c) \<and> \<not> (\<exists>p c rest. base = p # c # rest \<and> channel_id_segment c) \<and>
      t = \<lparr>path = join_with ''/'' (hop_segments hops), baseDenom = join_with ''/'' base\<rparr>)"
  (is "?l \<longleftrightarrow> (\<exists>hops base. ?spec hops base)")
proof
  let ?xs = "split_on (CHR ''/'') (js_trim fd)"
  assume ?l
  then have t: "[] \<notin> set ?xs" "snd (hops_of ?xs) \<noteq> []" "t = \<lparr>path = join_with ''/'' (hop_segments (fst (hops_of ?xs))),
      baseDenom = join_with ''/'' (snd (hops_of ?xs))\<rparr>" by (simp_all add: split_trace_eq)
  have "\<not> (\<exists>p c rest. snd (hops_of ?xs) = p # c # rest \<and> channel_id_segment c)"
    using hops_of_maximal [of ?xs] t(1) hops_of_partition [of ?xs] by (metis Un_iff list.set_intros(1) set_append)
  moreover have "\<forall>x \<in> set ?xs. x \<noteq> [] \<and> CHR ''/'' \<notin> set x" using t(1) split_on_no_char by blast
  ultimately have "?spec (fst (hops_of ?xs)) (snd (hops_of ?xs))"
    using t(2,3) hops_of_hops [of _ _ ?xs] unfolding hops_of_partition by auto
  then show "\<exists>hops base. ?spec hops base" by blast
next
  assume "\<exists>hops base. ?spec hops base"
  then obtain hops base where spec: "?spec hops base" by blast
  let ?ys = "hop_segments hops @ base"
  have ne: "\<forall>(p, c) \<in> set hops. p \<noteq> [] \<and> channel_id_segment c" using spec hop_segments_mem by fastforce
  have "split_on (CHR ''/'') (js_trim fd) = ?ys" using spec split_join [of ?ys "CHR ''/''"] by simp
  moreover have "js_trim fd \<noteq> []" using spec join_with_empty_iff [of ?ys] by auto
  ultimately show ?l using spec hops_of_unique [OF ne, of base] by (auto simp: split_trace_eq)
qed

lemma trim_atom: "js_trim ''transfer/channel-7/uatom'' = ''transfer/channel-7/uatom''"
  by (rule js_trim_no_space) code_simp

lemma split_atom: "splitFullDenomTrace ''transfer/channel-7/uatom'' = Inr \<lparr>path = ''transfer/channel-7'', baseDenom = ''uatom''\<rparr>"
proof -
  have "split_on (CHR ''/'') ''transfer/channel-7/uatom'' = [''transfer'', ''channel-7'', ''uatom'']"
    "hops_of [''transfer'', ''channel-7'', ''uatom''] = ([(''transfer'', ''channel-7'')], [''uatom''])"
    by code_simp+
  then show ?thesis by (simp add: split_trace_eq trim_atom)
qed

theorem split_denom_trace_witness:
  "splitFullDenomTrace ''transfer/channel-7/uatom'' = Inr \<lparr>path = ''transfer/channel-7'', baseDenom = ''uatom''\<rparr>"
proof -
  have "channel_id_segment ''channel-7''" by code_simp
  then show ?thesis unfolding split_denom_trace
    by (intro exI [of _ "[(''transfer'', ''channel-7'')]"] exI [of _ "[''uatom'']"]) (auto simp: trim_atom)
qed


section \<open>Agreement with the chain\<close>

lemma utf8_simps: "utf8 [] = []" "utf8 (c # s) = byte_of_char c # utf8 s" "utf8 (s @ t) = utf8 s @ utf8 t"
  by (simp_all add: utf8_def)

lemma byte_of_char_eq_iff: "byte_of_char c = byte_of_char d \<longleftrightarrow> c = d"
  using inj_byte_of_char by (auto dest: injD)

lemma slash_byte: "byte_of_char (CHR ''/'') = 47"
  by (simp add: byte_of_char_def)

lemma do_split_utf8:
  "str = utf8 s \<Longrightarrow> sep = byte_of_char c \<Longrightarrow> c \<notin> set (take i s) \<Longrightarrow> do_split str sep i = map utf8 (split_on c s)"
proof (induction str sep i arbitrary: s rule: do_split.induct)
  case (1 str sep i)
  show ?case
  proof (cases "i \<ge> length s")
    case True
    then show ?thesis using 1(3-5) by (subst do_split.simps) (simp add: split_on_no_sep)
  next
    case False
    then have i: "i < length s" "i < length str" using 1(3) by simp_all
    then have s: "s = take i s @ s ! i # drop (i + 1) s" by (simp add: id_take_nth_drop)
    have at: "str ! i = byte_of_char (s ! i)" using i 1(3) by (simp add: utf8_def)
    show ?thesis
    proof (cases "s ! i = c")
      case True
      have "split_on c s = take i s # split_on c (drop (i + 1) s)"
        using split_on_append_sep [OF 1(5), of "drop (i + 1) s"] s True by simp
      moreover have "do_split (drop (i + 1) str) sep 0 = map utf8 (split_on c (drop (i + 1) s))"
        using i at True 1(3,4) by (intro 1(1)) (auto simp: utf8_def drop_map)
      ultimately show ?thesis using i at True 1(3,4) by (subst do_split.simps) (simp add: utf8_def take_map)
    next
      case False
      have "c \<notin> set (take (i + 1) s)" using 1(5) False i by (simp add: take_Suc_conv_app_nth)
      then have "do_split str sep (i + 1) = map utf8 (split_on c s)"
        using i at False 1(3,4) by (intro 1(2)) (auto simp: byte_of_char_eq_iff)
      then show ?thesis using i at False 1(4) by (subst do_split.simps) (simp add: byte_of_char_eq_iff)
    qed
  qed
qed

lemma foldl_join: "acc \<noteq> [] \<Longrightarrow>
  foldl (\<lambda>acc segment. if acc = [] then segment else acc @ utf8 ''/'' @ segment) acc (map utf8 xs) =
    acc @ utf8 (concat (map (\<lambda>x. ''/'' @ x) xs))"
  by (induction xs arbitrary: acc) (simp_all add: utf8_simps)

lemma join_segments_utf8: "[] \<notin> set xs \<Longrightarrow> join_segments (map utf8 xs) = utf8 (join_with ''/'' xs)"
proof (cases xs)
  case (Cons x ys)
  assume "[] \<notin> set xs"
  then have "utf8 x \<noteq> []" using Cons by (auto simp: utf8_def)
  moreover have "join_with ''/'' (x # ys) = x @ concat (map (\<lambda>x. ''/'' @ x) ys)"
    by (induction ys arbitrary: x) (auto simp: join_with_Cons)
  ultimately show ?thesis using Cons by (simp add: join_segments_def foldl_join utf8_simps)
qed (simp add: join_segments_def utf8_def)

text \<open>Channel identifiers as the chain writes them: no leading zeros.\<close>

definition canonical_channels :: "string list \<Rightarrow> bool" where
  "canonical_channels xs = list_all (\<lambda>x. channel_id_segment x \<longrightarrow> drop 8 x = ''0'' \<or> hd (drop 8 x) \<noteq> CHR ''0'') xs"

lemma digit_byte: "is_digit c \<longleftrightarrow> 0x30 \<le> unat (byte_of_char c) \<and> unat (byte_of_char c) \<le> 0x39"
  by (auto simp: is_digit_def unat_byte_of_char Let_def)

lemma uint_string_utf8: "is_uint_string (utf8 s) \<longleftrightarrow> digits s \<and> (s = ''0'' \<or> hd s \<noteq> CHR ''0'')"
proof (cases s)
  case (Cons c cs)
  have f: "foldr (\<lambda>b acc. acc \<and> 0x30 \<le> unat b \<and> unat b \<le> 0x39) (utf8 t) True \<longleftrightarrow> list_all is_digit t" for t
    by (induction t) (auto simp: utf8_simps digit_byte)
  have z: "byte_of_char (CHR ''0'') = 0x30" by (simp add: byte_of_char_def)
  then have h: "byte_of_char c = 0x30 \<longleftrightarrow> c = CHR ''0''" using byte_of_char_eq_iff by metis
  have one: "utf8 s = utf8 ''0'' \<longleftrightarrow> s = ''0''" using utf8_inj by auto
  have "is_digit (CHR ''0'')" by code_simp
  then show ?thesis
    unfolding is_uint_string_def one f using Cons h by (auto simp: digits_def utf8_simps)
qed (simp add: is_uint_string_def digits_def utf8_def)

lemma valid_channel_utf8:
  "is_valid_channel_id (utf8 x) \<longleftrightarrow> channel_id_segment x \<and> (drop 8 x = ''0'' \<or> hd (drop 8 x) \<noteq> CHR ''0'')"
proof -
  have "take 8 (utf8 x) = utf8 ''channel-'' \<longleftrightarrow> take 8 x = ''channel-''"
    using utf8_inj [of "take 8 x" "''channel-''"] by (auto simp: utf8_def take_map)
  also have "\<dots> \<longleftrightarrow> prefix ''channel-'' x"
  proof
    assume "take 8 x = ''channel-''"
    with append_take_drop_id [of 8 x] have "x = ''channel-'' @ drop 8 x" by simp
    then show "prefix ''channel-'' x" by (rule prefixI)
  next
    assume "prefix ''channel-'' x"
    then obtain zs where "x = ''channel-'' @ zs" by (rule prefixE)
    then show "take 8 x = ''channel-''" by simp
  qed
  finally have p: "take 8 (utf8 x) = utf8 ''channel-'' \<longleftrightarrow> prefix ''channel-'' x" .
  have "drop 8 (utf8 x) = utf8 (drop 8 x)" by (simp add: utf8_def drop_map)
  then show ?thesis by (simp add: is_valid_channel_id_def p uint_string_utf8 channel_id_segment_def)
qed

lemma do_split_trace_hops:
  "[] \<notin> set xs \<Longrightarrow> canonical_channels xs \<Longrightarrow> [] \<notin> set acc \<Longrightarrow>
   do_split_full_denom_trace (map utf8 xs) (rev (map utf8 acc)) =
     (if snd (hops_of xs) = [] then None
      else Some (utf8 (join_with ''/'' (acc @ hop_segments (fst (hops_of xs)))), utf8 (join_with ''/'' (snd (hops_of xs)))))"
proof (induction xs arbitrary: acc rule: hops_of.induct)
  case (1 p c rest)
  show ?case
  proof (cases "channel_id_segment c")
    case True
    with 1(2-4) have "do_split_full_denom_trace (map utf8 rest) (rev (map utf8 (acc @ [p, c]))) =
       (if snd (hops_of rest) = [] then None
        else Some (utf8 (join_with ''/'' ((acc @ [p, c]) @ hop_segments (fst (hops_of rest)))), utf8 (join_with ''/'' (snd (hops_of rest)))))"
      by (intro 1(1)) (auto simp: canonical_channels_def)
    moreover have "p \<noteq> []" using 1(2) by auto
    ultimately show ?thesis using True 1(2,3) by (simp add: valid_channel_utf8 canonical_channels_def case_prod_beta Let_def)
  next
    case False
    then show ?thesis
      using join_segments_utf8 [of acc] join_segments_utf8 [of "p # c # rest"] 1(2,4)
      by (simp add: valid_channel_utf8)
  qed
qed (simp_all add: join_segments_utf8)

lemma trim_space_no_space: "list_all no_space s \<Longrightarrow> trim_space (utf8 s) = utf8 s"
proof -
  assume s: "list_all no_space s"
  have b: "byte_of_char c \<noteq> 0x20" if "no_space c" for c
  proof
    assume "byte_of_char c = 0x20"
    then have "unat (byte_of_char c) = 32" by simp
    with that show False by (simp add: unat_byte_of_char no_space_def Let_def)
  qed
  have drop: "dropWhile (\<lambda>b. b = 0x20) bs = bs" if "\<forall>x \<in> set bs. x \<noteq> 0x20" for bs :: buffer
    using that by (cases bs) simp_all
  have "\<forall>x \<in> set (utf8 s). x \<noteq> 0x20" using s b by (auto simp: utf8_def list_all_iff)
  then show ?thesis using drop [of "utf8 s"] drop [of "rev (utf8 s)"] by (simp add: trim_space_def)
qed

text \<open>
  Without the condition the two sides differ: the regular expression off chain admits leading
  zeros, the identifier check on chain does not, so the path of such a denomination ends earlier
  on chain.
\<close>

lemma leading_zero_channel_differs:
  "splitFullDenomTrace ''transfer/channel-07/uatom'' = Inr \<lparr>path = ''transfer/channel-07'', baseDenom = ''uatom''\<rparr> \<and>
   split_full_denom_trace (utf8 ''transfer/channel-07/uatom'') = Some ([], utf8 ''transfer/channel-07/uatom'')"
proof -
  let ?d = "''transfer/channel-07/uatom''"
  have sp: "split_on (CHR ''/'') ?d = [''transfer'', ''channel-07'', ''uatom'']"
    "hops_of [''transfer'', ''channel-07'', ''uatom''] = ([(''transfer'', ''channel-07'')], [''uatom''])"
    by code_simp+
  have ns: "list_all no_space ?d" by code_simp
  have "do_split (utf8 ?d) 47 0 = map utf8 [''transfer'', ''channel-07'', ''uatom'']"
    using do_split_utf8 [OF refl, of 47 "CHR ''/''" 0 ?d] sp(1) by (simp add: slash_byte)
  moreover have "\<not> is_valid_channel_id (utf8 ''channel-07'')" by (simp add: valid_channel_utf8)
  moreover have "join_segments (map utf8 [''transfer'', ''channel-07'', ''uatom'']) = utf8 ?d" by (subst join_segments_utf8) simp_all
  ultimately have "split_full_denom_trace (utf8 ?d) = Some ([], utf8 ?d)"
    using trim_space_no_space [OF ns] by (simp add: split_full_denom_trace_def join_segments_def Let_def) (simp add: utf8_def)
  then show ?thesis using js_trim_no_space [OF ns] sp(1,2) by (simp add: split_trace_eq)
qed

subsection \<open>Printable denominations\<close>

lemma base_facts:
  assumes "list_all no_space fd" "splitFullDenomTrace fd = Inr t"
  shows "list_all no_space (baseDenom t)" "baseDenom t \<noteq> []" "[] \<notin> set (split_on (CHR ''/'') (baseDenom t))"
proof -
  have trim: "js_trim fd = fd" by (rule js_trim_no_space [OF assms(1)])
  have "set (baseDenom t) \<subseteq> set fd" using split_rejoins [OF assms(2)] unfolding trim by (auto split: if_splits)
  then show "list_all no_space (baseDenom t)" using assms(1) by (auto simp: list_all_iff)
  let ?xs = "split_on (CHR ''/'') fd"
  from assms(2) have t: "[] \<notin> set ?xs" "snd (hops_of ?xs) \<noteq> []" "baseDenom t = join_with ''/'' (snd (hops_of ?xs))"
    by (simp_all add: split_trace_eq trim)
  have sub: "set (snd (hops_of ?xs)) \<subseteq> set ?xs" using hops_of_partition [of ?xs] by (metis Un_upper2 set_append)
  have "split_on (CHR ''/'') (baseDenom t) = snd (hops_of ?xs)"
    unfolding t(3) using sub split_on_no_char by (intro split_join t(2)) blast
  then show "[] \<notin> set (split_on (CHR ''/'') (baseDenom t))" using t(1) sub by auto
  show "baseDenom t \<noteq> []" unfolding t(3) using t(1,2) sub join_with_empty_iff [of "snd (hops_of ?xs)"] by auto
qed

lemma chain_split:
  assumes "list_all no_space fd" "canonical_channels (split_on (CHR ''/'') fd)"
  shows "split_full_denom_trace (utf8 fd) =
    (case splitFullDenomTrace fd of Inl _ \<Rightarrow> None | Inr t \<Rightarrow> Some (utf8 (path t), utf8 (baseDenom t)))"
proof -
  let ?xs = "split_on (CHR ''/'') fd"
  have trim: "js_trim fd = fd" by (rule js_trim_no_space [OF assms(1)])
  have sp: "do_split (utf8 fd) 47 0 = map utf8 ?xs"
    by (rule do_split_utf8 [OF refl]) (simp_all add: slash_byte)
  have e: "list_ex (\<lambda>s. s = []) (map utf8 ?xs) \<longleftrightarrow> [] \<in> set ?xs" by (auto simp: list_ex_iff utf8_def)
  have emp: "utf8 fd = [] \<longleftrightarrow> fd = []" by (simp add: utf8_def)
  show ?thesis
  proof (cases "fd = [] \<or> [] \<in> set ?xs \<or> snd (hops_of ?xs) = []")
    case True
    then have "\<nexists>t. splitFullDenomTrace fd = Inr t" by (auto simp: split_trace_eq trim)
    then obtain e where "splitFullDenomTrace fd = Inl e" by (cases "splitFullDenomTrace fd") auto
    with True do_split_trace_hops [of ?xs "[]"] assms(2) sp e emp trim_space_no_space [OF assms(1)] show ?thesis
      by (auto simp: split_full_denom_trace_def Let_def list_ex_iff utf8_def)
  next
    case False
    then have "splitFullDenomTrace fd = Inr \<lparr>path = join_with ''/'' (hop_segments (fst (hops_of ?xs))),
        baseDenom = join_with ''/'' (snd (hops_of ?xs))\<rparr>" by (simp add: split_trace_eq trim)
    moreover have "do_split_full_denom_trace (map utf8 ?xs) [] =
        Some (utf8 (join_with ''/'' (hop_segments (fst (hops_of ?xs)))), utf8 (join_with ''/'' (snd (hops_of ?xs))))"
      using do_split_trace_hops [of ?xs "[]"] False assms(2) by simp
    ultimately show ?thesis
      using False sp e emp trim_space_no_space [OF assms(1)] by (simp add: split_full_denom_trace_def Let_def)
  qed
qed

lemma chain_label:
  assumes "list_all no_space b" "b \<noteq> []" "[] \<notin> set (split_on (CHR ''/'') b)"
  shows "canonical_label (utf8 b) = utf8 (deriveVoucherCanonicalLabel b)"
proof -
  let ?xs = "split_on (CHR ''/'') b"
  have sp: "do_split (utf8 b) 47 0 = map utf8 ?xs"
    by (rule do_split_utf8 [OF refl]) (simp_all add: slash_byte)
  have f: "filter (\<lambda>s. s \<noteq> []) ?xs = ?xs" using assms(3) by (auto simp: filter_id_conv)
  have "foldl (\<lambda>current segment. if segment = [] then current else segment) a (map utf8 ys) = (if ys = [] then a else utf8 (last ys))"
    if "[] \<notin> set ys" for a ys
    using that by (induction ys arbitrary: a) (auto simp: utf8_def)
  from this [OF assms(3), of "utf8 ''IBC''"] show ?thesis
    using sp f assms(2) js_trim_no_space [OF assms(1)] trim_space_no_space [OF assms(1)]
    by (simp add: canonical_label_def deriveVoucherCanonicalLabel_def Let_def utf8_def neq_Nil_conv split: list.splits)
qed

end
