(* ===== verification/Voucher_Metadata.thy ===== *)
theory Voucher_Metadata
  imports Voucher_Denom
begin

section \<open>The metadata datum\<close>

text \<open>
  The CIP-68 datum of a voucher is written off chain by \<open>encodeVoucherCip68MetadataDatum\<close>, read by
  \<open>decodeVoucherCip68MetadataDatum\<close>, and demanded on chain by \<open>build_datum\<close>. Lucid is told to write
  canonical CBOR (\<open>canonical: true\<close> in \<open>encodeVoucherCip68MetadataDatum\<close>), in which the entries of a map
  are sorted by the length of their keys and then by the keys. Lucid's serialiser is a parameter
  \<open>to_cbor\<close>; \<open>canonical_data\<close> states that order (all keys of this datum are byte strings), and the
  theorems that need it assume that \<open>to_cbor\<close> writes a datum in that order.
\<close>

definition cbor_key :: "plutus \<Rightarrow> nat \<times> string" where
  "cbor_key k = (case k of PBytes h \<Rightarrow> (length h, h) | _ \<Rightarrow> (0, []))"

primrec canonical_data :: "plutus \<Rightarrow> plutus" where
  "canonical_data (PConstr i ds) = PConstr i (map canonical_data ds)"
| "canonical_data (PMap es) = PMap (sort_key (\<lambda>e. cbor_key (fst e)) (map (map_prod canonical_data canonical_data) es))"
| "canonical_data (PList ds) = PList (map canonical_data ds)"
| "canonical_data (PInt i) = PInt i"
| "canonical_data (PBytes h) = PBytes h"

subsection \<open>Maps with byte-string keys\<close>

definition keyed :: "(string \<times> plutus) list \<Rightarrow> (plutus \<times> plutus) list" where
  "keyed kvs = map (\<lambda>(k, v). (toDataKey k, v)) kvs"

definition flat :: "plutus \<Rightarrow> bool" where
  "flat v = (case v of PInt i \<Rightarrow> True | PBytes h \<Rightarrow> True | _ \<Rightarrow> False)"

lemma sort_key_map: "sort_key f (map g xs) = map g (sort_key (\<lambda>x. f (g x)) xs)"
proof -
  have ins: "insort_key f (g x) (map g ys) = map g (insort_key (\<lambda>x. f (g x)) x ys)" for x ys
    by (induction ys) simp_all
  show ?thesis by (induction xs) (simp_all add: ins)
qed

lemma canonical_keyed:
  assumes "\<forall>v \<in> snd ` set kvs. flat v"
  shows "canonical_data (PMap (keyed kvs)) = PMap (keyed (sort_key (\<lambda>e. cbor_key (toDataKey (fst e))) kvs))"
proof -
  have "canonical_data v = v" if "flat v" for v using that by (simp add: flat_def split: plutus.splits)
  then have "map (map_prod canonical_data canonical_data) (keyed kvs) = keyed kvs"
    using assms by (auto simp: keyed_def toDataKey_def)
  then have "canonical_data (PMap (keyed kvs)) = PMap (sort_key (\<lambda>e. cbor_key (fst e)) (keyed kvs))"
    by (simp only: canonical_data.simps)
  also have "sort_key (\<lambda>e. cbor_key (fst e)) (keyed kvs) = keyed (sort_key (\<lambda>e. cbor_key (toDataKey (fst e))) kvs)"
    unfolding keyed_def by (subst sort_key_map) (simp add: case_prod_beta)
  finally show ?thesis .
qed

lemma fromHexUtf8_toDataKey: "well_formed s \<Longrightarrow> fromHexUtf8 (to_hex (utf8 s)) = s"
  by (simp add: fromHexUtf8_def from_hex_to_hex well_formed_def)

lemma foldE_keyed:
  "distinct (map fst acc @ map fst kvs) \<Longrightarrow> \<forall>k \<in> fst ` set kvs. well_formed k \<Longrightarrow>
   foldE (\<lambda>(k, x). add_entry k x) (keyed kvs) acc = Inr (acc @ kvs)"
proof (induction kvs arbitrary: acc)
  case (Cons kv kvs)
  obtain k v where kv: "kv = (k, v)" by (cases kv)
  have "k \<notin> fst ` set acc" using Cons.prems(1) kv by auto
  then have "AList.update k v acc = acc @ [(k, v)]" by (rule alist_update_new)
  with Cons.IH [of "acc @ [(k, v)]"] Cons.prems kv show ?case
    by (simp add: keyed_def add_entry_def toDataKey_def fromHexUtf8_toDataKey)
qed (simp add: keyed_def)

lemma toEntriesMap_canonical:
  assumes "distinct (map fst kvs)" "\<forall>k \<in> fst ` set kvs. well_formed k" "\<forall>v \<in> snd ` set kvs. flat v"
  shows "\<exists>m. toEntriesMap (Some (canonical_data (PMap (keyed kvs)))) = Inr m \<and> map_of m = map_of kvs"
proof -
  let ?s = "sort_key (\<lambda>e. cbor_key (toDataKey (fst e))) kvs"
  have d: "distinct (map fst ?s)" using assms(1) by (simp add: distinct_map)
  then have "toEntriesMap (Some (PMap (keyed ?s))) = Inr ?s"
    using foldE_keyed [of "[]" ?s] assms(2) by (simp add: toEntriesMap_def)
  moreover have "map_of ?s = map_of kvs"
    by (rule map_of_sort_key [OF assms(1)])
  ultimately show ?thesis using canonical_keyed [OF assms(3)] by simp
qed


subsection \<open>Reading back what was written\<close>

definition metadata_entries :: "cip68_metadata \<Rightarrow> (string \<times> plutus) list" where
  "metadata_entries m =
     [(''name'', toDataBytes (md_name m)), (''description'', toDataBytes (md_description m))] @
     (if md_ticker m \<noteq> [] then [(''ticker'', toDataBytes (md_ticker m))] else []) @
     (case md_decimals m of Some d \<Rightarrow> [(''decimals'', PInt d)] | None \<Rightarrow> []) @
     (case md_url m of Some u \<Rightarrow> if u \<noteq> [] then [(''url'', toDataBytes u)] else [] | None \<Rightarrow> []) @
     (case md_logo m of Some l \<Rightarrow> if l \<noteq> [] then [(''logo'', toDataBytes l)] else [] | None \<Rightarrow> [])"

definition extra_entries :: "cip68_metadata \<Rightarrow> (string \<times> plutus) list" where
  "extra_entries m =
     [(''path'', toDataBytes (ex_path (md_extra m))), (''baseDenom'', toDataBytes (ex_baseDenom (md_extra m))),
      (''fullDenom'', toDataBytes (ex_fullDenom (md_extra m))),
      (''voucherTokenName'', toDataBytes (ex_voucherTokenName (md_extra m))),
      (''voucherPolicyId'', toDataBytes (ex_voucherPolicyId (md_extra m))),
      (''ibcDenomHash'', toDataBytes (ex_ibcDenomHash (md_extra m))), (''traceVersion'', PInt (md_traceVersion m))]"

lemma metadata_map_keyed: "metadata_map m = keyed (metadata_entries m)"
  by (simp add: metadata_map_def metadata_entries_def keyed_def split: option.splits)

lemma extra_map_keyed: "extra_map m = keyed (extra_entries m)"
  by (simp add: extra_map_def extra_entries_def keyed_def)

lemma ascii_names: "\<forall>k \<in> set [''name'', ''description'', ''ticker'', ''decimals'', ''url'', ''logo'', ''path'', ''baseDenom'', ''fullDenom'',
    ''voucherTokenName'', ''voucherPolicyId'', ''ibcDenomHash'', ''traceVersion'']. well_formed k"
  by (intro ballI ascii_well_formed) auto

lemma entries_ok:
  "distinct (map fst (metadata_entries m))" "\<forall>k \<in> fst ` set (metadata_entries m). well_formed k"
  "\<forall>v \<in> snd ` set (metadata_entries m). flat v"
  "distinct (map fst (extra_entries m))" "\<forall>k \<in> fst ` set (extra_entries m). well_formed k"
  "\<forall>v \<in> snd ` set (extra_entries m). flat v"
  using ascii_names
  by (auto simp: metadata_entries_def extra_entries_def toDataBytes_def flat_def split: option.splits if_splits)

definition metadata_ok :: "cip68_metadata \<Rightarrow> bool" where
  "metadata_ok m =
     (list_all well_formed [md_name m, md_description m, md_ticker m, ex_path (md_extra m), ex_baseDenom (md_extra m),
        ex_fullDenom (md_extra m), ex_voucherTokenName (md_extra m), ex_voucherPolicyId (md_extra m), ex_ibcDenomHash (md_extra m)] \<and>
      (\<forall>u. md_url m = Some u \<or> md_logo m = Some u \<longrightarrow> well_formed u) \<and>
      (\<forall>i. i = md_version m \<or> i = md_traceVersion m \<or> md_decimals m = Some i \<longrightarrow> \<bar>i\<bar> < 2 ^ 53))"

definition nonempty_link :: "string option \<Rightarrow> string option" where
  "nonempty_link l = (if l = Some [] then None else l)"

lemma js_Number_int_exact: "\<bar>i\<bar> < 2 ^ 53 \<Longrightarrow> js_Number_int i = i"
proof -
  assume "\<bar>i\<bar> < 2 ^ 53"
  then have "nat \<bar>i\<bar> < 2 ^ 53" by (simp add: nat_less_iff)
  from js_Number_exact [OF this] show ?thesis by (simp add: js_Number_int_def sgn_mult_abs)
qed

lemma fields_read_back:
  assumes "metadata_ok m" "map_of a = map_of (metadata_entries m)" "map_of b = map_of (extra_entries m)"
  shows "decodeRequiredBytes a ''name'' = Inr (md_name m)" "decodeRequiredBytes a ''description'' = Inr (md_description m)"
    "decodeRequiredBytes a ''ticker'' = (if md_ticker m = []
       then Inl (Error (''Missing required CIP-68 voucher metadata field '' @ CHR 0x22 # ''ticker'' @ [CHR 0x22]))
       else Inr (md_ticker m))"
    "decodeOptionalInteger a ''decimals'' = Inr (md_decimals m)"
    "decodeOptionalUri a ''url'' = Inr (nonempty_link (md_url m))" "decodeOptionalUri a ''logo'' = Inr (nonempty_link (md_logo m))"
    "decode_extra b = Inr (md_extra m, md_traceVersion m)"
  using assms
  by (auto simp: decodeRequiredBytes_def decodeOptionalInteger_def decodeOptionalUri_def decode_extra_def decodeRequiredInteger_def
      metadata_entries_def extra_entries_def toDataBytes_def fromHexUtf8_toDataKey metadata_ok_def js_Number_int_exact
      nonempty_link_def split: option.splits)

text \<open>
  C34. Metadata round-trip, for well-formed text and numbers below \<open>2 ^ 53\<close> in absolute value: if
  the ticker is not empty, the decoder reads back from the canonical CBOR what the encoder wrote,
  except that an empty url or logo comes back as absent. If the ticker is empty, the encoder
  leaves the field out and the decoder rejects the datum with the error for a missing ticker.
\<close>

theorem metadata_round_trip:
  assumes "metadata_ok m" and "from_cbor (to_cbor (voucher_data m)) = Inr (canonical_data (voucher_data m))"
  shows "decodeVoucherCip68MetadataDatum from_cbor (encodeVoucherCip68MetadataDatum to_cbor m) =
    (if md_ticker m = []
     then Inl (Error (''Missing required CIP-68 voucher metadata field '' @ CHR 0x22 # ''ticker'' @ [CHR 0x22]))
     else Inr (m\<lparr>md_url := nonempty_link (md_url m), md_logo := nonempty_link (md_logo m)\<rparr>))"
proof -
  obtain a where a: "toEntriesMap (Some (canonical_data (PMap (metadata_map m)))) = Inr a" "map_of a = map_of (metadata_entries m)"
    using toEntriesMap_canonical [OF entries_ok(1-3)] by (auto simp: metadata_map_keyed)
  obtain b where b: "toEntriesMap (Some (canonical_data (PMap (extra_map m)))) = Inr b" "map_of b = map_of (extra_entries m)"
    using toEntriesMap_canonical [OF entries_ok(4-6)] by (auto simp: extra_map_keyed)
  have v: "js_Number_int (md_version m) = md_version m" using assms(1) by (intro js_Number_int_exact) (simp add: metadata_ok_def)
  show ?thesis
    using fields_read_back [OF assms(1) a(2) b(2)] assms(2) a(1) b(1) v
    by (simp add: decodeVoucherCip68MetadataDatum_def encodeVoucherCip68MetadataDatum_def voucher_data_def expectMetadataConstr_def
        field_def throwIf_eval del: canonical_data.simps(2))
qed

lemma ascii_no_space: "list_all no_space s \<Longrightarrow> well_formed s"
  by (rule ascii_well_formed) (auto simp: ascii_def list_all_iff no_space_def Let_def)

definition atom_params :: voucher_extra where
  "atom_params = \<lparr>ex_path = ''transfer/channel-7'', ex_baseDenom = ''uatom'', ex_fullDenom = ''transfer/channel-7/uatom'',
     ex_voucherTokenName = ''0014df10ab'', ex_voucherPolicyId = ''cd'', ex_ibcDenomHash = ''ef''\<rparr>"

lemma atom_label: "deriveVoucherCanonicalLabel ''uatom'' = ''uatom''"
proof -
  have "js_trim ''uatom'' = ''uatom''" by (rule js_trim_no_space) code_simp
  then show ?thesis by (simp add: deriveVoucherCanonicalLabel_def)
qed

lemma atom_metadata_ok: "metadata_ok (buildVoucherCip68Metadata atom_params)"
proof -
  have "well_formed ''uatom''" "well_formed ''transfer/channel-7''" "well_formed ''transfer/channel-7/uatom''" "well_formed ''0014df10ab''"
    "well_formed ''cd''" "well_formed ''ef''" "well_formed ''IBC voucher for transfer/channel-7/uatom''"
    by (rule ascii_well_formed, simp)+
  then show ?thesis
    by (simp add: metadata_ok_def buildVoucherCip68Metadata_def deriveVoucherPresentation_def atom_params_def atom_label
        VOUCHER_METADATA_VERSION_def Let_def)
qed

theorem metadata_round_trip_witness:
  "decodeVoucherCip68MetadataDatum (\<lambda>_. Inr (canonical_data (voucher_data (buildVoucherCip68Metadata atom_params))))
     (encodeVoucherCip68MetadataDatum (\<lambda>_. ''d879'') (buildVoucherCip68Metadata atom_params)) =
   Inr (buildVoucherCip68Metadata atom_params)"
proof -
  let ?m = "buildVoucherCip68Metadata atom_params"
  have "md_ticker ?m \<noteq> []" "md_url ?m = None" "md_logo ?m = None"
    by (simp_all add: buildVoucherCip68Metadata_def deriveVoucherPresentation_def atom_params_def atom_label Let_def)
  then show ?thesis
    using metadata_round_trip [OF atom_metadata_ok, of "\<lambda>_. Inr (canonical_data (voucher_data ?m))" "\<lambda>_. ''d879''"]
    by (simp add: nonempty_link_def)
qed


section \<open>The datum demanded on chain\<close>

lemma cbor_key_toDataKey: "cbor_key (toDataKey k) = (2 * length k, to_hex (utf8 k))"
  by (simp add: cbor_key_def toDataKey_def)

lemma canonical_order:
  assumes "set ys = set xs" "distinct xs" "\<forall>v \<in> snd ` set xs. flat v"
    "sorted_wrt (<) (map (\<lambda>k. cbor_key (toDataKey k)) (map fst ys))"
  shows "canonical_data (PMap (keyed xs)) = PMap (keyed ys)"
proof -
  let ?f = "\<lambda>e. cbor_key (toDataKey (fst e))"
  have ys: "sorted (map ?f ys)" "distinct (map ?f ys)" using assms(4) by (simp_all add: strict_sorted_iff comp_def)
  then have "inj_on ?f (set ys)" by (simp add: distinct_map)
  then have "distinct (map ?f (sort_key ?f xs))" "inj_on ?f (set (sort_key ?f xs) \<union> set ys)"
    using assms(1,2) by (simp_all add: distinct_map)
  then have "sort_key ?f xs = ys"
    using ys assms(1) by (intro map_sorted_distinct_set_unique [of ?f]) simp_all
  then show ?thesis using canonical_keyed [OF assms(3)] by simp
qed

lemma hex_heads: "to_hex (utf8 (CHR ''b'' # s)) = CHR ''6'' # CHR ''2'' # to_hex (utf8 s)"
  "to_hex (utf8 (CHR ''f'' # s)) = CHR ''6'' # CHR ''6'' # to_hex (utf8 s)"
  "to_hex (utf8 (CHR ''i'' # s)) = CHR ''6'' # CHR ''9'' # to_hex (utf8 s)"
  "to_hex (utf8 (CHR ''t'' # s)) = CHR ''7'' # CHR ''4'' # to_hex (utf8 s)"
  by (simp_all add: utf8_def byte_of_char_def hex_digit_def char_of_def bit_0)

lemma key_orders:
  "sorted_wrt (<) (map (\<lambda>k. cbor_key (toDataKey k)) [''name'', ''ticker'', ''description''])"
  "sorted_wrt (<) (map (\<lambda>k. cbor_key (toDataKey k)) [''path'', ''baseDenom'', ''fullDenom'', ''ibcDenomHash'', ''traceVersion'',
     ''voucherPolicyId'', ''voucherTokenName''])"
  by (simp_all add: cbor_key_toDataKey hex_heads)

lemma canonical_voucher_data:
  assumes "md_ticker m \<noteq> []" "md_decimals m = None" "md_url m = None" "md_logo m = None"
  shows "canonical_data (voucher_data m) =
    PConstr 0 [PMap (keyed [(''name'', toDataBytes (md_name m)), (''ticker'', toDataBytes (md_ticker m)), (''description'', toDataBytes (md_description m))]),
      PInt (md_version m),
      PMap (keyed [(''path'', toDataBytes (ex_path (md_extra m))), (''baseDenom'', toDataBytes (ex_baseDenom (md_extra m))),
        (''fullDenom'', toDataBytes (ex_fullDenom (md_extra m))), (''ibcDenomHash'', toDataBytes (ex_ibcDenomHash (md_extra m))),
        (''traceVersion'', PInt (md_traceVersion m)), (''voucherPolicyId'', toDataBytes (ex_voucherPolicyId (md_extra m))),
        (''voucherTokenName'', toDataBytes (ex_voucherTokenName (md_extra m)))])]"
proof -
  have 1: "canonical_data (PMap (metadata_map m)) = PMap (keyed [(''name'', toDataBytes (md_name m)), (''ticker'', toDataBytes (md_ticker m)),
      (''description'', toDataBytes (md_description m))])"
    unfolding metadata_map_keyed using key_orders(1) assms entries_ok(3) [of m] distinct_map [of fst] entries_ok(1) [of m]
    by (intro canonical_order) (auto simp: metadata_entries_def)
  have 2: "canonical_data (PMap (extra_map m)) = PMap (keyed [(''path'', toDataBytes (ex_path (md_extra m))), (''baseDenom'', toDataBytes (ex_baseDenom (md_extra m))),
        (''fullDenom'', toDataBytes (ex_fullDenom (md_extra m))), (''ibcDenomHash'', toDataBytes (ex_ibcDenomHash (md_extra m))),
        (''traceVersion'', PInt (md_traceVersion m)), (''voucherPolicyId'', toDataBytes (ex_voucherPolicyId (md_extra m))),
        (''voucherTokenName'', toDataBytes (ex_voucherTokenName (md_extra m)))])"
    unfolding extra_map_keyed using key_orders(2) entries_ok(6) [of m]
    by (intro canonical_order) (auto simp: extra_entries_def)
  show ?thesis by (simp add: voucher_data_def 1 2 del: canonical_data.simps(2))
qed

lemma label_nonempty:
  assumes "b \<noteq> []" "list_all no_space b"
  shows "deriveVoucherCanonicalLabel b \<noteq> []"
proof (cases "filter (\<lambda>s. s \<noteq> []) (split_on (CHR ''/'') b)")
  case Nil
  with assms js_trim_no_space [OF assms(2)] show ?thesis by (simp add: deriveVoucherCanonicalLabel_def)
next
  case (Cons y ys)
  have "last (y # ys) \<in> set (filter (\<lambda>s. s \<noteq> []) (split_on (CHR ''/'') b))" unfolding Cons by (rule last_in_set) simp
  then have "last (y # ys) \<noteq> []" by simp
  with Cons assms(1) js_trim_no_space [OF assms(2)] show ?thesis by (simp add: deriveVoucherCanonicalLabel_def)
qed

lemma chain_datum_eq:
  assumes "list_all no_space fd" and "canonical_channels (split_on (CHR ''/'') fd)"
  shows "build_datum sha (utf8 fd) tokenName policy =
    (case splitFullDenomTrace fd of
       Inl _ \<Rightarrow> None
     | Inr t \<Rightarrow> Some (canonical_data (voucher_data (buildVoucherCip68Metadata
         \<lparr>ex_path = path t, ex_baseDenom = baseDenom t, ex_fullDenom = fd, ex_voucherTokenName = to_hex tokenName,
          ex_voucherPolicyId = to_hex policy, ex_ibcDenomHash = buildIbcDenomHashFromFullDenom sha fd\<rparr>))))"
proof (cases "splitFullDenomTrace fd")
  case (Inl e)
  then show ?thesis using chain_split [OF assms] by (simp add: build_datum_def)
next
  case (Inr t)
  note base = base_facts [OF assms(1) Inr]
  have hex: "hex_ascii bs = utf8 (to_hex bs)" for bs by (simp add: hex_ascii_def ascii_lower_base16)
  have "buildIbcDenomHashFromFullDenom sha fd = to_hex (sha (utf8 fd))"
    by (simp add: buildIbcDenomHashFromFullDenom_def to_lower_hex to_hex_lower)
  then show ?thesis
    using Inr chain_split [OF assms] chain_label [OF base] label_nonempty [OF base(2,1)]
    by (simp add: build_datum_def canonical_voucher_data buildVoucherCip68Metadata_def deriveVoucherPresentation_def Let_def keyed_def
        toDataKey_def toDataBytes_def b_data_def hex VOUCHER_METADATA_VERSION_def utf8_simps)
qed

text \<open>
  C33. One datum on both sides: for a printable denomination whose channel numbers have no leading
  zeros, the datum the minting policy demands exists exactly when the registry can split the
  denomination, and it is the one the registry's encoder serialises, entry by entry in canonical
  order. So, for a serialiser that writes canonical CBOR, the serialised datum that the policy
  demands passes the registry's verification.
\<close>

theorem metadata_datum_matches_chain:
  assumes "list_all no_space fd" and "canonical_channels (split_on (CHR ''/'') fd)"
  shows "build_datum sha (utf8 fd) tokenName policy =
    (case splitFullDenomTrace fd of
       Inl _ \<Rightarrow> None
     | Inr t \<Rightarrow> Some (canonical_data (voucher_data (buildVoucherCip68Metadata
         \<lparr>ex_path = path t, ex_baseDenom = baseDenom t, ex_fullDenom = fd, ex_voucherTokenName = to_hex tokenName,
          ex_voucherPolicyId = to_hex policy, ex_ibcDenomHash = buildIbcDenomHashFromFullDenom sha fd\<rparr>)))) \<and>
    (\<forall>to_cbor plain t d. (\<forall>x. to_cbor x = plain (canonical_data x)) \<longrightarrow> splitFullDenomTrace fd = Inr t \<longrightarrow>
       build_datum sha (utf8 fd) tokenName policy = Some d \<longrightarrow>
       (let params = \<lparr>ex_path = path t, ex_baseDenom = baseDenom t, ex_fullDenom = fd, ex_voucherTokenName = to_hex tokenName,
          ex_voucherPolicyId = to_hex policy, ex_ibcDenomHash = buildIbcDenomHashFromFullDenom sha fd\<rparr> in
        decodeVerifiedVoucherCip68MetadataDatum to_cbor (plain d) params = Inr (buildVoucherCip68Metadata params)))"
  unfolding chain_datum_eq [OF assms]
  by (auto simp: decodeVerifiedVoucherCip68MetadataDatum_def encodeVoucherCip68MetadataDatum_def Let_def)

theorem metadata_datum_matches_chain_witness:
  "\<exists>d m. build_datum sum_hash (utf8 ''transfer/channel-7/uatom'') [1] [2] = Some d \<and>
     decodeVerifiedVoucherCip68MetadataDatum (\<lambda>x. case canonical_data x of PConstr i fs \<Rightarrow> dec_string (length fs) | _ \<Rightarrow> [])
       (case d of PConstr i fs \<Rightarrow> dec_string (length fs) | _ \<Rightarrow> [])
       \<lparr>ex_path = ''transfer/channel-7'', ex_baseDenom = ''uatom'', ex_fullDenom = ''transfer/channel-7/uatom'',
        ex_voucherTokenName = to_hex [1], ex_voucherPolicyId = to_hex [2],
        ex_ibcDenomHash = buildIbcDenomHashFromFullDenom sum_hash ''transfer/channel-7/uatom''\<rparr> = Inr m"
proof -
  let ?fd = "''transfer/channel-7/uatom''" and ?plain = "\<lambda>x. case x of PConstr i fs \<Rightarrow> dec_string (length fs) | _ \<Rightarrow> []"
  have "list_all no_space ?fd" "canonical_channels (split_on (CHR ''/'') ?fd)" by code_simp+
  note both = metadata_datum_matches_chain [OF this, of sum_hash "[1]" "[2]"]
  obtain d where d: "build_datum sum_hash (utf8 ?fd) [1] [2] = Some d" using conjunct1 [OF both] by (simp only: split_atom sum.case)
  from conjunct2 [OF both, rule_format, of "\<lambda>x. ?plain (canonical_data x)" ?plain, OF refl split_atom d] d
  show ?thesis by (simp only: Let_def denom_trace.select_convs) blast
qed

end
