(* ===== verification/Trace_Registry.thy ===== *)
theory Trace_Registry
  imports Voucher_Metadata
begin

section \<open>The trace registry client\<close>

text \<open>
  \<open>packages/cardano-ibc-trace-registry/src/index.ts\<close>: which denomination a voucher stands for is
  recorded on chain in a registry of sixteen buckets, chosen by the first digit of the voucher
  hash; a directory output names the shards of each bucket. The client reads the registry to
  answer what a Cardano asset or an IBC hash denotes. The bridge manifest, the chain query, the
  CBOR codec and the hashes are parameters; promises that run in parallel are evaluated in order,
  which changes neither the result nor whether there is an error.
\<close>

record registry_entry =
  voucher_hash :: string
  full_denom :: string

record trace_shard_datum =
  sh_bucket_index :: int
  sh_entries :: "registry_entry list"

record directory_bucket =
  db_bucket_index :: int
  active_shard_name :: string
  archived_shard_names :: "string list"

datatype registry_datum = Shard trace_shard_datum | Directory "directory_bucket list"

record registry_config =
  shard_policy_id :: string
  directory_policy_id :: string
  directory_token_name :: string

record bridge_manifest =
  mint_voucher_script_hash :: "string option"
  trace_registry :: "registry_config option"

text \<open>What the client is given: the manifest, whether the provider can be set up, the query for the datum of the output that holds a unit
  (\<open>None\<close> if there is no such output, or no datum), the codec and SHA-256.\<close>

record registry_deps =
  bridgeManifest :: "bridge_manifest result"
  kupmiosProvider :: "unit result"
  getDatumByUnit :: "string \<Rightarrow> string option result"
  data_from :: "string \<Rightarrow> plutus result"
  data_to :: "plutus \<Rightarrow> string"
  reg_sha256 :: hash_fun

subsection \<open>Decoding\<close>

definition assertString :: "plutus option \<Rightarrow> string \<Rightarrow> string result" where
  "assertString v message = (case v of Some (PBytes s) \<Rightarrow> Inr s | _ \<Rightarrow> Inl (Error message))"

definition expectConstr :: "plutus option \<Rightarrow> nat option \<Rightarrow> (nat \<times> plutus list) result" where
  "expectConstr v expectedIndex =
     (case v of
        Some (PConstr i fs) \<Rightarrow>
          (case expectedIndex of
             Some e \<Rightarrow>
               bindE (throwIf (i \<noteq> e)
                        (Error (''Unexpected trace-registry constructor index '' @ dec_string i @ '', expected '' @ dec_string e)))
                 (\<lambda>_. Inr (i, fs))
           | None \<Rightarrow> Inr (i, fs))
      | _ \<Rightarrow> Inl (Error ''Expected trace-registry constructor data''))"

definition hexToText :: "string \<Rightarrow> string result" where
  "hexToText hex =
     (if hex = [] then Inr []
      else bindE (throwIf (length hex mod 2 \<noteq> 0) (Error (''Invalid hex string length: '' @ dec_string (length hex))))
        (\<lambda>_. Inr (text_decoder (buffer_of_numbers (hexToBytes hex)))))"

definition decodeEntry :: "plutus \<Rightarrow> registry_entry result" where
  "decodeEntry v =
     bindE (expectConstr (Some v) (Some 0)) (\<lambda>(_, fs).
     bindE (assertString (field 0 fs) ''Invalid trace-registry entry voucher hash'') (\<lambda>h.
     bindE (assertString (field 1 fs) ''Invalid trace-registry entry full denom'') (\<lambda>d.
     bindE (hexToText d) (\<lambda>t.
     Inr \<lparr>voucher_hash = to_lower h, full_denom = t\<rparr>))))"

definition decodeShardDatum :: "plutus option \<Rightarrow> trace_shard_datum result" where
  "decodeShardDatum v =
     bindE (expectConstr v (Some 0)) (\<lambda>(_, fs).
     case (field 0 fs, field 1 fs) of
       (Some (PInt i), Some (PList es)) \<Rightarrow> bindE (mapE decodeEntry es) (\<lambda>xs. Inr \<lparr>sh_bucket_index = i, sh_entries = xs\<rparr>)
     | _ \<Rightarrow> Inl (Error ''Invalid trace-registry shard datum fields''))"

definition plutus_strings :: "plutus list \<Rightarrow> string list option" where
  "plutus_strings ds =
     (if list_all (\<lambda>d. case d of PBytes s \<Rightarrow> True | _ \<Rightarrow> False) ds
      then Some (map (\<lambda>d. case d of PBytes s \<Rightarrow> s | _ \<Rightarrow> []) ds) else None)"

definition decodeDirectoryBucket :: "plutus \<Rightarrow> directory_bucket result" where
  "decodeDirectoryBucket v =
     bindE (expectConstr (Some v) (Some 0)) (\<lambda>(_, fs).
     case (field 0 fs, field 1 fs, field 2 fs) of
       (Some (PInt i), Some (PBytes a), Some (PList ns)) \<Rightarrow>
         (case plutus_strings ns of
            Some names \<Rightarrow> Inr \<lparr>db_bucket_index = i, active_shard_name = a, archived_shard_names = names\<rparr>
          | None \<Rightarrow> Inl (Error ''Invalid trace-registry directory bucket fields''))
     | _ \<Rightarrow> Inl (Error ''Invalid trace-registry directory bucket fields''))"

definition decodeDirectoryDatum :: "plutus option \<Rightarrow> directory_bucket list result" where
  "decodeDirectoryDatum v =
     bindE (expectConstr v (Some 0)) (\<lambda>(_, fs).
     case field 0 fs of
       Some (PList bs) \<Rightarrow> mapE decodeDirectoryBucket bs
     | _ \<Rightarrow> Inl (Error ''Invalid trace-registry directory buckets''))"

definition decodeTraceRegistryDatum :: "(string \<Rightarrow> plutus result) \<Rightarrow> string \<Rightarrow> registry_datum result" where
  "decodeTraceRegistryDatum from encodedDatum =
     bindE (from encodedDatum) (\<lambda>decoded.
     bindE (expectConstr (Some decoded) None) (\<lambda>(i, fs).
     if i = 0 then bindE (decodeShardDatum (field 0 fs)) (\<lambda>d. Inr (Shard d))
     else if i = 1 then bindE (decodeDirectoryDatum (field 0 fs)) (\<lambda>d. Inr (Directory d))
     else Inl (Error (''Unknown trace-registry datum constructor '' @ dec_string i))))"

subsection \<open>Assets and manifest\<close>

datatype trace_kind = Native | IbcVoucher

record asset_trace =
  tr_assetId :: string
  tr_kind :: trace_kind
  tr_path :: string
  tr_baseDenom :: string
  tr_fullDenom :: string
  tr_voucherTokenName :: "string option"
  tr_cip68ReferenceAssetId :: "string option"
  tr_voucherPolicyId :: "string option"
  tr_ibcDenomHash :: "string option"
  tr_displayName :: string
  tr_displaySymbol :: string
  tr_displayDescription :: string
  tr_description :: "string option"
  tr_ticker :: "string option"
  tr_decimals :: "int option"
  tr_url :: "string option"
  tr_logo :: "string option"
  tr_metadataVersion :: "int option"

definition buildNativeAssetTrace :: "string \<Rightarrow> string \<Rightarrow> string \<Rightarrow> asset_trace" where
  "buildNativeAssetTrace assetId base fullDenom =
     (let display = (if fullDenom = ''lovelace'' then ''ADA'' else base) in
      \<lparr>tr_assetId = assetId, tr_kind = Native, tr_path = [], tr_baseDenom = base, tr_fullDenom = fullDenom,
       tr_voucherTokenName = None, tr_cip68ReferenceAssetId = None, tr_voucherPolicyId = None, tr_ibcDenomHash = None,
       tr_displayName = display, tr_displaySymbol = display, tr_displayDescription = ''Cardano native asset '' @ fullDenom,
       tr_description = None, tr_ticker = None, tr_decimals = None, tr_url = None, tr_logo = None, tr_metadataVersion = None\<rparr>)"

definition mapVoucherTrace :: "hash_fun \<Rightarrow> string \<Rightarrow> string \<Rightarrow> string \<Rightarrow> cip68_metadata option \<Rightarrow> string \<Rightarrow> asset_trace result" where
  "mapVoucherTrace sha assetId hash fullDenom metadata policy =
     bindE (splitFullDenomTrace fullDenom) (\<lambda>trace.
     let presentation = deriveVoucherPresentation fullDenom (baseDenom trace) in
     bindE (buildVoucherUserTokenNameFromDenomHash hash) (\<lambda>tokenName.
     bindE (deriveVoucherReferenceAssetId policy hash) (\<lambda>reference.
     Inr \<lparr>tr_assetId = assetId, tr_kind = IbcVoucher, tr_path = path trace, tr_baseDenom = baseDenom trace, tr_fullDenom = fullDenom,
        tr_voucherTokenName = Some tokenName, tr_cip68ReferenceAssetId = Some reference, tr_voucherPolicyId = Some policy,
        tr_ibcDenomHash = Some (buildIbcDenomHashFromFullDenom sha fullDenom),
        tr_displayName = (case metadata of Some m \<Rightarrow> md_name m | None \<Rightarrow> displayName presentation),
        tr_displaySymbol = (case metadata of Some m \<Rightarrow> md_ticker m | None \<Rightarrow> displaySymbol presentation),
        tr_displayDescription = (case metadata of Some m \<Rightarrow> md_description m | None \<Rightarrow> displayDescription presentation),
        tr_description = Some (case metadata of Some m \<Rightarrow> md_description m | None \<Rightarrow> displayDescription presentation),
        tr_ticker = Some (case metadata of Some m \<Rightarrow> md_ticker m | None \<Rightarrow> displaySymbol presentation),
        tr_decimals = Option.bind metadata md_decimals, tr_url = Option.bind metadata md_url,
        tr_logo = Option.bind metadata md_logo, tr_metadataVersion = map_option md_version metadata\<rparr>)))"

record parsed_asset_id =
  pa_assetId :: string
  pa_policyId :: string
  pa_assetNameHex :: string

definition parseCardanoAssetId :: "string \<Rightarrow> parsed_asset_id result" where
  "parseCardanoAssetId assetId =
     (let normalized = to_lower (js_trim assetId) in
      bindE (throwIf (normalized = []) (Error (CHR 0x22 # ''assetId'' @ CHR 0x22 # '' is required''))) (\<lambda>_.
      bindE (throwIf (\<not> list_all is_hex normalized)
               (Error (CHR 0x22 # ''assetId'' @ CHR 0x22 # '' must be a hex-encoded Cardano asset unit or '' @
                  CHR 0x22 # ''lovelace'' @ [CHR 0x22]))) (\<lambda>_.
      bindE (throwIf (length normalized < 56)
               (Error (CHR 0x22 # ''assetId'' @ CHR 0x22 # '' must include a 56-character policy id''))) (\<lambda>_.
      let assetNameHex = drop 56 normalized in
      bindE (throwIf (length assetNameHex mod 2 \<noteq> 0)
               (Error (CHR 0x22 # ''assetId'' @ CHR 0x22 # '' token name bytes must be hex encoded''))) (\<lambda>_.
      Inr \<lparr>pa_assetId = normalized, pa_policyId = take 56 normalized, pa_assetNameHex = assetNameHex\<rparr>)))))"

definition getBucketIndexForHash :: "string \<Rightarrow> nat result" where
  "getBucketIndexForHash hash =
     bindE (throwIf (\<not> (length hash = VOUCHER_DENOM_HASH_HEX_LENGTH \<and> list_all is_hex hash))
              (Error (''Invalid voucher hash for trace-registry lookup: '' @ hash)))
       (\<lambda>_. Inr (the (hex_val (hd hash))))"

definition getTraceRegistry :: "bridge_manifest \<Rightarrow> registry_config result" where
  "getTraceRegistry manifest =
     (case trace_registry manifest of
        None \<Rightarrow> Inl (Error ''Bridge manifest does not include Cardano trace-registry config'')
      | Some r \<Rightarrow> Inr r)"

definition getVoucherPolicyId :: "bridge_manifest \<Rightarrow> string result" where
  "getVoucherPolicyId manifest =
     (case map_option to_lower (mint_voucher_script_hash manifest) of
        Some p \<Rightarrow> if p = [] then Inl (Error ''Bridge manifest does not include the Cardano voucher mint policy'') else Inr p
      | None \<Rightarrow> Inl (Error ''Bridge manifest does not include the Cardano voucher mint policy''))"

definition unresolvedVoucherTraceError :: "string \<Rightarrow> string \<Rightarrow> error" where
  "unresolvedVoucherTraceError assetId hash =
     Error (''Cardano asset '' @ assetId @
       '' matches the bridge voucher mint policy and CIP-67 voucher label, but denom trace '' @ hash @
       '' could not be resolved. Refusing to treat it as a native Cardano asset.'')"

definition assertUniqueTraceRegistryEntries :: "registry_entry list \<Rightarrow> unit result" where
  "assertUniqueTraceRegistryEntries es =
     bindE (foldE (\<lambda>e seen.
              let normalizedHash = to_lower (voucher_hash e) in
              bindE (throwIf (normalizedHash \<in> set seen)
                       (Error (''Duplicate trace-registry entries detected for voucher hash '' @ normalizedHash)))
                (\<lambda>_. Inr (js_set_add normalizedHash seen))) es [])
       (\<lambda>_. Inr ())"

definition getKupmiosEndpoints :: "string \<Rightarrow> (string \<times> string) result" where
  "getKupmiosEndpoints kupmiosUrl =
     (case map js_trim (split_on (CHR '','') kupmiosUrl) of
        kupoUrl # ogmiosUrl # _ \<Rightarrow>
          if kupoUrl = [] \<or> ogmiosUrl = [] then Inl (Error (''kupmiosUrl must be set to '' @ CHR 0x22 # ''<kupo-url>,<ogmios-url>'' @
            CHR 0x22 # '' for on-chain trace-registry lookups.''))
          else Inr (kupoUrl, ogmiosUrl)
      | _ \<Rightarrow> Inl (Error (''kupmiosUrl must be set to '' @ CHR 0x22 # ''<kupo-url>,<ogmios-url>'' @
            CHR 0x22 # '' for on-chain trace-registry lookups.'')))"

subsection \<open>Reading the registry\<close>

definition loadRegistryContext :: "registry_deps \<Rightarrow> (registry_config \<times> directory_bucket list) result" where
  "loadRegistryContext deps =
     bindE (bridgeManifest deps) (\<lambda>manifest.
     bindE (kupmiosProvider deps) (\<lambda>_.
     bindE (getTraceRegistry manifest) (\<lambda>registry.
     let directoryUnit = to_lower (directory_policy_id registry @ directory_token_name registry) in
     bindE (getDatumByUnit deps directoryUnit) (\<lambda>datum.
     case datum of
       None \<Rightarrow> Inl (Error ''Unable to load the canonical Cardano trace-registry directory UTxO'')
     | Some d \<Rightarrow>
         bindE (decodeTraceRegistryDatum (data_from deps) d) (\<lambda>decoded.
         case decoded of
           Directory bs \<Rightarrow> Inr (registry, bs)
         | Shard _ \<Rightarrow> Inl (Error ''Trace-registry directory witness does not carry a directory datum''))))))"

definition getBucket :: "directory_bucket list \<Rightarrow> int \<Rightarrow> directory_bucket result" where
  "getBucket dir bucketIndex =
     (case find (\<lambda>b. js_Number_int (db_bucket_index b) = bucketIndex) dir of
        None \<Rightarrow> Inl (Error (''Missing trace-registry bucket '' @ int_string bucketIndex))
      | Some b \<Rightarrow> Inr b)"

definition load_shard :: "registry_deps \<Rightarrow> registry_config \<Rightarrow> int \<Rightarrow> string \<Rightarrow> trace_shard_datum result" where
  "load_shard deps registry bucketIndex tokenName =
     (let unit = to_lower (shard_policy_id registry @ tokenName) in
      bindE (getDatumByUnit deps unit) (\<lambda>datum.
      case datum of
        None \<Rightarrow> Inl (Error (''Trace-registry shard '' @ unit @ '' is missing inline datum''))
      | Some d \<Rightarrow>
          bindE (decodeTraceRegistryDatum (data_from deps) d) (\<lambda>decoded.
          case decoded of
            Directory _ \<Rightarrow> Inl (Error (''Trace-registry shard '' @ unit @ '' does not carry a shard datum''))
          | Shard s \<Rightarrow>
              bindE (throwIf (js_Number_int (sh_bucket_index s) \<noteq> bucketIndex)
                       (Error (''Trace-registry shard '' @ unit @ '' belongs to bucket '' @ int_string (sh_bucket_index s) @
                          '', expected '' @ int_string bucketIndex)))
                (\<lambda>_. Inr s))))"

definition loadBucketShards :: "registry_deps \<Rightarrow> registry_config \<Rightarrow> int \<Rightarrow> directory_bucket \<Rightarrow> trace_shard_datum list result" where
  "loadBucketShards deps registry bucketIndex bucket =
     (let tokenNames = active_shard_name bucket # archived_shard_names bucket in
      mapE (load_shard deps registry bucketIndex) (js_set_of tokenNames))"

definition findVoucherEntryByHash :: "registry_deps \<Rightarrow> string \<Rightarrow> registry_entry option result" where
  "findVoucherEntryByHash deps hash =
     (let normalizedHash = to_lower hash in
      bindE (loadRegistryContext deps) (\<lambda>(registry, dir).
      bindE (getBucketIndexForHash normalizedHash) (\<lambda>bucketIndex.
      bindE (getBucket dir (int bucketIndex)) (\<lambda>bucket.
      bindE (loadBucketShards deps registry (int bucketIndex) bucket) (\<lambda>shards.
      let matches = concat (map (\<lambda>s. filter (\<lambda>e. to_lower (voucher_hash e) = normalizedHash) (sh_entries s)) shards) in
      bindE (assertUniqueTraceRegistryEntries matches) (\<lambda>_.
      Inr (case matches of [] \<Rightarrow> None | e # _ \<Rightarrow> Some e)))))))"

definition resolveVoucherMetadata :: "registry_deps \<Rightarrow> string \<Rightarrow> string \<Rightarrow> string \<Rightarrow> cip68_metadata option result" where
  "resolveVoucherMetadata deps policy hash fullDenom =
     bindE (loadRegistryContext deps) (\<lambda>_.
     bindE (deriveVoucherReferenceAssetId policy hash) (\<lambda>referenceAssetId.
     bindE (getDatumByUnit deps referenceAssetId) (\<lambda>datum.
     case datum of
       None \<Rightarrow> Inr None
     | Some d \<Rightarrow> Inr (case
         bindE (splitFullDenomTrace fullDenom) (\<lambda>trace.
         bindE (buildVoucherUserTokenNameFromDenomHash hash) (\<lambda>tokenName.
         decodeVerifiedVoucherCip68MetadataDatum (data_to deps) d
           \<lparr>ex_path = path trace, ex_baseDenom = baseDenom trace, ex_fullDenom = fullDenom, ex_voucherTokenName = tokenName,
            ex_voucherPolicyId = policy, ex_ibcDenomHash = buildIbcDenomHashFromFullDenom (reg_sha256 deps) fullDenom\<rparr>)) of
           Inl _ \<Rightarrow> None | Inr m \<Rightarrow> Some m))))"

definition all_shards :: "registry_deps \<Rightarrow> (directory_bucket \<times> trace_shard_datum list) list result" where
  "all_shards deps =
     bindE (loadRegistryContext deps) (\<lambda>(registry, dir).
     mapE (\<lambda>b. bindE (loadBucketShards deps registry (js_Number_int (db_bucket_index b)) b) (\<lambda>ss. Inr (b, ss))) dir)"

definition findAllVoucherEntries :: "registry_deps \<Rightarrow> registry_entry list result" where
  "findAllVoucherEntries deps =
     bindE (all_shards deps) (\<lambda>shardsPerBucket.
     let entries = concat (map (\<lambda>(_, ss). concat (map sh_entries ss)) shardsPerBucket) in
     bindE (assertUniqueTraceRegistryEntries entries) (\<lambda>_.
     Inr (map (\<lambda>e. e\<lparr>voucher_hash := to_lower (voucher_hash e)\<rparr>) entries)))"

subsection \<open>The client's operations\<close>

definition lookupCardanoAssetDenomTrace :: "registry_deps \<Rightarrow> string \<Rightarrow> asset_trace result" where
  "lookupCardanoAssetDenomTrace deps assetId =
     (if to_lower (js_trim assetId) = ''lovelace'' then Inr (buildNativeAssetTrace ''lovelace'' ''lovelace'' ''lovelace'')
      else
      bindE (parseCardanoAssetId assetId) (\<lambda>parsed.
      bindE (bridgeManifest deps) (\<lambda>manifest.
      bindE (getVoucherPolicyId manifest) (\<lambda>policy.
      if pa_policyId parsed \<noteq> policy
      then Inr (buildNativeAssetTrace (pa_assetId parsed) (pa_assetId parsed) (pa_assetId parsed))
      else case parseVoucherAssetName (pa_assetNameHex parsed) of
        None \<Rightarrow> Inr (buildNativeAssetTrace (pa_assetId parsed) (pa_assetId parsed) (pa_assetId parsed))
      | Some v \<Rightarrow>
          bindE (findVoucherEntryByHash deps (voucherDenomHash v)) (\<lambda>entry.
          case entry of
            None \<Rightarrow> Inl (unresolvedVoucherTraceError (pa_assetId parsed) (voucherDenomHash v))
          | Some e \<Rightarrow>
              bindE (resolveVoucherMetadata deps policy (voucher_hash e) (full_denom e)) (\<lambda>metadata.
              mapVoucherTrace (reg_sha256 deps) (pa_assetId parsed) (voucher_hash e) (full_denom e) metadata policy))))))"

definition voucher_trace_of :: "registry_deps \<Rightarrow> string \<Rightarrow> registry_entry \<Rightarrow> asset_trace result" where
  "voucher_trace_of deps policy e =
     bindE (resolveVoucherMetadata deps policy (voucher_hash e) (full_denom e)) (\<lambda>metadata.
     bindE (buildVoucherUserTokenNameFromDenomHash (voucher_hash e)) (\<lambda>tokenName.
     mapVoucherTrace (reg_sha256 deps) (to_lower (policy @ tokenName)) (voucher_hash e) (full_denom e) metadata policy))"

definition lookupIbcDenomTrace :: "registry_deps \<Rightarrow> string \<Rightarrow> asset_trace option result" where
  "lookupIbcDenomTrace deps ibcDenomHash =
     (let normalizedHash = to_lower (js_trim ibcDenomHash) in
      bindE (throwIf (normalizedHash = []) (Error ''IBC denom hash cannot be empty'')) (\<lambda>_.
      bindE (bridgeManifest deps) (\<lambda>manifest.
      bindE (getVoucherPolicyId manifest) (\<lambda>policy.
      bindE (findAllVoucherEntries deps) (\<lambda>entries.
      case find (\<lambda>e. buildIbcDenomHashFromFullDenom (reg_sha256 deps) (full_denom e) = normalizedHash) entries of
        None \<Rightarrow> Inr None
      | Some e \<Rightarrow> bindE (voucher_trace_of deps policy e) (\<lambda>t. Inr (Some t)))))))"


section \<open>Properties\<close>

lemma case_Inr_iffs:
  "(case x of None \<Rightarrow> Inl e | Some y \<Rightarrow> f y) = Inr r \<longleftrightarrow> (\<exists>y. x = Some y \<and> f y = Inr r)"
  "(case d of Shard s \<Rightarrow> g s | Directory b \<Rightarrow> Inl e) = Inr r \<longleftrightarrow> (\<exists>s. d = Shard s \<and> g s = Inr r)"
  by (cases x; simp) (cases d; simp)

lemma mapE_source: "mapE f xs = Inr ys \<Longrightarrow> y \<in> set ys \<Longrightarrow> \<exists>x \<in> set xs. f x = Inr y"
  by (induction xs arbitrary: ys) (auto simp: bindE_Inr_iff)

lemma assert_unique_iff:
  "assertUniqueTraceRegistryEntries es = Inr u \<longleftrightarrow> distinct (map (\<lambda>e. to_lower (voucher_hash e)) es)"
proof -
  have "(\<exists>seen'. foldE (\<lambda>e seen. let normalizedHash = to_lower (voucher_hash e) in
          bindE (throwIf (normalizedHash \<in> set seen)
             (Error (''Duplicate trace-registry entries detected for voucher hash '' @ normalizedHash)))
            (\<lambda>_. Inr (js_set_add normalizedHash seen))) es seen = Inr seen') \<longleftrightarrow>
      distinct (map (\<lambda>e. to_lower (voucher_hash e)) es) \<and> set (map (\<lambda>e. to_lower (voucher_hash e)) es) \<inter> set seen = {}" for seen
  proof (induction es arbitrary: seen)
    case (Cons e es)
    then show ?case
      by (cases "to_lower (voucher_hash e) \<in> set seen") (auto simp: Let_def throwIf_eval js_set_add_def bindE_Inr_iff)
  qed simp
  from this [of "[]"] show ?thesis by (simp add: assertUniqueTraceRegistryEntries_def bindE_Inr_iff)
qed

lemma decoded_entry_lower: "decodeEntry v = Inr e \<Longrightarrow> to_lower (voucher_hash e) = voucher_hash e"
  by (auto simp: decodeEntry_def bindE_Inr_iff)

lemma decodeShardDatum_entries:
  assumes "decodeShardDatum v = Inr s"
  obtains es where "mapE decodeEntry es = Inr (sh_entries s)"
proof -
  from assms obtain i fs where
    "(case (field 0 fs, field 1 fs) of
        (Some (PInt i), Some (PList es)) \<Rightarrow> bindE (mapE decodeEntry es) (\<lambda>xs. Inr \<lparr>sh_bucket_index = i, sh_entries = xs\<rparr>)
      | _ \<Rightarrow> Inl (Error ''Invalid trace-registry shard datum fields'')) = Inr s"
    by (auto simp: decodeShardDatum_def bindE_Inr_iff)
  with that show ?thesis by (auto simp: bindE_Inr_iff split: option.split_asm plutus.split_asm)
qed

lemma loaded_entry_lower:
  assumes "load_shard deps r i n = Inr s" "e \<in> set (sh_entries s)"
  shows "to_lower (voucher_hash e) = voucher_hash e"
proof -
  obtain d where "decodeTraceRegistryDatum (data_from deps) d = Inr (Shard s)"
    using assms(1) by (auto simp: load_shard_def bindE_Inr_iff Let_def case_Inr_iffs throwIf_iff)
  then obtain v where "decodeShardDatum v = Inr s"
    by (auto simp: decodeTraceRegistryDatum_def bindE_Inr_iff split: if_splits)
  then obtain es where "mapE decodeEntry es = Inr (sh_entries s)" by (rule decodeShardDatum_entries)
  from mapE_source [OF this assms(2)] obtain x where "decodeEntry x = Inr e" by blast
  then show ?thesis by (rule decoded_entry_lower)
qed

lemma filter_unique: "distinct (map f xs) \<Longrightarrow> x \<in> set xs \<Longrightarrow> filter (\<lambda>y. f y = f x) xs = [x]"
proof (induction xs)
  case (Cons y ys)
  then show ?case
  proof (cases "x = y")
    case True
    with Cons.prems(1) have "filter (\<lambda>z. f z = f x) ys = []" by (auto simp: filter_empty_conv image_iff)
    with True show ?thesis by simp
  qed (use Cons in auto)
qed simp

lemma find_distinct: "distinct (map f xs) \<Longrightarrow> x \<in> set xs \<Longrightarrow> find (\<lambda>y. f y = f x) xs = Some x"
  by (induction xs) auto

text \<open>
  The shape of a registry: every entry has a 28-byte hash and sits in the bucket of its first
  digit, which \<open>validators/trace_registry.ak\<close> checks for every insertion, and bucket numbers do not
  repeat, which is how the deployment numbers them.
\<close>

definition well_bucketed :: "registry_deps \<Rightarrow> bool" where
  "well_bucketed deps =
     (\<forall>registry dir. loadRegistryContext deps = Inr (registry, dir) \<longrightarrow>
        distinct (map (\<lambda>b. js_Number_int (db_bucket_index b)) dir) \<and>
        (\<forall>b \<in> set dir. \<forall>ss. loadBucketShards deps registry (js_Number_int (db_bucket_index b)) b = Inr ss \<longrightarrow>
          (\<forall>s \<in> set ss. \<forall>e \<in> set (sh_entries s). length (voucher_hash e) = 56 \<and> list_all is_lower_hex (voucher_hash e) \<and>
             js_Number_int (db_bucket_index b) = int (the (hex_val (hd (voucher_hash e)))))))"

lemma concat_pairs:
  "x \<in> set (concat (map (\<lambda>(_, ys). concat (map f ys)) ps)) \<Longrightarrow> \<exists>k ys y. (k, ys) \<in> set ps \<and> y \<in> set ys \<and> x \<in> set (f y)"
  by auto

lemma all_entries:
  assumes "findAllVoucherEntries deps = Inr es" "e \<in> set es"
  obtains registry dir b ss s where "loadRegistryContext deps = Inr (registry, dir)" "b \<in> set dir"
    "loadBucketShards deps registry (js_Number_int (db_bucket_index b)) b = Inr ss" "s \<in> set ss" "e \<in> set (sh_entries s)"
    "distinct (map (\<lambda>e. to_lower (voucher_hash e)) (concat (map sh_entries ss)))"
proof -
  from assms(1) obtain per where shards: "all_shards deps = Inr per"
    and rest: "(let entries = concat (map (\<lambda>(_, ss). concat (map sh_entries ss)) per) in
       bindE (assertUniqueTraceRegistryEntries entries) (\<lambda>_.
       Inr (map (\<lambda>e. e\<lparr>voucher_hash := to_lower (voucher_hash e)\<rparr>) entries))) = Inr es"
    unfolding findAllVoucherEntries_def bindE_Inr_iff by blast
  from rest obtain u where "assertUniqueTraceRegistryEntries (concat (map (\<lambda>(_, ss). concat (map sh_entries ss)) per)) = Inr u"
    and es: "es = map (\<lambda>e. e\<lparr>voucher_hash := to_lower (voucher_hash e)\<rparr>) (concat (map (\<lambda>(_, ss). concat (map sh_entries ss)) per))"
    unfolding Let_def bindE_Inr_iff by blast
  then have dist: "distinct (map (\<lambda>e. to_lower (voucher_hash e)) (concat (map (\<lambda>(_, ss). concat (map sh_entries ss)) per)))"
    by (simp only: assert_unique_iff)
  from shards obtain rd where rd: "loadRegistryContext deps = Inr rd"
    and run: "(case rd of (registry, dir) \<Rightarrow>
       mapE (\<lambda>b. bindE (loadBucketShards deps registry (js_Number_int (db_bucket_index b)) b) (\<lambda>ss. Inr (b, ss))) dir) = Inr per"
    unfolding all_shards_def bindE_Inr_iff by blast
  obtain registry dir where p: "rd = (registry, dir)" by (cases rd)
  note ctx = rd [unfolded p] and per = run [unfolded p prod.case]
  have "e \<in> (\<lambda>e. e\<lparr>voucher_hash := to_lower (voucher_hash e)\<rparr>) `
      set (concat (map (\<lambda>(_, ss). concat (map sh_entries ss)) per))"
    using assms(2) by (simp only: es set_map)
  then obtain e0 where e: "e = e0\<lparr>voucher_hash := to_lower (voucher_hash e0)\<rparr>"
    and "e0 \<in> set (concat (map (\<lambda>(_, ss). concat (map sh_entries ss)) per))" by (rule imageE)
  from concat_pairs [OF this(2)] obtain b ss s where e0: "(b, ss) \<in> set per" "s \<in> set ss" "e0 \<in> set (sh_entries s)"
    by blast
  obtain b' where "b' \<in> set dir" "bindE (loadBucketShards deps registry (js_Number_int (db_bucket_index b')) b') (\<lambda>ss. Inr (b', ss)) = Inr (b, ss)"
    using mapE_source [OF per e0(1)] by blast
  then have b: "b \<in> set dir" "loadBucketShards deps registry (js_Number_int (db_bucket_index b)) b = Inr ss"
    by (auto simp: bindE_Inr_iff)
  from b(2) have "mapE (load_shard deps registry (js_Number_int (db_bucket_index b)))
      (js_set_of (active_shard_name b # archived_shard_names b)) = Inr ss"
    by (simp only: loadBucketShards_def Let_def)
  from mapE_source [OF this e0(2)] obtain n where "load_shard deps registry (js_Number_int (db_bucket_index b)) n = Inr s" by blast
  from loaded_entry_lower [OF this e0(3)] e have "e = e0" by simp
  obtain as bs where "per = as @ (b, ss) # bs" using e0(1) by (auto dest: split_list)
  with dist have "distinct (map (\<lambda>e. to_lower (voucher_hash e)) (concat (map sh_entries ss)))" by simp
  from that [OF ctx b e0(2) _ this] e0(3) \<open>e = e0\<close> show ?thesis by simp
qed

lemma entry_found_by_hash:
  assumes "well_bucketed deps" "findAllVoucherEntries deps = Inr es" "e \<in> set es"
  shows "findVoucherEntryByHash deps (voucher_hash e) = Inr (Some e)" "length (voucher_hash e) = 56"
    "list_all is_lower_hex (voucher_hash e)"
proof -
  obtain registry dir b ss s where ctx: "loadRegistryContext deps = Inr (registry, dir)" and b: "b \<in> set dir"
    and load: "loadBucketShards deps registry (js_Number_int (db_bucket_index b)) b = Inr ss" and s: "s \<in> set ss" "e \<in> set (sh_entries s)"
    and dist: "distinct (map (\<lambda>e. to_lower (voucher_hash e)) (concat (map sh_entries ss)))"
    by (rule all_entries [OF assms(2,3)])
  note wb = assms(1) [unfolded well_bucketed_def, rule_format, OF ctx]
  have db: "distinct (map (\<lambda>b. js_Number_int (db_bucket_index b)) dir)" by (rule conjunct1 [OF wb])
  note hs = conjunct2 [OF wb, rule_format, OF b load s]
  have h: "length (voucher_hash e) = 56" "list_all is_lower_hex (voucher_hash e)"
    "js_Number_int (db_bucket_index b) = int (the (hex_val (hd (voucher_hash e))))"
    by (rule conjunct1 [OF hs], rule conjunct1 [OF conjunct2 [OF hs]], rule conjunct2 [OF conjunct2 [OF hs]])
  then show "length (voucher_hash e) = 56" "list_all is_lower_hex (voucher_hash e)" by simp_all
  have low: "to_lower (voucher_hash e) = voucher_hash e" by (rule to_lower_hex [OF h(2)])
  have idx: "getBucketIndexForHash (voucher_hash e) = Inr (the (hex_val (hd (voucher_hash e))))"
    using h lower_hex_is_hex by (simp add: getBucketIndexForHash_def VOUCHER_DENOM_HASH_HEX_LENGTH_def throwIf_eval)
  have bucket: "getBucket dir (int (the (hex_val (hd (voucher_hash e))))) = Inr b"
    using find_distinct [OF db b] h(3) by (simp add: getBucket_def)
  have "concat (map (\<lambda>s. filter (\<lambda>x. to_lower (voucher_hash x) = to_lower (voucher_hash e)) (sh_entries s)) ss) =
      filter (\<lambda>x. to_lower (voucher_hash x) = to_lower (voucher_hash e)) (concat (map sh_entries ss))"
    by (simp add: filter_concat comp_def)
  also have "\<dots> = [e]" by (rule filter_unique [OF dist]) (use s in auto)
  finally have m: "concat (map (\<lambda>s. filter (\<lambda>x. to_lower (voucher_hash x) = voucher_hash e) (sh_entries s)) ss) = [e]"
    by (simp add: low)
  have "assertUniqueTraceRegistryEntries [e] = Inr ()" by (simp add: assert_unique_iff)
  then show "findVoucherEntryByHash deps (voucher_hash e) = Inr (Some e)"
    using ctx idx bucket load h(3) m by (simp add: findVoucherEntryByHash_def low Let_def)
qed

lemma registered_voucher_lookup:
  assumes "well_bucketed deps" and "bridgeManifest deps = Inr manifest" and "getVoucherPolicyId manifest = Inr policy"
    and "length policy = 56" and "list_all is_lower_hex policy"
    and es: "findAllVoucherEntries deps = Inr es" "e \<in> set es" and tr: "voucher_trace_of deps policy e = Inr trace"
  shows "lookupCardanoAssetDenomTrace deps (tr_assetId trace) = Inr trace"
proof -
  note f = entry_found_by_hash [OF assms(1) es]
  let ?n = "CIP67_FT_LABEL_HEX @ voucher_hash e"
  have n: "buildVoucherUserTokenNameFromDenomHash (voucher_hash e) = Inr ?n"
    by (simp add: buildVoucherUserTokenNameFromDenomHash_def normalize_lower [OF f(2,3)])
  have low: "list_all is_lower_hex (policy @ ?n)" using assms(5) f(3) labels_hex(2) by simp
  obtain md where md: "resolveVoucherMetadata deps policy (voucher_hash e) (full_denom e) = Inr md"
    "mapVoucherTrace (reg_sha256 deps) (policy @ ?n) (voucher_hash e) (full_denom e) md policy = Inr trace"
    using tr n to_lower_hex [OF low] by (auto simp: voucher_trace_of_def bindE_Inr_iff)
  then have id: "tr_assetId trace = policy @ ?n" by (auto simp: mapVoucherTrace_def bindE_Inr_iff Let_def)
  have norm: "to_lower (js_trim (policy @ ?n)) = policy @ ?n" by (simp only: lower_hex_no_space [OF low] to_lower_hex [OF low])
  have len: "length (policy @ ?n) = 120" using assms(4) f(2) labels_hex(1) by simp
  have ne: "policy @ ?n \<noteq> ''lovelace''"
  proof
    assume "policy @ ?n = ''lovelace''"
    from arg_cong [OF this, of length] len show False by (simp del: length_append)
  qed
  have pne: "policy \<noteq> []" using assms(4) by auto
  have parsed: "parseCardanoAssetId (policy @ ?n) = Inr \<lparr>pa_assetId = policy @ ?n, pa_policyId = policy, pa_assetNameHex = ?n\<rparr>"
    unfolding parseCardanoAssetId_def norm Let_def
    using lower_hex_is_hex [OF low] len assms(4) pne by (auto simp: throwIf_eval simp del: list_all_append)
  show ?thesis
    unfolding lookupCardanoAssetDenomTrace_def id norm parsed assms(2,3) bindE_simps
    using ne md parse_labelled(1) [OF f(2,3)] f(1) by simp
qed

text \<open>
  C37. The two ways to look up a voucher agree: if the IBC hash of a denomination resolves to a
  trace, then looking up the Cardano asset named in that trace returns the same trace. The
  registry is assumed to have the shape described above, and the policy identifier of the
  manifest to be 28 bytes.
\<close>

theorem registry_lookups_agree:
  assumes "well_bucketed deps" and "bridgeManifest deps = Inr manifest" and "getVoucherPolicyId manifest = Inr policy"
    and "length policy = 56" and "list_all is_lower_hex policy"
    and "lookupIbcDenomTrace deps hash = Inr (Some trace)"
  shows "lookupCardanoAssetDenomTrace deps (tr_assetId trace) = Inr trace"
proof -
  obtain es e where es: "findAllVoucherEntries deps = Inr es" "e \<in> set es" and tr: "voucher_trace_of deps policy e = Inr trace"
  proof -
    from assms(2,3,6) obtain es where es: "findAllVoucherEntries deps = Inr es"
      "(case find (\<lambda>e. buildIbcDenomHashFromFullDenom (reg_sha256 deps) (full_denom e) = to_lower (js_trim hash)) es of
         None \<Rightarrow> Inr None | Some e \<Rightarrow> bindE (voucher_trace_of deps policy e) (\<lambda>t. Inr (Some t))) = Inr (Some trace)"
      by (auto simp: lookupIbcDenomTrace_def bindE_Inr_iff throwIf_iff Let_def)
    then obtain e where "find (\<lambda>e. buildIbcDenomHashFromFullDenom (reg_sha256 deps) (full_denom e) = to_lower (js_trim hash)) es = Some e"
      "voucher_trace_of deps policy e = Inr trace"
      by (auto simp: bindE_Inr_iff split: option.split_asm)
    moreover from this(1) have "e \<in> set es" by (auto simp: find_Some_iff)
    ultimately show thesis using that es(1) by blast
  qed
  from registered_voucher_lookup [OF assms(1-5) this] show ?thesis .
qed

text \<open>A registry with one voucher, for applying the theorems to.\<close>

definition zeros :: string where
  "zeros = replicate 56 (CHR ''0'')"

definition registry_denom :: string where
  "registry_denom = to_hex (utf8 ''transfer/channel-7/uatom'')"

definition example_datum :: "string \<Rightarrow> plutus result" where
  "example_datum d =
     (if d = ''d'' then Inr (PConstr 1 [PConstr 0 [PList [PConstr 0 [PInt 0, PBytes ''aa'', PList []]]]])
      else Inr (PConstr 0 [PConstr 0 [PInt 0, PList [PConstr 0 [PBytes zeros, PBytes registry_denom]]]]))"

definition example_registry :: registry_deps where
  "example_registry =
     \<lparr>bridgeManifest = Inr \<lparr>mint_voucher_script_hash = Some zeros,
        trace_registry = Some \<lparr>shard_policy_id = ''bb'', directory_policy_id = ''cc'', directory_token_name = ''dd''\<rparr>\<rparr>,
      kupmiosProvider = Inr (),
      getDatumByUnit = (\<lambda>u. Inr (if u = ''ccdd'' then Some ''d'' else if u = ''bbaa'' then Some ''s'' else None)),
      data_from = example_datum, data_to = (\<lambda>_. []), reg_sha256 = (\<lambda>_. replicate 32 0)\<rparr>"

definition example_entry :: registry_entry where
  "example_entry = \<lparr>voucher_hash = zeros, full_denom = ''transfer/channel-7/uatom''\<rparr>"

lemma example_context:
  "loadRegistryContext example_registry =
     Inr (\<lparr>shard_policy_id = ''bb'', directory_policy_id = ''cc'', directory_token_name = ''dd''\<rparr>,
          [\<lparr>db_bucket_index = 0, active_shard_name = ''aa'', archived_shard_names = []\<rparr>])"
  by code_simp

lemma hexToText_utf8:
  assumes "well_formed t" and "take 3 (utf8 t) \<noteq> [0xEF, 0xBB, 0xBF]"
  shows "hexToText (to_hex (utf8 t)) = Inr t"
proof (cases "t = []")
  case False
  have "length (to_hex (utf8 t)) mod 2 = 0" "to_hex (utf8 t) \<noteq> []"
    using False length_to_hex [of "utf8 t"] by (auto simp del: length_to_hex simp: utf8_length)
  with assms show ?thesis
    by (simp add: hexToText_def text_decoder_def hexToBytes_to_hex throwIf_eval well_formed_def)
qed (simp add: hexToText_def utf8_def)

lemma example_text: "hexToText registry_denom = Inr ''transfer/channel-7/uatom''"
  unfolding registry_denom_def by (rule hexToText_utf8; code_simp)

lemma zeros_hex [simp]: "list_all is_lower_hex zeros" "length zeros = 56" "to_lower zeros = zeros" "hd zeros = CHR ''0''"
  "zeros \<noteq> []"
  by code_simp+

lemma example_shards:
  "loadBucketShards example_registry \<lparr>shard_policy_id = ''bb'', directory_policy_id = ''cc'', directory_token_name = ''dd''\<rparr> 0
     \<lparr>db_bucket_index = 0, active_shard_name = ''aa'', archived_shard_names = []\<rparr> =
   Inr [\<lparr>sh_bucket_index = 0, sh_entries = [example_entry]\<rparr>]"
proof -
  have "to_lower ''bbaa'' = ''bbaa''" by code_simp
  then show ?thesis
    by (simp add: loadBucketShards_def load_shard_def example_registry_def Let_def js_set_of_def js_set_add_def
        decodeTraceRegistryDatum_def example_datum_def expectConstr_def field_def decodeShardDatum_def decodeEntry_def
        assertString_def example_text example_entry_def js_Number_int_def throwIf_eval)
qed

lemma example_bucketed: "well_bucketed example_registry"
  by (auto simp: well_bucketed_def example_context example_shards js_Number_int_def example_entry_def hex_val_def)

lemma example_entries: "findAllVoucherEntries example_registry = Inr [example_entry]"
  by (simp add: findAllVoucherEntries_def all_shards_def example_context example_shards js_Number_int_def
      assertUniqueTraceRegistryEntries_def example_entry_def throwIf_eval js_set_add_def)

lemma example_manifest:
  "bridgeManifest example_registry = Inr \<lparr>mint_voucher_script_hash = Some zeros,
      trace_registry = Some \<lparr>shard_policy_id = ''bb'', directory_policy_id = ''cc'', directory_token_name = ''dd''\<rparr>\<rparr>"
    "getVoucherPolicyId \<lparr>mint_voucher_script_hash = Some zeros,
      trace_registry = Some \<lparr>shard_policy_id = ''bb'', directory_policy_id = ''cc'', directory_token_name = ''dd''\<rparr>\<rparr> = Inr zeros"
  by (simp_all add: example_registry_def getVoucherPolicyId_def)

lemma example_trace:
  obtains t where "voucher_trace_of example_registry zeros example_entry = Inr t" "tr_fullDenom t = ''transfer/channel-7/uatom''"
    "tr_assetId t = zeros @ CIP67_FT_LABEL_HEX @ zeros"
proof -
  have n: "normalizeVoucherDenomHash zeros = Inr zeros" by (rule normalize_lower) simp_all
  have low: "to_lower (zeros @ CIP67_FT_LABEL_HEX @ zeros) = zeros @ CIP67_FT_LABEL_HEX @ zeros"
    by (rule to_lower_hex) (use labels_hex(2) in simp)
  obtain r where r: "deriveVoucherReferenceAssetId zeros zeros = Inr r" "getDatumByUnit example_registry r = Inr None"
  proof
    show "deriveVoucherReferenceAssetId zeros zeros = Inr (zeros @ CIP67_REFERENCE_NFT_LABEL_HEX @ zeros)"
      using labels_hex(4) by (simp add: deriveVoucherReferenceAssetId_def buildVoucherReferenceTokenNameFromDenomHash_def n
          buildVoucherAssetId_def to_lower_hex)
    have "zeros @ x \<noteq> u" if "length u = 4" for x u :: string
      using arg_cong [of "zeros @ x" u length] that by auto
    from this [of "''ccdd''"] this [of "''bbaa''"]
    show "getDatumByUnit example_registry (zeros @ CIP67_REFERENCE_NFT_LABEL_HEX @ zeros) = Inr None"
      by (simp add: example_registry_def)
  qed
  have md: "resolveVoucherMetadata example_registry zeros zeros d = Inr None" for d
    by (simp add: resolveVoucherMetadata_def example_context r)
  have name: "buildVoucherUserTokenNameFromDenomHash zeros = Inr (CIP67_FT_LABEL_HEX @ zeros)"
    by (simp add: buildVoucherUserTokenNameFromDenomHash_def n)
  obtain t where "mapVoucherTrace (reg_sha256 example_registry) (zeros @ CIP67_FT_LABEL_HEX @ zeros) zeros
      ''transfer/channel-7/uatom'' None zeros = Inr t" "tr_fullDenom t = ''transfer/channel-7/uatom''"
      "tr_assetId t = zeros @ CIP67_FT_LABEL_HEX @ zeros"
    by (simp add: mapVoucherTrace_def split_atom name r(1) Let_def)
  then show ?thesis
    by (intro that [of t]) (simp_all only: voucher_trace_of_def example_entry_def registry_entry.simps md name low bindE_simps)
qed

definition zero_ibc :: string where
  "zero_ibc = to_hex (replicate 32 0)"

theorem registry_lookups_agree_witness:
  "\<exists>trace. lookupIbcDenomTrace example_registry zero_ibc = Inr (Some trace) \<and>
     tr_fullDenom trace = ''transfer/channel-7/uatom'' \<and>
     lookupCardanoAssetDenomTrace example_registry (tr_assetId trace) = Inr trace"
proof -
  obtain t where t: "voucher_trace_of example_registry zeros example_entry = Inr t"
    "tr_fullDenom t = ''transfer/channel-7/uatom''" by (rule example_trace)
  have "list_all is_lower_hex zero_ibc" by (simp add: zero_ibc_def to_hex_lower)
  moreover have "zero_ibc \<noteq> []" by (simp add: zero_ibc_def to_hex_def)
  ultimately have "buildIbcDenomHashFromFullDenom (reg_sha256 example_registry) (full_denom example_entry) = zero_ibc"
    "to_lower (js_trim zero_ibc) = zero_ibc" "zero_ibc \<noteq> []"
    by (simp_all add: buildIbcDenomHashFromFullDenom_def example_registry_def lower_hex_no_space to_lower_hex
        zero_ibc_def [symmetric])
  then have l: "lookupIbcDenomTrace example_registry zero_ibc = Inr (Some t)"
    using t(1) example_manifest by (simp add: lookupIbcDenomTrace_def example_entries throwIf_eval Let_def)
  from registry_lookups_agree [OF example_bucketed example_manifest _ _ this] t(2) l show ?thesis by auto
qed

text \<open>
  C38. A voucher is never reported as a native asset: when an asset has the voucher policy and a
  voucher name, a look-up that returns at all reports a voucher, with the denomination that the
  registry holds for its hash.
\<close>

theorem voucher_never_native:
  assumes "parseCardanoAssetId a = Inr p" and "bridgeManifest deps = Inr m" and "getVoucherPolicyId m = Inr (pa_policyId p)"
    and "parseVoucherAssetName (pa_assetNameHex p) = Some v" and "lookupCardanoAssetDenomTrace deps a = Inr t"
  shows "tr_kind t = IbcVoucher \<and>
    (\<exists>e. findVoucherEntryByHash deps (voucherDenomHash v) = Inr (Some e) \<and> tr_fullDenom t = full_denom e)"
proof -
  have "\<not> list_all is_hex ''lovelace''" by code_simp
  moreover have "list_all is_hex (to_lower (js_trim a))"
    using assms(1) by (auto simp: parseCardanoAssetId_def Let_def bindE_Inr_iff throwIf_iff)
  ultimately have "to_lower (js_trim a) \<noteq> ''lovelace''" by metis
  with assms obtain r where r: "findVoucherEntryByHash deps (voucherDenomHash v) = Inr r"
    and k: "(case r of None \<Rightarrow> Inl (unresolvedVoucherTraceError (pa_assetId p) (voucherDenomHash v))
      | Some e \<Rightarrow> bindE (resolveVoucherMetadata deps (pa_policyId p) (voucher_hash e) (full_denom e)) (\<lambda>metadata.
          mapVoucherTrace (reg_sha256 deps) (pa_assetId p) (voucher_hash e) (full_denom e) metadata (pa_policyId p))) = Inr t"
    by (auto simp: lookupCardanoAssetDenomTrace_def bindE_Inr_iff)
  from k obtain e where e: "r = Some e" by (cases r) auto
  from k obtain metadata where
    "mapVoucherTrace (reg_sha256 deps) (pa_assetId p) (voucher_hash e) (full_denom e) metadata (pa_policyId p) = Inr t"
    by (auto simp: e bindE_Inr_iff)
  then have "tr_kind t = IbcVoucher" "tr_fullDenom t = full_denom e"
    by (auto simp: mapVoucherTrace_def bindE_Inr_iff Let_def)
  with r e show ?thesis by simp
qed

theorem voucher_never_native_witness:
  "\<exists>t. lookupCardanoAssetDenomTrace example_registry (zeros @ CIP67_FT_LABEL_HEX @ zeros) = Inr t \<and> tr_kind t = IbcVoucher"
proof -
  let ?a = "zeros @ CIP67_FT_LABEL_HEX @ zeros"
  obtain t where t: "voucher_trace_of example_registry zeros example_entry = Inr t" "tr_assetId t = ?a" by (rule example_trace)
  have l: "lookupCardanoAssetDenomTrace example_registry ?a = Inr t"
    using registered_voucher_lookup [OF example_bucketed example_manifest _ _ example_entries _ t(1)] t(2) by simp
  have low: "list_all is_lower_hex ?a" using labels_hex(2) by simp
  have "parseCardanoAssetId ?a = Inr \<lparr>pa_assetId = ?a, pa_policyId = zeros, pa_assetNameHex = CIP67_FT_LABEL_HEX @ zeros\<rparr>"
    unfolding parseCardanoAssetId_def lower_hex_no_space [OF low] to_lower_hex [OF low]
    using lower_hex_is_hex [OF low] labels_hex(1) by (simp add: throwIf_eval Let_def del: list_all_append)
  from voucher_never_native [OF this example_manifest(1) _ _ l] example_manifest(2) l
    parse_labelled(1) [of zeros] show ?thesis by simp
qed

end
