(* ===== verification/Async_Mutex.thy ===== *)
theory Async_Mutex
  imports Prelude
begin

section \<open>The mutex of the transaction builder\<close>

text \<open>
  \<open>packages/cardano-ibc-tx-builder-runtime/src/asyncMutex.ts\<close>. Promises are the cells of a heap, of
  which only whether they are resolved matters; cell 0 is the \<open>Promise.resolve()\<close> the field \<open>tail\<close>
  starts with. A call of \<open>runExclusive\<close> runs in three pieces, between which other calls may run:
  up to \<open>await previous\<close>, from there into the operation, and the \<open>finally\<close> block once the operation
  has settled. The theory shows that operations never overlap, that they run in the order of the
  calls, and that calls never get stuck as long as operations settle.
\<close>

datatype call_phase = Waiting | Running | Done

record mutex_call =
  previous :: nat
  own :: nat
  phase :: call_phase

record mutex =
  resolved :: "bool list"
  tail :: nat
  calls :: "mutex_call list"

definition new_mutex :: mutex where
  "new_mutex = \<lparr>resolved = [True], tail = 0, calls = []\<rparr>"

definition enter :: "mutex \<Rightarrow> mutex" where
  "enter m =
     (let release = length (resolved m) in
      m\<lparr>resolved := resolved m @ [False], tail := release,
        calls := calls m @ [\<lparr>previous = tail m, own = release, phase = Waiting\<rparr>]\<rparr>)"

definition resume :: "nat \<Rightarrow> mutex \<Rightarrow> mutex option" where
  "resume i m =
     (if i < length (calls m) \<and> phase (calls m ! i) = Waiting \<and> resolved m ! previous (calls m ! i)
      then Some (m\<lparr>calls := (calls m)[i := (calls m ! i)\<lparr>phase := Running\<rparr>]\<rparr>) else None)"

text \<open>The operation has returned or thrown; the \<open>finally\<close> block runs in both cases, and the call
  passes the outcome on.\<close>

definition settle :: "nat \<Rightarrow> 'a result \<Rightarrow> mutex \<Rightarrow> ('a result \<times> mutex) option" where
  "settle i outcome m =
     (if i < length (calls m) \<and> phase (calls m ! i) = Running
      then Some (outcome, m\<lparr>resolved := (resolved m)[own (calls m ! i) := True],
             calls := (calls m)[i := (calls m ! i)\<lparr>phase := Done\<rparr>]\<rparr>)
      else None)"

text \<open>Progress of calls that have been made, and the reachable states.\<close>

inductive progress :: "mutex \<Rightarrow> mutex \<Rightarrow> bool" where
  resumed: "resume i m = Some m' \<Longrightarrow> progress m m'"
| settled: "settle i (outcome :: unit result) m = Some (outcome, m') \<Longrightarrow> progress m m'"

inductive reachable :: "mutex \<Rightarrow> bool" where
  initial: "reachable new_mutex"
| entered: "reachable m \<Longrightarrow> reachable (enter m)"
| progressed: "reachable m \<Longrightarrow> progress m m' \<Longrightarrow> reachable m'"

inductive progress_steps :: "nat \<Rightarrow> mutex \<Rightarrow> mutex \<Rightarrow> bool" where
  no_step: "progress_steps 0 m m"
| one_more: "progress_steps n m m' \<Longrightarrow> progress m' m'' \<Longrightarrow> progress_steps (Suc n) m m''"


section \<open>Properties\<close>

definition mutex_inv :: "mutex \<Rightarrow> bool" where
  "mutex_inv m =
     (length (resolved m) = Suc (length (calls m)) \<and> tail m = length (calls m) \<and> resolved m ! 0 \<and>
      (\<forall>i < length (calls m). previous (calls m ! i) = i \<and> own (calls m ! i) = Suc i \<and>
         (resolved m ! Suc i \<longleftrightarrow> phase (calls m ! i) = Done) \<and>
         (phase (calls m ! i) \<noteq> Waiting \<longrightarrow> resolved m ! i)))"

lemma mutex_inv_enter: "mutex_inv m \<Longrightarrow> mutex_inv (enter m)"
  by (auto simp: mutex_inv_def enter_def Let_def nth_append less_Suc_eq)

lemma mutex_inv_resume: "mutex_inv m \<Longrightarrow> resume i m = Some m' \<Longrightarrow> mutex_inv m'"
  by (auto simp: mutex_inv_def resume_def nth_list_update split: if_splits)

lemma mutex_inv_settle: "mutex_inv m \<Longrightarrow> settle i r m = Some (r', m') \<Longrightarrow> mutex_inv m'"
  by (auto simp: mutex_inv_def settle_def nth_list_update split: if_splits)

lemma mutex_inv_progress: "progress m m' \<Longrightarrow> mutex_inv m \<Longrightarrow> mutex_inv m'"
  by (induction rule: progress.induct) (auto intro: mutex_inv_resume mutex_inv_settle)

lemma reachable_inv: "reachable m \<Longrightarrow> mutex_inv m"
proof (induction rule: reachable.induct)
  case initial
  show ?case by (simp add: mutex_inv_def new_mutex_def)
qed (auto intro: mutex_inv_enter mutex_inv_progress)

lemma earlier_done:
  assumes "mutex_inv m" and "j < length (calls m)" and "resolved m ! j" and "i < j"
  shows "phase (calls m ! i) = Done"
  using assms(2-)
proof (induction j)
  case (Suc j)
  with assms(1) have "phase (calls m ! j) = Done" "resolved m ! j" by (auto simp: mutex_inv_def)
  with Suc show ?case by (cases "i = j") auto
qed simp

text \<open>
  C39. Mutual exclusion in the order of the calls: whenever the operation of a call runs, the
  operations of all earlier calls have settled and those of all later calls have not begun.
\<close>

theorem operations_exclude_each_other:
  assumes "reachable m" and "i < length (calls m)" and "phase (calls m ! i) = Running"
    and "j < length (calls m)"
  shows "(j < i \<longrightarrow> phase (calls m ! j) = Done) \<and> (i < j \<longrightarrow> phase (calls m ! j) = Waiting)"
proof -
  have inv: "mutex_inv m" by (rule reachable_inv [OF assms(1)])
  then have "resolved m ! i" using assms(2,3) by (auto simp: mutex_inv_def)
  moreover have "phase (calls m ! j) = Waiting" if "i < j"
  proof (rule ccontr)
    assume "phase (calls m ! j) \<noteq> Waiting"
    then have "resolved m ! j" using inv assms(4) by (auto simp: mutex_inv_def)
    from earlier_done [OF inv assms(4) this that] assms(3) show False by simp
  qed
  ultimately show ?thesis using earlier_done [OF inv assms(2)] by blast
qed

definition two_calls :: mutex where
  "two_calls = the (resume 0 (enter (enter new_mutex)))"

lemma two_calls_reachable: "reachable two_calls"
proof -
  have "resume 0 (enter (enter new_mutex)) = Some two_calls"
    by (simp add: two_calls_def resume_def enter_def new_mutex_def)
  then show ?thesis by (blast intro: reachable.intros resumed)
qed

theorem operations_exclude_each_other_witness: "phase (calls two_calls ! 1) = Waiting"
  using operations_exclude_each_other [OF two_calls_reachable, of 0 1]
  by (simp add: two_calls_def resume_def enter_def new_mutex_def)

definition remaining :: "mutex \<Rightarrow> nat" where
  "remaining m = sum_list (map (\<lambda>c. case phase c of Waiting \<Rightarrow> 2 | Running \<Rightarrow> 1 | Done \<Rightarrow> 0) (calls m))"

lemma sum_list_update_Suc:
  fixes f :: "'a \<Rightarrow> nat"
  shows "i < length xs \<Longrightarrow> f (xs ! i) = Suc (f x) \<Longrightarrow> sum_list (map f xs) = Suc (sum_list (map f (xs[i := x])))"
  by (induction xs arbitrary: i) (auto split: nat.splits)

lemma progress_remaining: "progress m m' \<Longrightarrow> remaining m = Suc (remaining m')"
  by (induction rule: progress.induct)
    (auto simp: resume_def settle_def remaining_def intro!: sum_list_update_Suc split: if_splits)

lemma progress_steps_remaining: "progress_steps n m m' \<Longrightarrow> remaining m = n + remaining m'"
  by (induction rule: progress_steps.induct) (auto dest: progress_remaining)

lemma some_call_progresses:
  assumes "mutex_inv m" and "i < length (calls m)" and "phase (calls m ! i) \<noteq> Done"
  shows "\<exists>m'. progress m m'"
  using assms(2,3)
proof (induction i rule: less_induct)
  case (less i)
  show ?case
  proof (cases "phase (calls m ! i)")
    case Running
    then obtain m' where "settle i (Inr () :: unit result) m = Some (Inr (), m')"
      using less.prems by (simp add: settle_def)
    then show ?thesis by (blast intro: settled)
  next
    case Waiting
    show ?thesis
    proof (cases "resolved m ! i")
      case True
      then obtain m' where "resume i m = Some m'" using Waiting less.prems assms(1) by (simp add: resume_def mutex_inv_def)
      then show ?thesis by (blast intro: resumed)
    next
      case False
      then obtain k where k: "i = Suc k" using assms(1) by (cases i) (auto simp: mutex_inv_def)
      then have "phase (calls m ! k) \<noteq> Done" using False assms(1) less.prems by (auto simp: mutex_inv_def)
      then show ?thesis using less.IH [of k] k less.prems by simp
    qed
  qed (use less.prems in simp)
qed

text \<open>
  C40. No call is lost: if operations settle, the calls that have been made finish after a number of
  steps that is known beforehand. From a reachable state, at most \<open>remaining m\<close> steps are possible,
  and when no further step is possible every call has finished.
\<close>

theorem every_call_finishes:
  assumes "reachable m" and "progress_steps n m m'"
  shows "n \<le> remaining m \<and> ((\<nexists>m''. progress m' m'') \<longrightarrow> (\<forall>c \<in> set (calls m'). phase c = Done))"
proof -
  have "progress_steps n m m' \<Longrightarrow> mutex_inv m \<Longrightarrow> mutex_inv m'" for n m m'
    by (induction rule: progress_steps.induct) (auto intro: mutex_inv_progress)
  then have "mutex_inv m'" using assms reachable_inv by blast
  then show ?thesis
    using progress_steps_remaining [OF assms(2)] some_call_progresses by (auto simp: in_set_conv_nth) blast
qed

theorem every_call_finishes_witness:
  "\<not> (\<exists>m'. progress_steps 4 two_calls m')"
proof -
  have "remaining two_calls = 3" by (simp add: two_calls_def resume_def enter_def new_mutex_def remaining_def)
  then show ?thesis using every_call_finishes [OF two_calls_reachable, of 4] by auto
qed

end
