(* ===== verification/Spec2Isabelle.thy ===== *)
theory Spec2Isabelle
  imports Runtime_Tree Packet_Root State_Rebuild Trace_Registry Async_Mutex
begin

text \<open>
  Verification of the off-chain IBC gateway for Cardano. All paths are relative to \<open>src/\<close>.

  \<^bold>\<open>The program.\<close> Cardano takes part in IBC through a set of validators, written in Aiken
  (\<open>cardano/onchain\<close>), that keep the IBC state in datums of unspent outputs. One output, the host
  state, holds the root of a Merkle tree that commits to all IBC objects. A TypeScript gateway
  (\<open>cardano/gateway\<close>) and libraries for clients (\<open>packages\<close>) build the transactions: they compute
  the datums and the new root together with the sibling hashes from which the validators recompute
  that root. A transaction is good only if the validators accept it, so most theorems relate
  off-chain code to on-chain code.

  \<^bold>\<open>Foundations.\<close> \<open>Prelude\<close>, \<open>Js_Text\<close> and \<open>Js_Json\<close> model what the sources use of the language:
  thrown errors as values of \<open>error + 'a\<close>, buffers as lists of 8-bit words, \<open>Map\<close> as an association
  list in insertion order, strings as their UTF-8 bytes, \<open>JSON.stringify\<close>. \<open>Channel_Datum\<close> has the
  records of \<open>gateway/src/shared/types/channel\<close>. \<open>Hex\<close> is \<open>shared/helpers/hex.ts\<close>, with the
  acceptance condition and the round trips of its codecs. \<open>Witness_Hash\<close> has executable functions
  that satisfy the hypotheses on hashes.

  \<^bold>\<open>Commitment tree.\<close> \<open>Merkle_Hash\<close> and \<open>Merkle_Tree\<close> are the class \<open>ICS23MerkleTree\<close> of the gateway
  (\<open>shared/helpers/ics23-merkle-tree.ts\<close>), \<open>Runtime_Tree\<close> the one of
  \<open>packages/cardano-ibc-tx-builder-runtime/src/ics23MerkleTree.ts\<close>, \<open>Onchain_Commitment\<close> is
  \<open>ibc_state_commitment.ak\<close>. The locale \<open>commitment_tree\<close> of \<open>Commitment_Interface\<close> is what the state
  root relies on; it is interpreted on both classes. Shown: updates are accepted on chain with the
  gateway's root, accepted updates name the stored value, generated proofs verify, a rebuild fails
  exactly on an index collision, the root depends on the contents only, both classes agree.

  \<^bold>\<open>State root.\<close> \<open>Ibc_Paths\<close> has the keys of IBC objects and their injectivity. \<open>State_Root\<close>,
  \<open>State_Root_Replay\<close>, \<open>State_Root_Packets\<close> and \<open>State_Rebuild\<close> are
  \<open>gateway/src/shared/helpers/ibc-state-root.ts\<close>: the \<open>computeRootWith...\<close> functions are proved to
  pass the root checks of \<open>host_state_stt.ak\<close> (\<open>Host_Validator\<close>) operation by operation, and a
  rebuild from chain to install only the committed root and, for every state of ports, clients,
  connections and channels that the chain presents, exactly the entries of that state.
  \<open>Onchain_Keys\<close> has the key functions of \<open>ics-024-host-requirements\<close>, which give the gateway's paths.

  \<^bold>\<open>Channels and packets.\<close> \<open>Channel_Validator\<close> is the channel state machine of \<open>channel_datum.ak\<close> and
  the guards of \<open>validators/spending_channel\<close>, as an inductive step relation, with its invariant and
  the theorem that no packet is received twice although receipts are pruned. \<open>Sorted_Map\<close>
  (\<open>shared/helpers/helper.ts\<close>), \<open>Msg_Validate\<close> (\<open>tx/helper\<close>), \<open>Packet_Commitment\<close> (\<open>commitment.ts\<close>,
  \<open>acknowledgement.ts\<close>) and \<open>Packet_Service\<close> (\<open>tx/packet.service.ts\<close>) are the gateway's side. Receive
  and prune produce accepted datums. Acknowledge and timeout do so exactly on unordered channels,
  and acknowledgement commitments agree exactly when the payload needs no JSON escape. The step
  relation is the datum-level part of the validators; the packet-level checks it leaves out are
  listed there. \<open>Host_Packets\<close> is \<open>validate_handle_packet_root\<close> of \<open>host_state_stt.ak\<close>, with the checks of
  the datum and every packet redeemer, and \<open>Packet_Root\<close> joins both sides: what the service returns
  for a receive passes that check, and for an acknowledgement or a timeout it does so exactly on
  unordered channels.

  \<^bold>\<open>Client libraries.\<close> \<open>Ics20_Packet\<close>, \<open>Tx_Builder\<close> and \<open>Escrow_Asset\<close> are
  \<open>packages/cardano-ibc-tx-builder/src/index.ts\<close>, \<open>Escrow_Shard\<close> is \<open>transferEscrowShard.ts\<close> with
  \<open>transfer_escrow_shard.ak\<close>, and \<open>Voucher\<close>, \<open>Voucher_Denom\<close> and \<open>Voucher_Metadata\<close> are
  \<open>packages/cardano-ibc-trace-registry/src/voucher.ts\<close> with the on-chain voucher names and metadata.
  Shown: send datums are accepted steps within the capacity, shards found or created are the ones
  the chain expects, names and metadata agree with the chain for canonical denominations.
  \<open>Trace_Registry\<close> is \<open>packages/cardano-ibc-trace-registry/src/index.ts\<close>: its two look-ups agree and a
  voucher is never reported as a native asset. \<open>Async_Mutex\<close> is \<open>asyncMutex.ts\<close> of the runtime as a
  step relation, with mutual exclusion, order and progress.

  \<^bold>\<open>Parameters and bounds.\<close> Hash functions, the data codecs of Lucid, the protobuf decoder and chain
  queries are arguments; what is assumed of them is in the hypotheses of each theorem. Collision
  freedom is only assumed on the inputs at hand. No definition uses fuel: loops are structural or
  have a termination proof. The tree depth is 64 and a channel holds at most 64 packet entries, as
  in the sources. Sequences and heights are natural numbers; the 64-bit encoding in commitments is
  modelled with its wrap-around.

  \<^bold>\<open>Not modelled.\<close> Transaction assembly with Lucid, UTxO selection, submission, wallets and the query
  services, whose behaviour is that of libraries, nodes and databases; the datum codecs
  (\<open>channel-datum.ts\<close>, \<open>lucidIbcAdapter.ts\<close>), which are Lucid schemas; the timeout request, which
  parses arbitrary JSON; the manifest download and \<open>listCardanoIbcAssets\<close> of the registry client, the
  runtime's own state root and the route planner; on chain, signatures, token accounting,
  light clients, connections and proof verification; the command-line tool \<open>caribic\<close>, the Go modules
  under \<open>cosmos\<close>, the front ends under \<open>dapps\<close>, generated protobuf code and configuration.
\<close>

end
